theory Spec2Isabelle
  imports Main "HOL-Library.Char_ord" "HOL-Library.List_Lexorder" "HOL-Library.Multiset"
begin

unbundle bit_operations_syntax

section \<open>Data model of \<open>network_diagram.py\<close>\<close>

text \<open>
  The enums of the source become datatypes. \<open>AttachmentType.UNKNOWN\<close> and
  \<open>RouteTargetType.UNKNOWN\<close> share a name in Python; the attachment one is written
  \<open>UNKNOWN_ATTACHMENT\<close> here.
\<close>

datatype AttachmentType =
  VPC | VPN | DIRECT_CONNECT | PEERING | TGW_PEERING | CONNECT | UNKNOWN_ATTACHMENT

datatype RouteType = STATIC | PROPAGATED

datatype RouteState = ACTIVE | BLACKHOLE

datatype SubnetType = PUBLIC | PRIVATE | ISOLATED | TGW_ATTACHED

datatype RouteTargetType =
  LOCAL | IGW | NAT | TGW | VPC_PEERING | VPC_ENDPOINT | VGW | ENI | EGRESS_IGW | UNKNOWN

text \<open>
  Python's truth test on a \<open>str\<close> and on an \<open>Optional[str]\<close>: the empty string and
  \<open>None\<close> are false.
\<close>

definition truthy :: "string option \<Rightarrow> bool" where
  "truthy x = (case x of None \<Rightarrow> False | Some s \<Rightarrow> s \<noteq> [])"

text \<open>\<open>x or d\<close> on an optional string and \<open>dict.get(k, d)\<close>.\<close>

definition or_else :: "string option \<Rightarrow> string \<Rightarrow> string" where
  "or_else x d = (case x of None \<Rightarrow> d | Some s \<Rightarrow> (if s = [] then d else s))"

definition get_default :: "string option \<Rightarrow> string \<Rightarrow> string" where
  "get_default x d = (case x of None \<Rightarrow> d | Some s \<Rightarrow> s)"

definition startswith :: "string \<Rightarrow> string \<Rightarrow> bool" where
  "startswith s p = (take (length p) s = p)"

text \<open>
  The dataclasses. Record fields are global names in Isabelle, so each field carries a
  short prefix of its class: \<open>tr_\<close> TGWRoute, \<open>trt_\<close> TGWRouteTable, \<open>att_\<close>
  TGWAttachment, \<open>vr_\<close> VPCRoute, \<open>vrt_\<close> VPCRouteTable, \<open>sn_\<close> Subnet, \<open>vpc_\<close> VPC,
  \<open>tgw_\<close> TransitGateway.
\<close>

record TGWRoute =
  tr_destination_cidr :: string
  tr_prefix_list_id :: "string option"
  tr_attachment_id :: "string option"
  tr_resource_id :: "string option"
  tr_resource_type :: "string option"
  tr_route_type :: RouteType
  tr_state :: RouteState

definition tr_is_blackhole :: "TGWRoute \<Rightarrow> bool" where
  "tr_is_blackhole r = (tr_state r = BLACKHOLE)"

definition tr_destination :: "TGWRoute \<Rightarrow> string" where
  "tr_destination r = or_else (tr_prefix_list_id r) (tr_destination_cidr r)"

record TGWRouteTable =
  trt_id :: string
  trt_tgw_id :: string
  trt_name :: string
  trt_is_default_association :: bool
  trt_is_default_propagation :: bool
  trt_routes :: "TGWRoute list"
  trt_associations :: "string list"
  trt_propagations :: "string list"

record TGWAttachment =
  att_id :: string
  att_tgw_id :: string
  att_type :: AttachmentType
  att_resource_id :: string
  att_resource_owner_id :: string
  att_name :: string
  att_state :: string
  att_cidrs :: "string list"
  att_associated_route_table_id :: "string option"
  att_propagating_to :: "string list"
  att_is_cross_account :: bool
  att_tgw_owner_id :: string

record VPCRoute =
  vr_destination :: string
  vr_target_type :: RouteTargetType
  vr_target_id :: string
  vr_state :: RouteState

record VPCRouteTable =
  vrt_id :: string
  vrt_vpc_id :: string
  vrt_name :: string
  vrt_is_main :: bool
  vrt_routes :: "VPCRoute list"
  vrt_subnet_ids :: "string list"

record Subnet =
  sn_id :: string
  sn_vpc_id :: string
  sn_cidr :: string
  sn_az :: string
  sn_name :: string
  sn_route_table_id :: "string option"
  sn_subnet_type :: SubnetType

record VPC =
  vpc_id :: string
  vpc_name :: string
  vpc_cidrs :: "string list"
  vpc_owner_id :: string
  vpc_is_default :: bool
  vpc_igw_id :: "string option"
  vpc_nat_gateway_ids :: "string list"
  vpc_tgw_attachment_id :: "string option"
  vpc_main_route_table_id :: "string option"

record TransitGateway =
  tgw_id :: string
  tgw_name :: string
  tgw_owner_id :: string
  tgw_asn :: int
  tgw_state :: string

text \<open>
  A Python \<open>dict\<close> keeps its keys in insertion order, and the loops of the source run
  over \<open>.values()\<close> in that order: a dict is an association list. Assigning to a key
  that is present replaces the value in place; a new key goes to the end.
\<close>

type_synonym ('k, 'v) dict = "('k \<times> 'v) list"

definition dict_get :: "('k, 'v) dict \<Rightarrow> 'k \<Rightarrow> 'v option" where
  "dict_get d k = map_of d k"

definition dict_contains :: "('k, 'v) dict \<Rightarrow> 'k \<Rightarrow> bool" where
  "dict_contains d k = (map_of d k \<noteq> None)"

definition dict_values :: "('k, 'v) dict \<Rightarrow> 'v list" where
  "dict_values d = map snd d"

fun dict_set :: "('k, 'v) dict \<Rightarrow> 'k \<Rightarrow> 'v \<Rightarrow> ('k, 'v) dict" where
  "dict_set [] k v = [(k, v)]"
| "dict_set ((k', v') # d) k v = (if k' = k then (k, v) # d else (k', v') # dict_set d k v)"

text \<open>Mutating the object stored under a key (a no-op when the key is absent).\<close>

fun dict_modify :: "('k, 'v) dict \<Rightarrow> 'k \<Rightarrow> ('v \<Rightarrow> 'v) \<Rightarrow> ('k, 'v) dict" where
  "dict_modify [] k f = []"
| "dict_modify ((k', v') # d) k f =
     (if k' = k then (k', f v') # d else (k', v') # dict_modify d k f)"

text \<open>
  \<open>NetworkData\<close>, with the collections that the loader's correlation steps, the subnet
  classifier and the TGW and CIDR checks of the analyzer read or write.
\<close>

record NetworkData =
  tgws :: "(string, TransitGateway) dict"
  tgw_route_tables :: "(string, TGWRouteTable) dict"
  tgw_attachments :: "(string, TGWAttachment) dict"
  vpcs :: "(string, VPC) dict"
  vpc_route_tables :: "(string, VPCRouteTable) dict"
  subnets :: "(string, Subnet) dict"
  local_account_id :: string

section \<open>VPC route target resolution\<close>

text \<open>
  A raw route record of \<open>vpc-route-tables.json\<close>: the keys that \<open>_load_vpc_route_tables\<close>
  and \<open>_parse_vpc_route_target\<close> read with \<open>route.get\<close> (\<open>None\<close> when the key is missing).
\<close>

record raw_vpc_route =
  rvr_GatewayId :: "string option"
  rvr_NatGatewayId :: "string option"
  rvr_TransitGatewayId :: "string option"
  rvr_VpcPeeringConnectionId :: "string option"
  rvr_NetworkInterfaceId :: "string option"
  rvr_DestinationCidrBlock :: "string option"
  rvr_DestinationPrefixListId :: "string option"
  rvr_State :: "string option"

text \<open>
  The gateway-id block of the source has no final \<open>else\<close>: a gateway id with none of the
  known prefixes leaves the block without returning, which is \<open>None\<close> here.
\<close>

definition parse_gateway_id :: "string \<Rightarrow> (RouteTargetType \<times> string) option" where
  "parse_gateway_id gw =
     (if gw = ''local'' then Some (LOCAL, ''local'')
      else if startswith gw ''igw-'' then Some (IGW, gw)
      else if startswith gw ''vgw-'' then Some (VGW, gw)
      else if startswith gw ''eigw-'' then Some (EGRESS_IGW, gw)
      else if startswith gw ''vpce-'' then Some (VPC_ENDPOINT, gw)
      else None)"

definition parse_later_fields :: "raw_vpc_route \<Rightarrow> RouteTargetType \<times> string" where
  "parse_later_fields route =
     (if truthy (rvr_NatGatewayId route) then (NAT, the (rvr_NatGatewayId route))
      else if truthy (rvr_TransitGatewayId route) then (TGW, the (rvr_TransitGatewayId route))
      else if truthy (rvr_VpcPeeringConnectionId route)
        then (VPC_PEERING, the (rvr_VpcPeeringConnectionId route))
      else if truthy (rvr_NetworkInterfaceId route) then (ENI, the (rvr_NetworkInterfaceId route))
      else (UNKNOWN, ''''))"

definition parse_vpc_route_target :: "raw_vpc_route \<Rightarrow> RouteTargetType \<times> string" where
  "parse_vpc_route_target route =
     (case (if truthy (rvr_GatewayId route) then parse_gateway_id (the (rvr_GatewayId route)) else None) of
        Some res \<Rightarrow> res
      | None \<Rightarrow> parse_later_fields route)"

section \<open>Subnet classification\<close>

text \<open>
  The \<open>for route in rt.routes\<close> loop of \<open>_classify_subnets\<close>. The second argument is the
  subnet's current \<open>subnet_type\<close>, which the loop leaves alone unless it breaks on a default
  route whose target is an IGW, a NAT gateway or a TGW. Only those three branches \<open>break\<close>:
  a default route with any other target lets the loop run on.
\<close>

fun classify_routes :: "VPCRoute list \<Rightarrow> SubnetType \<Rightarrow> SubnetType" where
  "classify_routes [] t = t"
| "classify_routes (route # rest) t =
     (if vr_destination route = ''0.0.0.0/0'' \<or> vr_destination route = ''::/0'' then
        (if vr_target_type route = IGW then PUBLIC
         else if vr_target_type route = NAT then PRIVATE
         else if vr_target_type route = TGW then TGW_ATTACHED
         else classify_routes rest t)
      else classify_routes rest t)"

text \<open>The value of \<open>rt_id\<close> when the membership test of \<open>_classify_subnets\<close> is reached.\<close>

definition effective_rt_id :: "NetworkData \<Rightarrow> Subnet \<Rightarrow> string option" where
  "effective_rt_id d subnet =
     (if \<not> truthy (sn_route_table_id subnet) then
        (case dict_get (vpcs d) (sn_vpc_id subnet) of
           Some vpc \<Rightarrow> vpc_main_route_table_id vpc
         | None \<Rightarrow> sn_route_table_id subnet)
      else sn_route_table_id subnet)"

text \<open>One iteration of the loop over the subnets.\<close>

definition classify_subnet :: "NetworkData \<Rightarrow> Subnet \<Rightarrow> Subnet" where
  "classify_subnet d subnet =
     (let rt_id = effective_rt_id d subnet in
      if \<not> truthy rt_id \<or> \<not> dict_contains (vpc_route_tables d) (the rt_id)
      then subnet\<lparr>sn_subnet_type := ISOLATED\<rparr>
      else (case dict_get (vpc_route_tables d) (the rt_id) of
              Some rt \<Rightarrow> subnet\<lparr>sn_subnet_type := classify_routes (vrt_routes rt) (sn_subnet_type subnet)\<rparr>
            | None \<Rightarrow> subnet))"

text \<open>
  The loop writes only \<open>subnet.subnet_type\<close> and reads only the VPCs and the VPC route
  tables, so each subnet is classified against the same catalog.
\<close>

definition classify_subnets :: "NetworkData \<Rightarrow> NetworkData" where
  "classify_subnets d = d\<lparr>subnets := map (\<lambda>(k, subnet). (k, classify_subnet d subnet)) (subnets d)\<rparr>"

section \<open>IP networks\<close>

text \<open>
  The analyzer calls \<open>ipaddress.ip_network(s, strict=False)\<close> of the Python standard
  library, which is not code of this repository. A parsed network is its version (4 or 6),
  its network address and its prefix length. The network address is a number and, in an
  IPv6 network whose string carried one (\<open>fe80::%eth0/64\<close>), the scope id that
  \<open>IPv6Address\<close> keeps in \<open>_scope_id\<close>. The operations follow the library's
  \<open>_BaseNetwork\<close> and \<open>_BaseAddress\<close>. The parser itself is a parameter \<open>P\<close> of every
  function of the analyzer that parses, so the theorems hold for every parser, the
  library's included.
\<close>

datatype py_exception = ValueError | TypeError

record ip_net =
  net_version :: nat
  net_address :: nat
  net_scope_id :: "string option"
  net_prefixlen :: nat

type_synonym ip_parser = "string \<Rightarrow> py_exception + ip_net"

definition max_prefixlen :: "nat \<Rightarrow> nat" where
  "max_prefixlen v = (if v = 4 then 32 else 128)"

definition hostmask :: "ip_net \<Rightarrow> nat" where
  "hostmask n = 2 ^ (max_prefixlen (net_version n) - net_prefixlen n) - 1"

definition netmask :: "ip_net \<Rightarrow> nat" where
  "netmask n = (2 ^ max_prefixlen (net_version n) - 1) - hostmask n"

text \<open>\<open>int(n.broadcast_address)\<close>.\<close>

definition broadcast_address :: "ip_net \<Rightarrow> nat" where
  "broadcast_address n = net_address n OR hostmask n"

text \<open>
  An address object: version, number and scope id. The attribute \<open>network_address\<close> of a
  network carries the scope id of the network; the property \<open>broadcast_address\<close> builds
  its address from a number, so without a scope id.
\<close>

record ip_addr =
  addr_version :: nat
  addr_ip :: nat
  addr_scope_id :: "string option"

definition network_address_of :: "ip_net \<Rightarrow> ip_addr" where
  "network_address_of n =
     \<lparr>addr_version = net_version n, addr_ip = net_address n, addr_scope_id = net_scope_id n\<rparr>"

definition broadcast_address_of :: "ip_net \<Rightarrow> ip_addr" where
  "broadcast_address_of n =
     \<lparr>addr_version = net_version n, addr_ip = broadcast_address n, addr_scope_id = None\<rparr>"

text \<open>
  \<open>_BaseAddress.__eq__\<close> compares number and version; \<open>IPv6Address.__eq__\<close> compares the
  scope ids as well.
\<close>

definition addr_eq :: "ip_addr \<Rightarrow> ip_addr \<Rightarrow> bool" where
  "addr_eq a b =
     (if \<not> (addr_ip a = addr_ip b \<and> addr_version a = addr_version b) then False
      else if addr_version a = 6 then addr_scope_id a = addr_scope_id b
      else True)"

text \<open>
  \<open>_BaseAddress.__lt__\<close> raises a \<open>TypeError\<close> when the versions differ and compares the
  numbers otherwise; it does not read the scope id. The class is decorated with
  \<open>functools.total_ordering\<close>, which gives \<open>a <= b\<close> as \<open>a < b or a == b\<close> and \<open>a >= b\<close> as
  \<open>not a < b\<close>.
\<close>

definition addr_lt :: "ip_addr \<Rightarrow> ip_addr \<Rightarrow> py_exception + bool" where
  "addr_lt a b =
     (if addr_version a \<noteq> addr_version b then Inl TypeError
      else if addr_ip a \<noteq> addr_ip b then Inr (addr_ip a < addr_ip b)
      else Inr False)"

definition addr_le :: "ip_addr \<Rightarrow> ip_addr \<Rightarrow> py_exception + bool" where
  "addr_le a b =
     (case addr_lt a b of
        Inl e \<Rightarrow> Inl e
      | Inr op_result \<Rightarrow> Inr (op_result \<or> addr_eq a b))"

definition addr_ge :: "ip_addr \<Rightarrow> ip_addr \<Rightarrow> py_exception + bool" where
  "addr_ge a b =
     (case addr_lt a b of
        Inl e \<Rightarrow> Inl e
      | Inr op_result \<Rightarrow> Inr (\<not> op_result))"

text \<open>\<open>_BaseNetwork.__eq__\<close>.\<close>

definition net_eq :: "ip_net \<Rightarrow> ip_net \<Rightarrow> bool" where
  "net_eq a b = (net_version a = net_version b
                 \<and> addr_eq (network_address_of a) (network_address_of b)
                 \<and> netmask a = netmask b)"

text \<open>
  \<open>a.subnet_of(b)\<close>, that is \<open>_is_subnet_of(a, b)\<close>: a \<open>TypeError\<close> when the versions
  differ, else \<open>b.network_address <= a.network_address and
  b.broadcast_address >= a.broadcast_address\<close>.
\<close>

definition subnet_of :: "ip_net \<Rightarrow> ip_net \<Rightarrow> py_exception + bool" where
  "subnet_of a b =
     (if net_version a \<noteq> net_version b then Inl TypeError
      else (case addr_le (network_address_of b) (network_address_of a) of
              Inl e \<Rightarrow> Inl e
            | Inr below \<Rightarrow>
                if \<not> below then Inr False
                else addr_ge (broadcast_address_of b) (broadcast_address_of a)))"

text \<open>\<open>address in network\<close> for an address of version \<open>v\<close> (\<open>_BaseNetwork.__contains__\<close>).\<close>

definition net_contains :: "ip_net \<Rightarrow> nat \<Rightarrow> nat \<Rightarrow> bool" where
  "net_contains n v ip =
     (if net_version n \<noteq> v then False else (ip AND netmask n) = net_address n)"

definition overlaps :: "ip_net \<Rightarrow> ip_net \<Rightarrow> bool" where
  "overlaps a b =
     (net_contains b (net_version a) (net_address a)
      \<or> net_contains b (net_version a) (broadcast_address a)
      \<or> net_contains a (net_version b) (net_address b)
      \<or> net_contains a (net_version b) (broadcast_address b))"

section \<open>Connectivity analyzer\<close>

text \<open>A finding: the dict with the keys \<open>type\<close>, \<open>severity\<close>, \<open>location\<close> and \<open>message\<close>.\<close>

record issue =
  issue_type :: string
  issue_severity :: string
  issue_location :: string
  issue_message :: string

text \<open>
  \<open>_cidr_matches\<close>. The body of the \<open>try\<close> is a value of a sum type; the bare \<open>except\<close>
  turns every exception into the comparison of the two strings.
\<close>

definition cidr_matches_try :: "ip_parser \<Rightarrow> string \<Rightarrow> string \<Rightarrow> py_exception + bool" where
  "cidr_matches_try P route_cidr target_cidr =
     (case P route_cidr of Inl e \<Rightarrow> Inl e
      | Inr route_net \<Rightarrow>
     (case P target_cidr of Inl e \<Rightarrow> Inl e
      | Inr target_net \<Rightarrow>
     (case subnet_of target_net route_net of Inl e \<Rightarrow> Inl e
      | Inr b \<Rightarrow> Inr (b \<or> net_eq route_net target_net))))"

definition cidr_matches :: "ip_parser \<Rightarrow> string \<Rightarrow> string \<Rightarrow> bool" where
  "cidr_matches P route_cidr target_cidr =
     (if route_cidr = ''0.0.0.0/0'' then True
      else (case cidr_matches_try P route_cidr target_cidr of
              Inr b \<Rightarrow> b
            | Inl e \<Rightarrow> route_cidr = target_cidr))"

text \<open>\<open>_can_reach\<close>: the inner loop over the routes, the outer loop over \<open>dst.cidrs\<close>.\<close>

fun can_reach_routes :: "ip_parser \<Rightarrow> TGWRoute list \<Rightarrow> TGWAttachment \<Rightarrow> string \<Rightarrow> bool" where
  "can_reach_routes P [] dst cidr = False"
| "can_reach_routes P (route # rest) dst cidr =
     (if tr_is_blackhole route then can_reach_routes P rest dst cidr
      else if tr_attachment_id route = Some (att_id dst) then
        (if cidr_matches P (tr_destination_cidr route) cidr then True
         else can_reach_routes P rest dst cidr)
      else can_reach_routes P rest dst cidr)"

fun can_reach_cidrs :: "ip_parser \<Rightarrow> TGWRouteTable \<Rightarrow> TGWAttachment \<Rightarrow> string list \<Rightarrow> bool" where
  "can_reach_cidrs P rt dst [] = False"
| "can_reach_cidrs P rt dst (cidr # rest) =
     (if can_reach_routes P (trt_routes rt) dst cidr then True
      else can_reach_cidrs P rt dst rest)"

definition can_reach :: "ip_parser \<Rightarrow> NetworkData \<Rightarrow> TGWAttachment \<Rightarrow> TGWAttachment \<Rightarrow> bool" where
  "can_reach P d src dst =
     (if \<not> truthy (att_associated_route_table_id src) then False
      else (case dict_get (tgw_route_tables d) (the (att_associated_route_table_id src)) of
              None \<Rightarrow> False
            | Some rt \<Rightarrow> can_reach_cidrs P rt dst (att_cidrs dst)))"

text \<open>The arrow of the location string is U+2192, three bytes in UTF-8.\<close>

definition arrow :: string where
  "arrow = [CHR 0xE2, CHR 0x86, CHR 0x92]"

definition asymmetric_issue :: "TGWAttachment \<Rightarrow> TGWAttachment \<Rightarrow> issue" where
  "asymmetric_issue src dst =
     \<lparr>issue_type = ''asymmetric'', issue_severity = ''warning'',
      issue_location = att_name src @ '' '' @ arrow @ '' '' @ att_name dst,
      issue_message = ''Asymmetric routing: '' @ att_name src @ '' can reach '' @ att_name dst
                      @ '' but not vice versa''\<rparr>"

text \<open>
  \<open>_check_asymmetric_routing\<close>: three nested loops that append to \<open>issues\<close>, from the
  innermost (over \<open>dst\<close>) to the outermost (over the TGWs).
\<close>

fun asymmetric_dst_loop ::
  "ip_parser \<Rightarrow> NetworkData \<Rightarrow> TGWAttachment \<Rightarrow> TGWAttachment list \<Rightarrow> issue list \<Rightarrow> issue list" where
  "asymmetric_dst_loop P d src [] issues = issues"
| "asymmetric_dst_loop P d src (dst # rest) issues =
     (if att_id src = att_id dst then asymmetric_dst_loop P d src rest issues
      else
        (let can_reach' = can_reach P d src dst;
             can_return = can_reach P d dst src
         in if can_reach' \<and> \<not> can_return
            then asymmetric_dst_loop P d src rest (issues @ [asymmetric_issue src dst])
            else asymmetric_dst_loop P d src rest issues))"

fun asymmetric_src_loop ::
  "ip_parser \<Rightarrow> NetworkData \<Rightarrow> TGWAttachment list \<Rightarrow> TGWAttachment list \<Rightarrow> issue list \<Rightarrow> issue list" where
  "asymmetric_src_loop P d tgw_atts [] issues = issues"
| "asymmetric_src_loop P d tgw_atts (src # rest) issues =
     asymmetric_src_loop P d tgw_atts rest (asymmetric_dst_loop P d src tgw_atts issues)"

fun asymmetric_tgw_loop ::
  "ip_parser \<Rightarrow> NetworkData \<Rightarrow> TransitGateway list \<Rightarrow> issue list \<Rightarrow> issue list" where
  "asymmetric_tgw_loop P d [] issues = issues"
| "asymmetric_tgw_loop P d (tgw # rest) issues =
     (let tgw_atts = filter (\<lambda>a. att_tgw_id a = tgw_id tgw) (dict_values (tgw_attachments d))
      in asymmetric_tgw_loop P d rest (asymmetric_src_loop P d tgw_atts tgw_atts issues))"

definition check_asymmetric_routing :: "ip_parser \<Rightarrow> NetworkData \<Rightarrow> issue list" where
  "check_asymmetric_routing P d = asymmetric_tgw_loop P d (dict_values (tgws d)) []"

text \<open>
  \<open>_check_cidr_overlaps\<close>. The body of the \<open>try\<close> yields the new \<open>issues\<close> or an exception
  of the parser; \<open>except: pass\<close> keeps the old \<open>issues\<close>.
\<close>

definition overlap_issue :: "VPC \<Rightarrow> string \<Rightarrow> VPC \<Rightarrow> string \<Rightarrow> issue" where
  "overlap_issue vpc1 cidr1 vpc2 cidr2 =
     \<lparr>issue_type = ''overlap'', issue_severity = ''warning'',
      issue_location = vpc_name vpc1 @ '' / '' @ vpc_name vpc2,
      issue_message = ''CIDR overlap: '' @ vpc_name vpc1 @ '' ('' @ cidr1 @ '') overlaps with ''
                      @ vpc_name vpc2 @ '' ('' @ cidr2 @ '')''\<rparr>"

definition overlap_try ::
  "ip_parser \<Rightarrow> VPC \<Rightarrow> string \<Rightarrow> VPC \<Rightarrow> string \<Rightarrow> issue list \<Rightarrow> py_exception + issue list" where
  "overlap_try P vpc1 cidr1 vpc2 cidr2 issues =
     (case P cidr1 of Inl e \<Rightarrow> Inl e
      | Inr net1 \<Rightarrow>
     (case P cidr2 of Inl e \<Rightarrow> Inl e
      | Inr net2 \<Rightarrow>
        Inr (if overlaps net1 net2 then issues @ [overlap_issue vpc1 cidr1 vpc2 cidr2]
             else issues)))"

fun overlap_cidr2_loop ::
  "ip_parser \<Rightarrow> VPC \<Rightarrow> string \<Rightarrow> VPC \<Rightarrow> string list \<Rightarrow> issue list \<Rightarrow> issue list" where
  "overlap_cidr2_loop P vpc1 cidr1 vpc2 [] issues = issues"
| "overlap_cidr2_loop P vpc1 cidr1 vpc2 (cidr2 # rest) issues =
     overlap_cidr2_loop P vpc1 cidr1 vpc2 rest
       (case overlap_try P vpc1 cidr1 vpc2 cidr2 issues of
          Inr issues' \<Rightarrow> issues'
        | Inl e \<Rightarrow> issues)"

fun overlap_cidr1_loop ::
  "ip_parser \<Rightarrow> VPC \<Rightarrow> string list \<Rightarrow> VPC \<Rightarrow> issue list \<Rightarrow> issue list" where
  "overlap_cidr1_loop P vpc1 [] vpc2 issues = issues"
| "overlap_cidr1_loop P vpc1 (cidr1 # rest) vpc2 issues =
     overlap_cidr1_loop P vpc1 rest vpc2
       (overlap_cidr2_loop P vpc1 cidr1 vpc2 (vpc_cidrs vpc2) issues)"

fun overlap_vpc2_loop :: "ip_parser \<Rightarrow> VPC \<Rightarrow> VPC list \<Rightarrow> issue list \<Rightarrow> issue list" where
  "overlap_vpc2_loop P vpc1 [] issues = issues"
| "overlap_vpc2_loop P vpc1 (vpc2 # rest) issues =
     overlap_vpc2_loop P vpc1 rest (overlap_cidr1_loop P vpc1 (vpc_cidrs vpc1) vpc2 issues)"

text \<open>The outer loop runs over \<open>enumerate(vpcs)\<close> and slices \<open>vpcs[i+1:]\<close>.\<close>

fun overlap_vpc1_loop ::
  "ip_parser \<Rightarrow> VPC list \<Rightarrow> (nat \<times> VPC) list \<Rightarrow> issue list \<Rightarrow> issue list" where
  "overlap_vpc1_loop P vpcs' [] issues = issues"
| "overlap_vpc1_loop P vpcs' ((i, vpc1) # rest) issues =
     overlap_vpc1_loop P vpcs' rest (overlap_vpc2_loop P vpc1 (drop (i + 1) vpcs') issues)"

definition check_cidr_overlaps :: "ip_parser \<Rightarrow> NetworkData \<Rightarrow> issue list" where
  "check_cidr_overlaps P d =
     (let vpcs' = dict_values (vpcs d)
      in overlap_vpc1_loop P vpcs' (enumerate 0 vpcs') [])"

section \<open>The IPv4 side of \<open>ipaddress.ip_network\<close>\<close>

text \<open>
  Modelled from the Python standard library (module \<open>ipaddress\<close>), for the examples:
  \<open>IPv4Network(s, strict=False)\<close> on a string, that is an address of four decimal octets,
  alone or followed by \<open>/\<close> and a prefix length, a netmask or a hostmask; host bits are
  masked off. \<open>ipv4_parser\<close> stands for \<open>ip_network\<close> on inputs that are not IPv6 networks
  (it raises where the library would go on to try \<open>IPv6Network\<close>).
\<close>

fun split_on :: "char \<Rightarrow> string \<Rightarrow> string list" where
  "split_on c [] = [[]]"
| "split_on c (x # xs) =
     (if x = c then [] # split_on c xs
      else (case split_on c xs of
              w # ws \<Rightarrow> (x # w) # ws
            | [] \<Rightarrow> [[x]]))"

definition is_ascii_digit :: "char \<Rightarrow> bool" where
  "is_ascii_digit c = (c \<in> set ''0123456789'')"

definition int_of_digits :: "string \<Rightarrow> nat" where
  "int_of_digits s = foldl (\<lambda>a c. 10 * a + (of_char c - 48)) 0 s"

definition parse_octet :: "string \<Rightarrow> nat option" where
  "parse_octet octet_str =
     (if octet_str = [] then None
      else if \<not> list_all is_ascii_digit octet_str then None
      else if length octet_str > 3 then None
      else if octet_str \<noteq> ''0'' \<and> hd octet_str = CHR ''0'' then None
      else if int_of_digits octet_str > 255 then None
      else Some (int_of_digits octet_str))"

definition ip_int_from_string :: "string \<Rightarrow> nat option" where
  "ip_int_from_string ip_str =
     (if ip_str = [] then None
      else (case map parse_octet (split_on CHR ''.'' ip_str) of
              [Some a, Some b, Some c, Some d] \<Rightarrow> Some (((a * 256 + b) * 256 + c) * 256 + d)
            | _ \<Rightarrow> None))"

definition prefix_from_prefix_string :: "string \<Rightarrow> nat option" where
  "prefix_from_prefix_string prefixlen_str =
     (if prefixlen_str = [] \<or> \<not> list_all is_ascii_digit prefixlen_str then None
      else if int_of_digits prefixlen_str > 32 then None
      else Some (int_of_digits prefixlen_str))"

text \<open>
  \<open>_prefix_from_ip_int\<close> accepts a mask of \<open>p\<close> one bits followed by \<open>32 - p\<close> zero bits,
  and returns \<open>p\<close>.
\<close>

definition prefix_from_ip_int :: "nat \<Rightarrow> nat option" where
  "prefix_from_ip_int ip_int = find (\<lambda>p. ip_int = 2 ^ 32 - 2 ^ (32 - p)) [0 ..< 33]"

definition prefix_from_ip_string :: "string \<Rightarrow> nat option" where
  "prefix_from_ip_string ip_str =
     (case ip_int_from_string ip_str of
        None \<Rightarrow> None
      | Some ip_int \<Rightarrow>
          (case prefix_from_ip_int ip_int of
             Some p \<Rightarrow> Some p
           | None \<Rightarrow> prefix_from_ip_int (2 ^ 32 - 1 - ip_int)))"

definition make_netmask :: "string \<Rightarrow> nat option" where
  "make_netmask arg =
     (case prefix_from_prefix_string arg of
        Some p \<Rightarrow> Some p
      | None \<Rightarrow> prefix_from_ip_string arg)"

definition ipv4_network :: "string \<Rightarrow> ip_net option" where
  "ipv4_network address =
     (case split_on CHR ''/'' address of
        [addr] \<Rightarrow>
          (case ip_int_from_string addr of
             None \<Rightarrow> None
           | Some ip \<Rightarrow> Some \<lparr>net_version = 4, net_address = ip, net_scope_id = None, net_prefixlen = 32\<rparr>)
      | [addr, mask_str] \<Rightarrow>
          (case ip_int_from_string addr of
             None \<Rightarrow> None
           | Some ip \<Rightarrow>
               (case make_netmask mask_str of
                  None \<Rightarrow> None
                | Some p \<Rightarrow>
                    Some \<lparr>net_version = 4,
                          net_address = ip AND (2 ^ 32 - 2 ^ (32 - p)),
                          net_scope_id = None,
                          net_prefixlen = p\<rparr>))
      | _ \<Rightarrow> None)"

definition ipv4_parser :: ip_parser where
  "ipv4_parser s = (case ipv4_network s of Some n \<Rightarrow> Inr n | None \<Rightarrow> Inl ValueError)"

section \<open>Loader\<close>

text \<open>
  The loader reads JSON records whose keys may be missing. A key read with \<open>rec[k]\<close> has
  the type of its value here; a key read with \<open>rec.get(k)\<close> is an option. The contents of
  a file are the list the loader iterates over.
\<close>

record raw_tag =
  tag_Key :: "string option"
  tag_Value :: "string option"

fun get_name_loop :: "raw_tag list \<Rightarrow> string" where
  "get_name_loop [] = []"
| "get_name_loop (tag # rest) =
     (if tag_Key tag = Some ''Name'' then get_default (tag_Value tag) []
      else get_name_loop rest)"

definition get_name :: "raw_tag list option \<Rightarrow> string" where
  "get_name tags = get_name_loop (case tags of None \<Rightarrow> [] | Some ts \<Rightarrow> ts)"

definition NetworkData_init :: NetworkData where
  "NetworkData_init =
     \<lparr>tgws = [], tgw_route_tables = [], tgw_attachments = [], vpcs = [],
      vpc_route_tables = [], subnets = [], local_account_id = []\<rparr>"

text \<open>\<open>_load_metadata\<close>: the argument is \<open>data.get("aws_account_id")\<close>.\<close>

definition load_metadata :: "string option \<Rightarrow> NetworkData \<Rightarrow> NetworkData" where
  "load_metadata aws_account_id d = d\<lparr>local_account_id := get_default aws_account_id []\<rparr>"

subsection \<open>Transit gateways\<close>

record raw_tgw =
  rtg_TransitGatewayId :: string
  rtg_Tags :: "raw_tag list option"
  rtg_OwnerId :: "string option"
  rtg_AmazonSideAsn :: "int option"
  rtg_State :: "string option"

text \<open>\<open>_load_tgws\<close>; \<open>rtg_AmazonSideAsn\<close> is \<open>tgw.get("Options", {}).get("AmazonSideAsn")\<close>.\<close>

definition make_tgw :: "raw_tgw \<Rightarrow> TransitGateway" where
  "make_tgw tgw =
     \<lparr>tgw_id = rtg_TransitGatewayId tgw,
      tgw_name = (if get_name (rtg_Tags tgw) \<noteq> [] then get_name (rtg_Tags tgw)
                  else rtg_TransitGatewayId tgw),
      tgw_owner_id = get_default (rtg_OwnerId tgw) [],
      tgw_asn = (case rtg_AmazonSideAsn tgw of None \<Rightarrow> 0 | Some n \<Rightarrow> n),
      tgw_state = get_default (rtg_State tgw) []\<rparr>"

fun load_tgws :: "raw_tgw list \<Rightarrow> NetworkData \<Rightarrow> NetworkData" where
  "load_tgws [] d = d"
| "load_tgws (tgw # rest) d =
     load_tgws rest (d\<lparr>tgws := dict_set (tgws d) (rtg_TransitGatewayId tgw) (make_tgw tgw)\<rparr>)"

subsection \<open>TGW attachments\<close>

record raw_attachment =
  rat_TransitGatewayAttachmentId :: string
  rat_TransitGatewayId :: string
  rat_ResourceType :: "string option"
  rat_ResourceId :: "string option"
  rat_ResourceOwnerId :: "string option"
  rat_TransitGatewayOwnerId :: "string option"
  rat_Tags :: "raw_tag list option"
  rat_State :: "string option"

text \<open>\<open>AttachmentType(att_type_str)\<close>, with \<open>UNKNOWN\<close> for the \<open>ValueError\<close>.\<close>

definition attachment_type_of :: "string \<Rightarrow> AttachmentType" where
  "attachment_type_of s =
     (if s = ''vpc'' then VPC
      else if s = ''vpn'' then VPN
      else if s = ''direct-connect-gateway'' then DIRECT_CONNECT
      else if s = ''peering'' then PEERING
      else if s = ''tgw-peering'' then TGW_PEERING
      else if s = ''connect'' then CONNECT
      else UNKNOWN_ATTACHMENT)"

text \<open>The cross-account decision of \<open>_load_tgw_attachments\<close>.\<close>

definition is_cross_account :: "string \<Rightarrow> string \<Rightarrow> string \<Rightarrow> bool" where
  "is_cross_account local_account resource_owner tgw_owner =
     (if tgw_owner \<noteq> [] \<and> resource_owner \<noteq> [] then resource_owner \<noteq> tgw_owner
      else if local_account \<noteq> [] \<and> resource_owner \<noteq> [] then resource_owner \<noteq> local_account
      else False)"

definition make_attachment :: "string \<Rightarrow> raw_attachment \<Rightarrow> TGWAttachment" where
  "make_attachment local_account att =
     (let att_type' = attachment_type_of (get_default (rat_ResourceType att) ''unknown'');
          resource_owner = get_default (rat_ResourceOwnerId att) [];
          tgw_owner = get_default (rat_TransitGatewayOwnerId att) []
      in \<lparr>att_id = rat_TransitGatewayAttachmentId att,
          att_tgw_id = rat_TransitGatewayId att,
          att_type = att_type',
          att_resource_id = get_default (rat_ResourceId att) [],
          att_resource_owner_id = resource_owner,
          att_name = (if get_name (rat_Tags att) \<noteq> [] then get_name (rat_Tags att)
                      else get_default (rat_ResourceId att) []),
          att_state = get_default (rat_State att) [],
          att_cidrs = [],
          att_associated_route_table_id = None,
          att_propagating_to = [],
          att_is_cross_account = is_cross_account local_account resource_owner tgw_owner,
          att_tgw_owner_id = tgw_owner\<rparr>)"

fun load_tgw_attachments :: "raw_attachment list \<Rightarrow> NetworkData \<Rightarrow> NetworkData" where
  "load_tgw_attachments [] d = d"
| "load_tgw_attachments (att # rest) d =
     load_tgw_attachments rest
       (d\<lparr>tgw_attachments :=
            dict_set (tgw_attachments d) (rat_TransitGatewayAttachmentId att)
              (make_attachment (local_account_id d) att)\<rparr>)"

subsection \<open>TGW route tables and their details\<close>

record raw_tgw_route_table =
  rrt_TransitGatewayRouteTableId :: string
  rrt_TransitGatewayId :: string
  rrt_Tags :: "raw_tag list option"
  rrt_DefaultAssociationRouteTable :: "bool option"
  rrt_DefaultPropagationRouteTable :: "bool option"

definition make_tgw_route_table :: "raw_tgw_route_table \<Rightarrow> TGWRouteTable" where
  "make_tgw_route_table rt =
     \<lparr>trt_id = rrt_TransitGatewayRouteTableId rt,
      trt_tgw_id = rrt_TransitGatewayId rt,
      trt_name = (if get_name (rrt_Tags rt) \<noteq> [] then get_name (rrt_Tags rt)
                  else rrt_TransitGatewayRouteTableId rt),
      trt_is_default_association =
        (case rrt_DefaultAssociationRouteTable rt of None \<Rightarrow> False | Some b \<Rightarrow> b),
      trt_is_default_propagation =
        (case rrt_DefaultPropagationRouteTable rt of None \<Rightarrow> False | Some b \<Rightarrow> b),
      trt_routes = [], trt_associations = [], trt_propagations = []\<rparr>"

fun load_tgw_route_tables :: "raw_tgw_route_table list \<Rightarrow> NetworkData \<Rightarrow> NetworkData" where
  "load_tgw_route_tables [] d = d"
| "load_tgw_route_tables (rt # rest) d =
     load_tgw_route_tables rest
       (d\<lparr>tgw_route_tables :=
            dict_set (tgw_route_tables d) (rrt_TransitGatewayRouteTableId rt)
              (make_tgw_route_table rt)\<rparr>)"

record raw_association =
  ras_State :: "string option"
  ras_TransitGatewayAttachmentId :: "string option"

text \<open>
  The first loop of \<open>_load_tgw_route_details\<close>. A file \<open>associations-<rt_id>.json\<close> is the
  pair of \<open>rt_id\<close> and its \<open>Associations\<close> list; the files come in the order of the glob.
\<close>

fun load_association_records :: "string \<Rightarrow> raw_association list \<Rightarrow> NetworkData \<Rightarrow> NetworkData" where
  "load_association_records rt_id [] d = d"
| "load_association_records rt_id (assoc # rest) d =
     load_association_records rt_id rest
       (if ras_State assoc = Some ''associated'' \<and> truthy (ras_TransitGatewayAttachmentId assoc)
        then
          (let att_id' = the (ras_TransitGatewayAttachmentId assoc);
               d1 = d\<lparr>tgw_route_tables :=
                      dict_modify (tgw_route_tables d) rt_id
                        (\<lambda>rt. rt\<lparr>trt_associations := trt_associations rt @ [att_id']\<rparr>)\<rparr>
           in if dict_contains (tgw_attachments d1) att_id'
              then d1\<lparr>tgw_attachments :=
                        dict_modify (tgw_attachments d1) att_id'
                          (\<lambda>a. a\<lparr>att_associated_route_table_id := Some rt_id\<rparr>)\<rparr>
              else d1)
        else d)"

fun load_associations :: "(string \<times> raw_association list) list \<Rightarrow> NetworkData \<Rightarrow> NetworkData" where
  "load_associations [] d = d"
| "load_associations ((rt_id, records) # files) d =
     load_associations files
       (if \<not> dict_contains (tgw_route_tables d) rt_id then d
        else load_association_records rt_id records d)"

record raw_propagation =
  rpr_State :: "string option"
  rpr_TransitGatewayAttachmentId :: "string option"

fun load_propagation_records :: "string \<Rightarrow> raw_propagation list \<Rightarrow> NetworkData \<Rightarrow> NetworkData" where
  "load_propagation_records rt_id [] d = d"
| "load_propagation_records rt_id (prop # rest) d =
     load_propagation_records rt_id rest
       (if rpr_State prop = Some ''enabled'' \<and> truthy (rpr_TransitGatewayAttachmentId prop)
        then
          (let att_id' = the (rpr_TransitGatewayAttachmentId prop);
               d1 = d\<lparr>tgw_route_tables :=
                      dict_modify (tgw_route_tables d) rt_id
                        (\<lambda>rt. rt\<lparr>trt_propagations := trt_propagations rt @ [att_id']\<rparr>)\<rparr>
           in if dict_contains (tgw_attachments d1) att_id'
              then d1\<lparr>tgw_attachments :=
                        dict_modify (tgw_attachments d1) att_id'
                          (\<lambda>a. a\<lparr>att_propagating_to := att_propagating_to a @ [rt_id]\<rparr>)\<rparr>
              else d1)
        else d)"

fun load_propagations :: "(string \<times> raw_propagation list) list \<Rightarrow> NetworkData \<Rightarrow> NetworkData" where
  "load_propagations [] d = d"
| "load_propagations ((rt_id, records) # files) d =
     load_propagations files
       (if \<not> dict_contains (tgw_route_tables d) rt_id then d
        else load_propagation_records rt_id records d)"

record raw_route_attachment =
  rra_TransitGatewayAttachmentId :: "string option"
  rra_ResourceId :: "string option"
  rra_ResourceType :: "string option"

record raw_tgw_route =
  rtr_State :: "string option"
  rtr_Type :: "string option"
  rtr_TransitGatewayAttachments :: "raw_route_attachment list option"
  rtr_DestinationCidrBlock :: "string option"
  rtr_PrefixListId :: "string option"

text \<open>The loop over the attachments of a route breaks after its first element.\<close>

definition make_tgw_route :: "raw_tgw_route \<Rightarrow> TGWRoute" where
  "make_tgw_route route =
     (let state = (if rtr_State route = Some ''blackhole'' then BLACKHOLE else ACTIVE);
          route_type = (if rtr_Type route = Some ''propagated'' then PROPAGATED else STATIC);
          first = (case rtr_TransitGatewayAttachments route of
                     Some (att # rest) \<Rightarrow> Some att
                   | _ \<Rightarrow> None)
      in \<lparr>tr_destination_cidr = get_default (rtr_DestinationCidrBlock route) [],
          tr_prefix_list_id = rtr_PrefixListId route,
          tr_attachment_id = (case first of None \<Rightarrow> None
                              | Some att \<Rightarrow> rra_TransitGatewayAttachmentId att),
          tr_resource_id = (case first of None \<Rightarrow> None | Some att \<Rightarrow> rra_ResourceId att),
          tr_resource_type = (case first of None \<Rightarrow> None | Some att \<Rightarrow> rra_ResourceType att),
          tr_route_type = route_type,
          tr_state = state\<rparr>)"

fun load_route_records :: "string \<Rightarrow> raw_tgw_route list \<Rightarrow> NetworkData \<Rightarrow> NetworkData" where
  "load_route_records rt_id [] d = d"
| "load_route_records rt_id (route # rest) d =
     load_route_records rt_id rest
       (d\<lparr>tgw_route_tables :=
            dict_modify (tgw_route_tables d) rt_id
              (\<lambda>rt. rt\<lparr>trt_routes := trt_routes rt @ [make_tgw_route route]\<rparr>)\<rparr>)"

fun load_routes :: "(string \<times> raw_tgw_route list) list \<Rightarrow> NetworkData \<Rightarrow> NetworkData" where
  "load_routes [] d = d"
| "load_routes ((rt_id, records) # files) d =
     load_routes files
       (if \<not> dict_contains (tgw_route_tables d) rt_id then d
        else load_route_records rt_id records d)"

definition load_tgw_route_details ::
  "(string \<times> raw_association list) list \<Rightarrow> (string \<times> raw_propagation list) list \<Rightarrow>
   (string \<times> raw_tgw_route list) list \<Rightarrow> NetworkData \<Rightarrow> NetworkData" where
  "load_tgw_route_details association_files propagation_files route_files d =
     load_routes route_files (load_propagations propagation_files
       (load_associations association_files d))"

subsection \<open>Correlation\<close>

text \<open>
  \<open>_correlate_data\<close>: the loop over the attachments writes the attachment at hand and the
  VPC it names. The first component of the result is the attachments seen so far, updated.
\<close>

fun correlate_loop ::
  "(string \<times> TGWAttachment) list \<Rightarrow> (string, VPC) dict \<Rightarrow>
   (string \<times> TGWAttachment) list \<times> (string, VPC) dict" where
  "correlate_loop [] vs = ([], vs)"
| "correlate_loop ((k, att) # rest) vs =
     (if att_type att = VPC then
        (case dict_get vs (att_resource_id att) of
           Some vpc \<Rightarrow>
             (let att' = att\<lparr>att_cidrs := vpc_cidrs vpc, att_name := vpc_name vpc\<rparr>;
                  vs' = dict_modify vs (att_resource_id att)
                          (\<lambda>v. v\<lparr>vpc_tgw_attachment_id := Some (att_id att)\<rparr>);
                  (rest', vs'') = correlate_loop rest vs'
              in ((k, att') # rest', vs''))
         | None \<Rightarrow> (let (rest', vs'') = correlate_loop rest vs in ((k, att) # rest', vs'')))
      else (let (rest', vs'') = correlate_loop rest vs in ((k, att) # rest', vs'')))"

definition correlate_data :: "NetworkData \<Rightarrow> NetworkData" where
  "correlate_data d =
     (let (atts, vs) = correlate_loop (tgw_attachments d) (vpcs d)
      in d\<lparr>tgw_attachments := atts, vpcs := vs\<rparr>)"

text \<open>
  \<open>_extract_cross_account_cidrs\<close>. \<open>att_cidrs\<close> is a \<open>defaultdict(set)\<close>: a key is present
  once something was added under it.
\<close>

fun collect_routes :: "TGWRoute list \<Rightarrow> (string \<rightharpoonup> string set) \<Rightarrow> (string \<rightharpoonup> string set)" where
  "collect_routes [] m = m"
| "collect_routes (route # rest) m =
     collect_routes rest
       (if tr_route_type route = PROPAGATED \<and> truthy (tr_attachment_id route) then
          (if tr_destination_cidr route \<noteq> [] then
             m(the (tr_attachment_id route) \<mapsto>
                 insert (tr_destination_cidr route)
                   (case m (the (tr_attachment_id route)) of None \<Rightarrow> {} | Some cs \<Rightarrow> cs))
           else m)
        else m)"

fun collect_tables :: "TGWRouteTable list \<Rightarrow> (string \<rightharpoonup> string set) \<Rightarrow> (string \<rightharpoonup> string set)" where
  "collect_tables [] m = m"
| "collect_tables (rt # rest) m = collect_tables rest (collect_routes (trt_routes rt) m)"

text \<open>One iteration of the second loop: the VPC branch, then the VPN branch.\<close>

definition fill_cidrs :: "(string \<rightharpoonup> string set) \<Rightarrow> TGWAttachment \<Rightarrow> TGWAttachment" where
  "fill_cidrs m att =
     (let att1 = (if att_type att = VPC \<and> att_cidrs att = [] then
                    (case m (att_id att) of
                       Some cs \<Rightarrow> att\<lparr>att_cidrs := sorted_list_of_set cs\<rparr>
                     | None \<Rightarrow> att)
                  else att)
      in if att_type att1 = VPN \<and> att_cidrs att1 = [] then
           (case m (att_id att1) of
              Some cs \<Rightarrow> att1\<lparr>att_cidrs := sorted_list_of_set cs\<rparr>
            | None \<Rightarrow> att1)
         else att1)"

definition extract_cross_account_cidrs :: "NetworkData \<Rightarrow> NetworkData" where
  "extract_cross_account_cidrs d =
     (let att_cidrs' = collect_tables (dict_values (tgw_route_tables d)) Map.empty
      in d\<lparr>tgw_attachments := map (\<lambda>(k, att). (k, fill_cidrs att_cidrs' att)) (tgw_attachments d)\<rparr>)"

section \<open>The load pipeline\<close>

text \<open>
  \<open>AWSDataLoader.load\<close> runs the loaders in a fixed order. \<open>load_tgw_data\<close> is its TGW part:
  metadata, transit gateways, attachments, route tables and their details. The loaders
  that run next fill the VPC side of the catalog and leave the TGW collections alone;
  \<open>finish_load\<close> takes the VPC-side collections they produce as given and runs the last
  three steps: correlation, cross-account CIDR recovery and subnet classification.
\<close>

definition load_tgw_data ::
  "string option \<Rightarrow> raw_tgw list \<Rightarrow> raw_attachment list \<Rightarrow> raw_tgw_route_table list \<Rightarrow>
   (string \<times> raw_association list) list \<Rightarrow> (string \<times> raw_propagation list) list \<Rightarrow>
   (string \<times> raw_tgw_route list) list \<Rightarrow> NetworkData" where
  "load_tgw_data aws_account_id gws atts rts association_files propagation_files route_files =
     load_tgw_route_details association_files propagation_files route_files
       (load_tgw_route_tables rts
         (load_tgw_attachments atts
           (load_tgws gws
             (load_metadata aws_account_id NetworkData_init))))"

definition finish_load ::
  "(string, VPC) dict \<Rightarrow> (string, VPCRouteTable) dict \<Rightarrow> (string, Subnet) dict \<Rightarrow>
   NetworkData \<Rightarrow> NetworkData" where
  "finish_load vs vrts sns d =
     classify_subnets (extract_cross_account_cidrs (correlate_data
       (d\<lparr>vpcs := vs, vpc_route_tables := vrts, subnets := sns\<rparr>)))"

section \<open>The claims in the specification's words\<close>

text \<open>
  The definitions of this section are written from the specification, to be compared with
  the functions above.
\<close>

text \<open>
  The gateway-id rule of route target resolution applies to a record whose gateway id is
  exactly \<open>local\<close> or starts with one of the four known prefixes.
\<close>

definition spec_gateway_rule_applies :: "raw_vpc_route \<Rightarrow> bool" where
  "spec_gateway_rule_applies route =
     (case rvr_GatewayId route of
        None \<Rightarrow> False
      | Some gw \<Rightarrow> gw = ''local'' \<or> startswith gw ''igw-'' \<or> startswith gw ''vgw-''
                   \<or> startswith gw ''eigw-'' \<or> startswith gw ''vpce-'')"

text \<open>
  Subnet classification: the default routes, the class that a target type yields, and the
  effective route table of a subnet (its explicit table, else the main table of its VPC,
  when the catalog has it).
\<close>

definition spec_is_default_route :: "VPCRoute \<Rightarrow> bool" where
  "spec_is_default_route r = (vr_destination r = ''0.0.0.0/0'' \<or> vr_destination r = ''::/0'')"

definition spec_class_of_target :: "RouteTargetType \<Rightarrow> SubnetType" where
  "spec_class_of_target t =
     (if t = IGW then PUBLIC else if t = NAT then PRIVATE
      else if t = TGW then TGW_ATTACHED else ISOLATED)"

definition spec_decisive_route :: "VPCRoute \<Rightarrow> bool" where
  "spec_decisive_route r =
     (spec_is_default_route r \<and> (vr_target_type r = IGW \<or> vr_target_type r = NAT \<or> vr_target_type r = TGW))"

definition spec_effective_table :: "NetworkData \<Rightarrow> Subnet \<Rightarrow> VPCRouteTable option" where
  "spec_effective_table d subnet =
     (let rt_id = (if truthy (sn_route_table_id subnet) then sn_route_table_id subnet
                   else (case dict_get (vpcs d) (sn_vpc_id subnet) of
                           Some vpc \<Rightarrow> vpc_main_route_table_id vpc
                         | None \<Rightarrow> None))
      in if truthy rt_id then dict_get (vpc_route_tables d) (the rt_id) else None)"

text \<open>A catalog with the state of every VPC route forgotten.\<close>

definition strip_route_states :: "NetworkData \<Rightarrow> NetworkData" where
  "strip_route_states d =
     d\<lparr>vpc_route_tables :=
         map (\<lambda>(k, rt). (k, rt\<lparr>vrt_routes := map (\<lambda>r. r\<lparr>vr_state := ACTIVE\<rparr>) (vrt_routes rt)\<rparr>))
           (vpc_route_tables d)\<rparr>"

text \<open>
  The effective owner of an attachment: the TGW owner when it is known, else the local
  account.
\<close>

definition spec_effective_owner :: "NetworkData \<Rightarrow> TGWAttachment \<Rightarrow> string" where
  "spec_effective_owner d a =
     (if att_tgw_owner_id a \<noteq> [] then att_tgw_owner_id a else local_account_id d)"

text \<open>
  The addresses of a network, each with its version: those from the network address to the
  broadcast address. A network is a subnet of (or equal to) another when its addresses are
  among the other's and, for two IPv6 networks that begin at the same address, the two are
  of the same scope (a network written without a scope id has none).
\<close>

definition net_addresses :: "ip_net \<Rightarrow> (nat \<times> nat) set" where
  "net_addresses n = {(net_version n, a) | a. net_address n \<le> a \<and> a \<le> broadcast_address n}"

definition spec_subnet_or_equal :: "ip_net \<Rightarrow> ip_net \<Rightarrow> bool" where
  "spec_subnet_or_equal a b =
     (net_addresses a \<subseteq> net_addresses b
      \<and> (net_version a = 6 \<and> net_address a = net_address b \<longrightarrow> net_scope_id a = net_scope_id b))"

text \<open>
  The CIDR match: the destination \<open>0.0.0.0/0\<close> matches every target; two strings that both
  parse match when the target network is a subnet of (or equal to) the destination
  network; otherwise the strings match when they are equal.
\<close>

definition spec_cidr_matches :: "ip_parser \<Rightarrow> string \<Rightarrow> string \<Rightarrow> bool" where
  "spec_cidr_matches P route_cidr target_cidr =
     (if route_cidr = ''0.0.0.0/0'' then True
      else (case (P route_cidr, P target_cidr) of
              (Inr route_net, Inr target_net) \<Rightarrow> spec_subnet_or_equal target_net route_net
            | _ \<Rightarrow> route_cidr = target_cidr))"

text \<open>
  Reachability as the specification words it: \<open>a\<close> reaches \<open>b\<close> when \<open>a\<close> has an associated
  route table, the catalog has that table, and the table has a route whose state is not
  blackhole, that is attributed to \<open>b\<close>, and whose destination CIDR matches one of \<open>b\<close>'s
  CIDRs.
\<close>

definition spec_can_reach :: "ip_parser \<Rightarrow> NetworkData \<Rightarrow> TGWAttachment \<Rightarrow> TGWAttachment \<Rightarrow> bool" where
  "spec_can_reach P d a b =
     (case att_associated_route_table_id a of
        None \<Rightarrow> False
      | Some rt_id \<Rightarrow>
          rt_id \<noteq> [] \<and>
          (case dict_get (tgw_route_tables d) rt_id of
             None \<Rightarrow> False
           | Some rt \<Rightarrow>
               (\<exists>route \<in> set (trt_routes rt).
                  tr_state route \<noteq> BLACKHOLE \<and> tr_attachment_id route = Some (att_id b) \<and>
                  (\<exists>cidr \<in> set (att_cidrs b).
                     spec_cidr_matches P (tr_destination_cidr route) cidr))))"

text \<open>
  Two CIDR strings name overlapping networks when both parse and the parsed networks
  overlap; a string that does not parse overlaps nothing.
\<close>

definition spec_cidrs_overlap :: "ip_parser \<Rightarrow> string \<Rightarrow> string \<Rightarrow> bool" where
  "spec_cidrs_overlap P cidr1 cidr2 =
     (case (P cidr1, P cidr2) of
        (Inr net1, Inr net2) \<Rightarrow> overlaps net1 net2
      | _ \<Rightarrow> False)"

text \<open>
  A network as the library constructs it: the prefix length is within the address width,
  the network address fits the width, and its host bits are zero.
\<close>

definition wf_net :: "ip_net \<Rightarrow> bool" where
  "wf_net n = (net_prefixlen n \<le> max_prefixlen (net_version n)
     \<and> net_address n < 2 ^ max_prefixlen (net_version n)
     \<and> net_address n AND hostmask n = 0)"

text \<open>
  The overlapping pairs of a list of VPCs: for every two positions \<open>i < j\<close> of the list,
  for every CIDR of the VPC at \<open>i\<close> and every CIDR of the VPC at \<open>j\<close> that overlap, the
  pair of the two VPCs, each with its CIDR.
\<close>

definition spec_overlapping_pairs ::
  "ip_parser \<Rightarrow> VPC list \<Rightarrow> ((VPC \<times> string) \<times> (VPC \<times> string)) list" where
  "spec_overlapping_pairs P vs =
     [((vs ! i, cidr1), (vs ! j, cidr2)).
        i \<leftarrow> [0 ..< length vs], j \<leftarrow> [i + 1 ..< length vs],
        cidr1 \<leftarrow> vpc_cidrs (vs ! i), cidr2 \<leftarrow> vpc_cidrs (vs ! j),
        spec_cidrs_overlap P cidr1 cidr2]"

text \<open>
  The candidate CIDRs of an attachment id: the destination CIDRs of the propagated routes,
  over all TGW route tables, that carry a destination CIDR and that attachment id.
\<close>

definition spec_candidates :: "NetworkData \<Rightarrow> string \<Rightarrow> string list" where
  "spec_candidates d a =
     [tr_destination_cidr route.
        rt \<leftarrow> dict_values (tgw_route_tables d), route \<leftarrow> trt_routes rt,
        tr_route_type route = PROPAGATED, tr_attachment_id route = Some a, a \<noteq> [],
        tr_destination_cidr route \<noteq> []]"

section \<open>Auxiliary notions of the proofs\<close>

text \<open>
  The overlapping pairs across two VPCs, the same pairs with the order of their two sides
  forgotten, and the sum of a function over the pairs of a list that take their first
  component before their second.
\<close>

definition cross_pairs ::
  "ip_parser \<Rightarrow> VPC \<Rightarrow> VPC \<Rightarrow> ((VPC \<times> string) \<times> (VPC \<times> string)) list" where
  "cross_pairs P vpc1 vpc2 =
     [((vpc1, cidr1), (vpc2, cidr2)).
        cidr1 \<leftarrow> vpc_cidrs vpc1, cidr2 \<leftarrow> vpc_cidrs vpc2, spec_cidrs_overlap P cidr1 cidr2]"

definition cross_mset :: "ip_parser \<Rightarrow> VPC \<Rightarrow> VPC \<Rightarrow> (VPC \<times> string) set multiset" where
  "cross_mset P vpc1 vpc2 = image_mset (\<lambda>(x, y). {x, y}) (mset (cross_pairs P vpc1 vpc2))"

fun pairs_sum :: "('a \<Rightarrow> 'a \<Rightarrow> 'b::comm_monoid_add) \<Rightarrow> 'a list \<Rightarrow> 'b" where
  "pairs_sum f [] = 0"
| "pairs_sum f (x # xs) = sum_list (map (f x) xs) + pairs_sum f xs"

text \<open>The candidates that one list of routes contributes, and the set stored under a key.\<close>

definition route_candidates :: "TGWRoute list \<Rightarrow> string \<Rightarrow> string list" where
  "route_candidates rs a =
     [tr_destination_cidr route. route \<leftarrow> rs,
        tr_route_type route = PROPAGATED, tr_attachment_id route = Some a, a \<noteq> [],
        tr_destination_cidr route \<noteq> []]"

definition cidr_set_of :: "(string \<rightharpoonup> string set) \<Rightarrow> string \<Rightarrow> string set" where
  "cidr_set_of m a = (case m a of None \<Rightarrow> {} | Some cs \<Rightarrow> cs)"

text \<open>
  The association side of a catalog: for the table stored under a key, its id and its
  associations; for the attachment stored under a key, its id and its associated route
  table id.
\<close>

definition table_view :: "NetworkData \<Rightarrow> string \<Rightarrow> (string \<times> string list) option" where
  "table_view d t =
     map_option (\<lambda>rt. (trt_id rt, trt_associations rt)) (dict_get (tgw_route_tables d) t)"

definition att_view :: "NetworkData \<Rightarrow> string \<Rightarrow> (string \<times> string option) option" where
  "att_view d a =
     map_option (\<lambda>x. (att_id x, att_associated_route_table_id x)) (dict_get (tgw_attachments d) a)"

definition table_assocs :: "NetworkData \<Rightarrow> string \<Rightarrow> string list option" where
  "table_assocs d t = map_option snd (table_view d t)"

definition att_assoc :: "NetworkData \<Rightarrow> string \<Rightarrow> string option option" where
  "att_assoc d a = map_option snd (att_view d a)"

text \<open>
  Three invariants of the loader: an attachment that names a table is among the
  associations of that table; an attachment of the catalog that is among the associations
  of some table names a table; tables and attachments are stored under their ids.
\<close>

definition assoc_forward :: "NetworkData \<Rightarrow> bool" where
  "assoc_forward d =
     (\<forall>a t. att_assoc d a = Some (Some t) \<longrightarrow>
        (\<exists>as. table_assocs d t = Some as \<and> a \<in> set as))"

definition assoc_backward :: "NetworkData \<Rightarrow> bool" where
  "assoc_backward d =
     (\<forall>t as a. table_assocs d t = Some as \<and> a \<in> set as \<and> att_assoc d a \<noteq> None \<longrightarrow>
        att_assoc d a \<noteq> Some None)"

definition keyed_by_id :: "NetworkData \<Rightarrow> bool" where
  "keyed_by_id d =
     ((\<forall>t i as. table_view d t = Some (i, as) \<longrightarrow> i = t)
      \<and> (\<forall>a i r. att_view d a = Some (i, r) \<longrightarrow> i = a))"

text \<open>One accepted association record: the two writes of the first loop of \<open>_load_tgw_route_details\<close>.\<close>

definition assoc_step :: "string \<Rightarrow> string \<Rightarrow> NetworkData \<Rightarrow> NetworkData" where
  "assoc_step rt_id a d =
     (let d1 = d\<lparr>tgw_route_tables :=
                  dict_modify (tgw_route_tables d) rt_id
                    (\<lambda>rt. rt\<lparr>trt_associations := trt_associations rt @ [a]\<rparr>)\<rparr>
      in if dict_contains (tgw_attachments d1) a
         then d1\<lparr>tgw_attachments :=
                   dict_modify (tgw_attachments d1) a
                     (\<lambda>x. x\<lparr>att_associated_route_table_id := Some rt_id\<rparr>)\<rparr>
         else d1)"

text \<open>
  A projection of an attachment is stable under the later steps of the load when it does
  not read the four fields that those steps write.
\<close>

definition loader_stable :: "(TGWAttachment \<Rightarrow> 'b) \<Rightarrow> bool" where
  "loader_stable h =
     (\<forall>x. (\<forall>v. h (x\<lparr>att_associated_route_table_id := v\<rparr>) = h x)
        \<and> (\<forall>v. h (x\<lparr>att_propagating_to := v\<rparr>) = h x)
        \<and> (\<forall>v. h (x\<lparr>att_cidrs := v\<rparr>) = h x)
        \<and> (\<forall>v. h (x\<lparr>att_name := v\<rparr>) = h x))"

definition owner_view :: "TGWAttachment \<Rightarrow> bool \<times> string \<times> string" where
  "owner_view x = (att_is_cross_account x, att_resource_owner_id x, att_tgw_owner_id x)"

section \<open>Example catalogs\<close>

text \<open>Constructors for the records of the examples, and the examples.\<close>

definition mk_vpc_route :: "string \<Rightarrow> RouteTargetType \<Rightarrow> string \<Rightarrow> RouteState \<Rightarrow> VPCRoute" where
  "mk_vpc_route dest ty target st =
     \<lparr>vr_destination = dest, vr_target_type = ty, vr_target_id = target, vr_state = st\<rparr>"

definition mk_vpc_route_table :: "string \<Rightarrow> string \<Rightarrow> bool \<Rightarrow> VPCRoute list \<Rightarrow> VPCRouteTable" where
  "mk_vpc_route_table i v main rs =
     \<lparr>vrt_id = i, vrt_vpc_id = v, vrt_name = i, vrt_is_main = main, vrt_routes = rs,
      vrt_subnet_ids = []\<rparr>"

definition mk_subnet :: "string \<Rightarrow> string \<Rightarrow> string \<Rightarrow> string option \<Rightarrow> Subnet" where
  "mk_subnet i v c rt =
     \<lparr>sn_id = i, sn_vpc_id = v, sn_cidr = c, sn_az = ''eu-west-1a'', sn_name = i,
      sn_route_table_id = rt, sn_subnet_type = ISOLATED\<rparr>"

definition mk_vpc :: "string \<Rightarrow> string \<Rightarrow> string list \<Rightarrow> string option \<Rightarrow> VPC" where
  "mk_vpc i n cs main_rt =
     \<lparr>vpc_id = i, vpc_name = n, vpc_cidrs = cs, vpc_owner_id = ''111111111111'',
      vpc_is_default = False, vpc_igw_id = None, vpc_nat_gateway_ids = [],
      vpc_tgw_attachment_id = None, vpc_main_route_table_id = main_rt\<rparr>"

text \<open>
  One VPC with two route tables: \<open>rtb-nat\<close> with a default route to a NAT gateway and a
  local route, and the empty main table. \<open>subnet-a\<close> names \<open>rtb-nat\<close>; \<open>subnet-b\<close> names no
  table and falls to the main one.
\<close>

definition ex_nat_catalog :: NetworkData where
  "ex_nat_catalog =
     NetworkData_init
       \<lparr>vpcs := [(''vpc-1'', mk_vpc ''vpc-1'' ''app'' [''10.0.0.0/16''] (Some ''rtb-main''))],
        vpc_route_tables :=
          [(''rtb-nat'', mk_vpc_route_table ''rtb-nat'' ''vpc-1'' False
              [mk_vpc_route ''0.0.0.0/0'' NAT ''nat-1'' ACTIVE,
               mk_vpc_route ''10.0.0.0/8'' LOCAL ''local'' ACTIVE]),
           (''rtb-main'', mk_vpc_route_table ''rtb-main'' ''vpc-1'' True [])],
        subnets :=
          [(''subnet-a'', mk_subnet ''subnet-a'' ''vpc-1'' ''10.0.1.0/24'' (Some ''rtb-nat'')),
           (''subnet-b'', mk_subnet ''subnet-b'' ''vpc-1'' ''10.0.2.0/24'' None)]\<rparr>"

text \<open>A table with two default routes: the first to a virtual private gateway, the second to an IGW.\<close>

definition ex_two_defaults_table :: VPCRouteTable where
  "ex_two_defaults_table =
     mk_vpc_route_table ''rtb-2'' ''vpc-1'' False
       [mk_vpc_route ''0.0.0.0/0'' VGW ''vgw-1'' ACTIVE,
        mk_vpc_route ''0.0.0.0/0'' IGW ''igw-1'' ACTIVE]"

definition ex_two_defaults_catalog :: NetworkData where
  "ex_two_defaults_catalog =
     NetworkData_init
       \<lparr>vpcs := [(''vpc-1'', mk_vpc ''vpc-1'' ''app'' [''10.0.0.0/16''] None)],
        vpc_route_tables := [(''rtb-2'', ex_two_defaults_table)],
        subnets := [(''subnet-c'', mk_subnet ''subnet-c'' ''vpc-1'' ''10.0.3.0/24'' (Some ''rtb-2''))]\<rparr>"

text \<open>Two catalogs that differ in the state of one route: a default route to an IGW.\<close>

definition ex_igw_catalog :: "RouteState \<Rightarrow> NetworkData" where
  "ex_igw_catalog st =
     NetworkData_init
       \<lparr>vpcs := [(''vpc-1'', mk_vpc ''vpc-1'' ''app'' [''10.0.0.0/16''] None)],
        vpc_route_tables :=
          [(''rtb-3'', mk_vpc_route_table ''rtb-3'' ''vpc-1'' False
              [mk_vpc_route ''0.0.0.0/0'' IGW ''igw-1'' st])],
        subnets := [(''subnet-d'', mk_subnet ''subnet-d'' ''vpc-1'' ''10.0.4.0/24'' (Some ''rtb-3''))]\<rparr>"

text \<open>
  Raw attachment records, and the catalog after a load in account \<open>111111111111\<close> of two
  attachments on its own TGW: one of a VPC of account \<open>222222222222\<close>, one whose record
  has no resource owner.
\<close>

definition mk_raw_attachment ::
  "string \<Rightarrow> string \<Rightarrow> string \<Rightarrow> string option \<Rightarrow> string option \<Rightarrow> raw_attachment" where
  "mk_raw_attachment i ty res res_owner tgw_owner =
     \<lparr>rat_TransitGatewayAttachmentId = i, rat_TransitGatewayId = ''tgw-1'',
      rat_ResourceType = Some ty, rat_ResourceId = Some res,
      rat_ResourceOwnerId = res_owner, rat_TransitGatewayOwnerId = tgw_owner,
      rat_Tags = None, rat_State = Some ''available''\<rparr>"

definition ex_owner_catalog :: NetworkData where
  "ex_owner_catalog =
     finish_load [] [] []
       (load_tgw_data (Some ''111111111111'') []
          [mk_raw_attachment ''tgw-attach-1'' ''vpc'' ''vpc-1'' (Some ''222222222222'')
             (Some ''111111111111''),
           mk_raw_attachment ''tgw-attach-2'' ''vpc'' ''vpc-2'' None (Some ''111111111111'')]
          [] [] [] [])"

text \<open>A raw default route with the given gateway id and NAT gateway id.\<close>

definition ex_raw_route :: "string option \<Rightarrow> string option \<Rightarrow> raw_vpc_route" where
  "ex_raw_route gw ngw =
     \<lparr>rvr_GatewayId = gw, rvr_NatGatewayId = ngw, rvr_TransitGatewayId = None,
      rvr_VpcPeeringConnectionId = None, rvr_NetworkInterfaceId = None,
      rvr_DestinationCidrBlock = Some ''0.0.0.0/0'', rvr_DestinationPrefixListId = None,
      rvr_State = Some ''active''\<rparr>"

definition mk_tgw_route :: "string \<Rightarrow> string option \<Rightarrow> RouteType \<Rightarrow> RouteState \<Rightarrow> TGWRoute" where
  "mk_tgw_route dest att ty st =
     \<lparr>tr_destination_cidr = dest, tr_prefix_list_id = None, tr_attachment_id = att,
      tr_resource_id = None, tr_resource_type = None, tr_route_type = ty, tr_state = st\<rparr>"

definition mk_tgw_route_table :: "string \<Rightarrow> TGWRoute list \<Rightarrow> string list \<Rightarrow> TGWRouteTable" where
  "mk_tgw_route_table i rs assocs =
     \<lparr>trt_id = i, trt_tgw_id = ''tgw-1'', trt_name = i, trt_is_default_association = False,
      trt_is_default_propagation = False, trt_routes = rs, trt_associations = assocs,
      trt_propagations = []\<rparr>"

definition mk_attachment ::
  "string \<Rightarrow> AttachmentType \<Rightarrow> string \<Rightarrow> string list \<Rightarrow> string option \<Rightarrow> TGWAttachment" where
  "mk_attachment i ty res cs rt =
     \<lparr>att_id = i, att_tgw_id = ''tgw-1'', att_type = ty, att_resource_id = res,
      att_resource_owner_id = ''111111111111'', att_name = res, att_state = ''available'',
      att_cidrs = cs, att_associated_route_table_id = rt, att_propagating_to = [],
      att_is_cross_account = False, att_tgw_owner_id = ''111111111111''\<rparr>"

definition ex_tgw :: TransitGateway where
  "ex_tgw = \<lparr>tgw_id = ''tgw-1'', tgw_name = ''hub'', tgw_owner_id = ''111111111111'',
             tgw_asn = 64512, tgw_state = ''available''\<rparr>"

text \<open>
  The one-directional scenario: attachments \<open>att-a\<close> and \<open>att-b\<close> on one TGW; the table of
  \<open>att-a\<close> has an active route to the CIDR of \<open>att-b\<close>, attributed to \<open>att-b\<close>; the table
  of \<open>att-b\<close> has no route.
\<close>

definition ex_att_a :: TGWAttachment where
  "ex_att_a = mk_attachment ''att-a'' VPC ''vpc-a'' [''10.1.0.0/16''] (Some ''rtb-a'')"

definition ex_att_b :: TGWAttachment where
  "ex_att_b = mk_attachment ''att-b'' VPC ''vpc-b'' [''10.2.0.0/16''] (Some ''rtb-b'')"

definition ex_one_way_catalog :: NetworkData where
  "ex_one_way_catalog =
     NetworkData_init
       \<lparr>tgws := [(''tgw-1'', ex_tgw)],
        tgw_route_tables :=
          [(''rtb-a'', mk_tgw_route_table ''rtb-a''
              [mk_tgw_route ''10.2.0.0/16'' (Some ''att-b'') STATIC ACTIVE] [''att-a'']),
           (''rtb-b'', mk_tgw_route_table ''rtb-b'' [] [''att-b''])],
        tgw_attachments := [(''att-a'', ex_att_a), (''att-b'', ex_att_b)]\<rparr>"

text \<open>
  A second one-directional scenario, with a third attachment \<open>att-c\<close>. The table of \<open>att-a\<close>
  has a blackhole route to the CIDR of \<open>att-b\<close> and an active route to \<open>10.0.0.0/8\<close>, which
  contains that CIDR, both attributed to \<open>att-b\<close>. The table of \<open>att-b\<close> has three
  routes, none of which reaches \<open>att-a\<close>: a blackhole route to the CIDR of \<open>att-a\<close>, an
  active route attributed to \<open>att-a\<close> for another network, and an active route to the CIDR
  of \<open>att-a\<close> attributed to \<open>att-c\<close>. \<open>att-c\<close> has no associated route table and no
  CIDR.
\<close>

definition ex_att_c :: TGWAttachment where
  "ex_att_c = mk_attachment ''att-c'' VPN ''vpn-c'' [] None"

definition ex_blackhole_catalog :: NetworkData where
  "ex_blackhole_catalog =
     NetworkData_init
       \<lparr>tgws := [(''tgw-1'', ex_tgw)],
        tgw_route_tables :=
          [(''rtb-a'', mk_tgw_route_table ''rtb-a''
              [mk_tgw_route ''10.2.0.0/16'' (Some ''att-b'') STATIC BLACKHOLE,
               mk_tgw_route ''10.0.0.0/8'' (Some ''att-b'') STATIC ACTIVE] [''att-a'']),
           (''rtb-b'', mk_tgw_route_table ''rtb-b''
              [mk_tgw_route ''10.1.0.0/16'' (Some ''att-a'') STATIC BLACKHOLE,
               mk_tgw_route ''10.2.0.0/16'' (Some ''att-a'') STATIC ACTIVE,
               mk_tgw_route ''10.1.0.0/16'' (Some ''att-c'') STATIC ACTIVE] [''att-b''])],
        tgw_attachments :=
          [(''att-a'', ex_att_a), (''att-b'', ex_att_b), (''att-c'', ex_att_c)]\<rparr>"

text \<open>
  Two IPv6 networks written with scope ids, as the library parses them: \<open>fe80::%a/64\<close> and
  \<open>fe80::%b/64\<close> are both the network \<open>fe80::/64\<close>, of scope \<open>a\<close> and of scope \<open>b\<close>. Every
  other string is left to the IPv4 side.
\<close>

definition ex_scoped_parser :: ip_parser where
  "ex_scoped_parser s =
     (if s = ''fe80::%a/64''
      then Inr \<lparr>net_version = 6, net_address = 0xFE80 * 2 ^ 112, net_scope_id = Some ''a'',
                net_prefixlen = 64\<rparr>
      else if s = ''fe80::%b/64''
      then Inr \<lparr>net_version = 6, net_address = 0xFE80 * 2 ^ 112, net_scope_id = Some ''b'',
                net_prefixlen = 64\<rparr>
      else ipv4_parser s)"

text \<open>
  Two VPCs with overlapping CIDRs, \<open>10.0.0.0/16\<close> and \<open>10.0.5.0/24\<close>, the second with a
  further CIDR that is not a network; the catalog holds them in the given order.
\<close>

definition ex_vpc_1 :: VPC where
  "ex_vpc_1 = mk_vpc ''vpc-1'' ''one'' [''10.0.0.0/16''] None"

definition ex_vpc_2 :: VPC where
  "ex_vpc_2 = mk_vpc ''vpc-2'' ''two'' [''10.0.5.0/24'', ''not-a-cidr''] None"

definition ex_overlap_catalog :: "(string \<times> VPC) list \<Rightarrow> NetworkData" where
  "ex_overlap_catalog vs = NetworkData_init\<lparr>vpcs := vs\<rparr>"

text \<open>
  A catalog before correlation. \<open>att-a\<close> attaches the local VPC \<open>vpc-a\<close>; \<open>att-b\<close> attaches
  a VPC of another account, \<open>att-c\<close> a VPN and \<open>att-d\<close> a peering. The route tables hold
  propagated routes for all four, a static route and a prefix-list route for \<open>att-b\<close>, and
  one CIDR of \<open>att-b\<close> twice.
\<close>

definition ex_recovery_tables :: "(string, TGWRouteTable) dict" where
  "ex_recovery_tables =
     [(''rtb-1'', mk_tgw_route_table ''rtb-1''
         [mk_tgw_route ''10.99.0.0/16'' (Some ''att-a'') PROPAGATED ACTIVE,
          mk_tgw_route ''10.2.0.0/16'' (Some ''att-b'') PROPAGATED ACTIVE,
          mk_tgw_route ''10.1.0.0/16'' (Some ''att-b'') PROPAGATED ACTIVE,
          mk_tgw_route ''10.50.0.0/16'' (Some ''att-b'') STATIC ACTIVE,
          (mk_tgw_route [] (Some ''att-b'') PROPAGATED ACTIVE)
            \<lparr>tr_prefix_list_id := Some ''pl-63a5400a''\<rparr>,
          mk_tgw_route ''192.168.0.0/24'' (Some ''att-c'') PROPAGATED ACTIVE,
          mk_tgw_route ''10.4.0.0/16'' (Some ''att-d'') PROPAGATED ACTIVE] []),
      (''rtb-2'', mk_tgw_route_table ''rtb-2''
         [mk_tgw_route ''10.2.0.0/16'' (Some ''att-b'') PROPAGATED ACTIVE] [])]"

definition ex_recovery_catalog :: NetworkData where
  "ex_recovery_catalog =
     NetworkData_init
       \<lparr>tgw_route_tables := ex_recovery_tables,
        tgw_attachments :=
          [(''att-a'', mk_attachment ''att-a'' VPC ''vpc-a'' [] None),
           (''att-b'', mk_attachment ''att-b'' VPC ''vpc-b'' [] None),
           (''att-c'', mk_attachment ''att-c'' VPN ''vpn-c'' [] None),
           (''att-d'', mk_attachment ''att-d'' PEERING ''tgw-attach-peer'' [] None)],
        vpcs := [(''vpc-a'', mk_vpc ''vpc-a'' ''local-app'' [''10.0.0.0/16''] None)]\<rparr>"

text \<open>
  Raw input with one attachment, \<open>att-1\<close>, two route tables, and association files that
  associate \<open>att-1\<close> with both tables and name an attachment \<open>att-9\<close> that was not loaded.
\<close>

definition mk_raw_route_table :: "string \<Rightarrow> raw_tgw_route_table" where
  "mk_raw_route_table i =
     \<lparr>rrt_TransitGatewayRouteTableId = i, rrt_TransitGatewayId = ''tgw-1'', rrt_Tags = None,
      rrt_DefaultAssociationRouteTable = None, rrt_DefaultPropagationRouteTable = None\<rparr>"

definition mk_raw_association :: "string \<Rightarrow> raw_association" where
  "mk_raw_association a = \<lparr>ras_State = Some ''associated'', ras_TransitGatewayAttachmentId = Some a\<rparr>"

definition ex_assoc_catalog :: "(string \<times> raw_association list) list \<Rightarrow> NetworkData" where
  "ex_assoc_catalog association_files =
     finish_load [] [] []
       (load_tgw_data (Some ''111111111111'') []
          [mk_raw_attachment ''att-1'' ''vpc'' ''vpc-1'' (Some ''111111111111'') (Some ''111111111111'')]
          [mk_raw_route_table ''rtb-1'', mk_raw_route_table ''rtb-2'']
          association_files [] [])"

definition ex_double_association :: "(string \<times> raw_association list) list" where
  "ex_double_association =
     [(''rtb-1'', [mk_raw_association ''att-1'']),
      (''rtb-2'', [mk_raw_association ''att-1'', mk_raw_association ''att-9''])]"

definition ex_single_association :: "(string \<times> raw_association list) list" where
  "ex_single_association = [(''rtb-1'', [mk_raw_association ''att-1''])]"

section \<open>Basic facts\<close>

lemma dict_contains_get: "dict_contains d k = (dict_get d k \<noteq> None)"
  by (simp add: dict_contains_def dict_get_def)

lemma map_of_map_values: "map_of (map (\<lambda>(k, v). (k, f v)) xs) k = map_option f (map_of xs k)"
  by (induction xs) auto

lemma set_dict_set: "set (dict_set d k v) \<subseteq> insert (k, v) (set d)"
  by (induction d) (auto split: if_splits)

lemma load_tgw_attachments_frame:
  "local_account_id (load_tgw_attachments raws d) = local_account_id d"
  by (induction raws arbitrary: d) auto

lemmas example_defs =
  mk_vpc_route_def mk_vpc_route_table_def mk_subnet_def mk_vpc_def NetworkData_init_def
  dict_get_def dict_contains_def truthy_def

section \<open>Route target resolution (C8)\<close>

lemma parse_gateway_applies:
  "spec_gateway_rule_applies route \<Longrightarrow>
   parse_vpc_route_target route = the (parse_gateway_id (the (rvr_GatewayId route)))"
  by (auto simp: spec_gateway_rule_applies_def parse_vpc_route_target_def truthy_def
      parse_gateway_id_def startswith_def split: option.splits)

lemma parse_gateway_not_applies:
  "\<not> spec_gateway_rule_applies route \<Longrightarrow> parse_vpc_route_target route = parse_later_fields route"
  by (auto simp: spec_gateway_rule_applies_def parse_vpc_route_target_def truthy_def
      parse_gateway_id_def split: option.splits)

text \<open>
  C8, as the code has it. The raw fields are tried in the order gateway id, NAT gateway id,
  transit gateway id, VPC peering id, network interface id, else \<open>(UNKNOWN, "")\<close>. The
  gateway-id rule decides when the gateway id is exactly \<open>local\<close> or starts with \<open>igw-\<close>,
  \<open>vgw-\<close>, \<open>eigw-\<close> or \<open>vpce-\<close>, and then the result does not depend on the four later
  fields; a gateway id of any other shape is passed over and the later fields decide.
\<close>

theorem parse_vpc_route_target_priority:
  "parse_vpc_route_target route =
     (if spec_gateway_rule_applies route then
        (let gw = the (rvr_GatewayId route) in
         if gw = ''local'' then (LOCAL, ''local'')
         else if startswith gw ''igw-'' then (IGW, gw)
         else if startswith gw ''vgw-'' then (VGW, gw)
         else if startswith gw ''eigw-'' then (EGRESS_IGW, gw)
         else (VPC_ENDPOINT, gw))
      else if truthy (rvr_NatGatewayId route) then (NAT, the (rvr_NatGatewayId route))
      else if truthy (rvr_TransitGatewayId route) then (TGW, the (rvr_TransitGatewayId route))
      else if truthy (rvr_VpcPeeringConnectionId route)
        then (VPC_PEERING, the (rvr_VpcPeeringConnectionId route))
      else if truthy (rvr_NetworkInterfaceId route) then (ENI, the (rvr_NetworkInterfaceId route))
      else (UNKNOWN, []))
   \<and> (spec_gateway_rule_applies route \<longrightarrow>
        parse_vpc_route_target
          (route\<lparr>rvr_NatGatewayId := n, rvr_TransitGatewayId := t,
                 rvr_VpcPeeringConnectionId := p, rvr_NetworkInterfaceId := e\<rparr>)
        = parse_vpc_route_target route)"
proof (cases "spec_gateway_rule_applies route")
  case True
  let ?r' = "route\<lparr>rvr_NatGatewayId := n, rvr_TransitGatewayId := t,
                 rvr_VpcPeeringConnectionId := p, rvr_NetworkInterfaceId := e\<rparr>"
  from True have a': "spec_gateway_rule_applies ?r'"
    by (simp add: spec_gateway_rule_applies_def)
  have "parse_vpc_route_target ?r' = parse_vpc_route_target route"
    using parse_gateway_applies[OF True] parse_gateway_applies[OF a'] by simp
  moreover have "parse_vpc_route_target route =
        (let gw = the (rvr_GatewayId route) in
         if gw = ''local'' then (LOCAL, ''local'')
         else if startswith gw ''igw-'' then (IGW, gw)
         else if startswith gw ''vgw-'' then (VGW, gw)
         else if startswith gw ''eigw-'' then (EGRESS_IGW, gw)
         else (VPC_ENDPOINT, gw))"
    using True parse_gateway_applies[OF True]
    by (auto simp: spec_gateway_rule_applies_def parse_gateway_id_def Let_def split: option.splits)
  ultimately show ?thesis using True by simp
next
  case False
  then show ?thesis
    using parse_gateway_not_applies[OF False] by (simp add: parse_later_fields_def)
qed

text \<open>
  A record with gateway id \<open>igw-1\<close> and a NAT gateway id resolves to the IGW, with or
  without the NAT gateway id.
\<close>

theorem parse_vpc_route_target_priority_witness:
  "spec_gateway_rule_applies (ex_raw_route (Some ''igw-1'') (Some ''nat-1''))
   \<and> parse_vpc_route_target (ex_raw_route (Some ''igw-1'') (Some ''nat-1'')) = (IGW, ''igw-1'')
   \<and> parse_vpc_route_target (ex_raw_route (Some ''igw-1'') None) = (IGW, ''igw-1'')"
  using parse_vpc_route_target_priority
          [of "ex_raw_route (Some ''igw-1'') (Some ''nat-1'')" None None None None]
  by (simp add: ex_raw_route_def spec_gateway_rule_applies_def startswith_def)

text \<open>
  C8 as stated fails: a record whose gateway id is present but of an unknown kind
  (\<open>lgw-1\<close>) is resolved by its NAT gateway id when it has one, and to \<open>UNKNOWN\<close> when it has
  none, so the later fields are consulted.
\<close>

theorem parse_vpc_route_target_counterexample:
  "parse_vpc_route_target (ex_raw_route (Some ''lgw-1'') (Some ''nat-1'')) = (NAT, ''nat-1'')
   \<and> parse_vpc_route_target (ex_raw_route (Some ''lgw-1'') None) = (UNKNOWN, [])"
  by (simp add: parse_vpc_route_target_def parse_gateway_id_def parse_later_fields_def
      ex_raw_route_def truthy_def startswith_def)

section \<open>Subnet classification (C3, C4, C10)\<close>

lemma classify_routes_find:
  "classify_routes rs t =
     (case find spec_decisive_route rs of
        None \<Rightarrow> t
      | Some r \<Rightarrow> spec_class_of_target (vr_target_type r))"
  by (induction rs)
     (auto simp: spec_decisive_route_def spec_is_default_route_def spec_class_of_target_def)

lemma classify_subnet_spec:
  "sn_subnet_type (classify_subnet d subnet) =
     (case spec_effective_table d subnet of
        None \<Rightarrow> ISOLATED
      | Some rt \<Rightarrow> classify_routes (vrt_routes rt) (sn_subnet_type subnet))"
  by (auto simp: classify_subnet_def spec_effective_table_def effective_rt_id_def Let_def
      dict_contains_get truthy_def split: option.splits)

lemma classify_subnet_frame:
  "classify_subnet d subnet = subnet\<lparr>sn_subnet_type := sn_subnet_type (classify_subnet d subnet)\<rparr>"
  by (auto simp: classify_subnet_def Let_def dict_contains_get split: option.splits)

text \<open>
  C3. A subnet of the catalog, isolated as the loader creates it, leaves classification
  changed in its class only. The class is isolated when its effective route table (the
  explicit one, else the main table of its VPC) is not in the catalog; otherwise it is the
  class of the first route, in table order, that is a default route (\<open>0.0.0.0/0\<close> or
  \<open>::/0\<close>) to an IGW (public), a NAT gateway (private) or a TGW (tgw-attached), and
  isolated when the table has no such route, in particular no default route at all.
\<close>

theorem classify_subnets_class:
  assumes "(k, subnet) \<in> set (subnets d)" and "sn_subnet_type subnet = ISOLATED"
  shows "(k, subnet\<lparr>sn_subnet_type :=
            (case spec_effective_table d subnet of
               None \<Rightarrow> ISOLATED
             | Some rt \<Rightarrow>
                 (case find spec_decisive_route (vrt_routes rt) of
                    None \<Rightarrow> ISOLATED
                  | Some r \<Rightarrow> spec_class_of_target (vr_target_type r)))\<rparr>)
         \<in> set (subnets (classify_subnets d))"
proof -
  have "(k, classify_subnet d subnet) \<in> set (subnets (classify_subnets d))"
    using assms(1) by (force simp: classify_subnets_def)
  moreover have "classify_subnet d subnet =
                 subnet\<lparr>sn_subnet_type := sn_subnet_type (classify_subnet d subnet)\<rparr>"
    by (rule classify_subnet_frame)
  moreover have "sn_subnet_type (classify_subnet d subnet) =
     (case spec_effective_table d subnet of
               None \<Rightarrow> ISOLATED
             | Some rt \<Rightarrow>
                 (case find spec_decisive_route (vrt_routes rt) of
                    None \<Rightarrow> ISOLATED
                  | Some r \<Rightarrow> spec_class_of_target (vr_target_type r)))"
    using assms(2) by (simp add: classify_subnet_spec classify_routes_find split: option.splits)
  ultimately show ?thesis by simp
qed

text \<open>
  The table \<open>[(0.0.0.0/0, nat), (10.0.0.0/8, local)]\<close> classifies its subnet private, and
  the empty main table classifies the subnet that falls to it isolated.
\<close>

theorem classify_subnets_class_witness:
  "(''subnet-a'', (mk_subnet ''subnet-a'' ''vpc-1'' ''10.0.1.0/24'' (Some ''rtb-nat''))
                    \<lparr>sn_subnet_type := PRIVATE\<rparr>)
     \<in> set (subnets (classify_subnets ex_nat_catalog))
   \<and> (''subnet-b'', (mk_subnet ''subnet-b'' ''vpc-1'' ''10.0.2.0/24'' None)
                    \<lparr>sn_subnet_type := ISOLATED\<rparr>)
     \<in> set (subnets (classify_subnets ex_nat_catalog))"
  using classify_subnets_class
          [of "''subnet-a''" "mk_subnet ''subnet-a'' ''vpc-1'' ''10.0.1.0/24'' (Some ''rtb-nat'')"
              ex_nat_catalog]
        classify_subnets_class
          [of "''subnet-b''" "mk_subnet ''subnet-b'' ''vpc-1'' ''10.0.2.0/24'' None" ex_nat_catalog]
  by (simp add: ex_nat_catalog_def example_defs spec_effective_table_def
      spec_decisive_route_def spec_is_default_route_def spec_class_of_target_def)

text \<open>
  C4, as the code has it. The class of a subnet is decided by the first route of its
  effective table that is a default route to an IGW, a NAT gateway or a TGW. Default
  routes to any other target that come before it are passed over, and nothing after it is
  consulted.
\<close>

theorem classify_subnet_first_decisive:
  assumes "spec_effective_table d subnet = Some rt"
    and "vrt_routes rt = pre @ r # post"
    and "spec_decisive_route r"
    and "\<forall>q \<in> set pre. \<not> spec_decisive_route q"
  shows "sn_subnet_type (classify_subnet d subnet) = spec_class_of_target (vr_target_type r)"
proof -
  have "find spec_decisive_route (pre @ r # post) = Some r"
    using assms(3,4) by (induction pre) auto
  then show ?thesis
    using assms(1,2) by (simp add: classify_subnet_spec classify_routes_find)
qed

theorem classify_subnet_first_decisive_witness:
  "sn_subnet_type
     (classify_subnet ex_two_defaults_catalog
        (mk_subnet ''subnet-c'' ''vpc-1'' ''10.0.3.0/24'' (Some ''rtb-2''))) = PUBLIC"
  using classify_subnet_first_decisive
          [of ex_two_defaults_catalog
              "mk_subnet ''subnet-c'' ''vpc-1'' ''10.0.3.0/24'' (Some ''rtb-2'')"
              ex_two_defaults_table
              "[mk_vpc_route ''0.0.0.0/0'' VGW ''vgw-1'' ACTIVE]"
              "mk_vpc_route ''0.0.0.0/0'' IGW ''igw-1'' ACTIVE" "[]"]
  by (simp add: ex_two_defaults_catalog_def ex_two_defaults_table_def example_defs
      spec_effective_table_def spec_decisive_route_def spec_is_default_route_def
      spec_class_of_target_def)

text \<open>
  C4 as stated fails: with the routes \<open>[(0.0.0.0/0, vgw), (0.0.0.0/0, igw)]\<close> the first
  default route targets a virtual private gateway, the loop goes on to the second, and the
  subnet is classified public, not isolated.
\<close>

theorem classify_first_default_counterexample:
  "map snd (subnets (classify_subnets ex_two_defaults_catalog)) =
     [(mk_subnet ''subnet-c'' ''vpc-1'' ''10.0.3.0/24'' (Some ''rtb-2''))\<lparr>sn_subnet_type := PUBLIC\<rparr>]"
  by (simp add: classify_subnets_def classify_subnet_def effective_rt_id_def
      ex_two_defaults_catalog_def ex_two_defaults_table_def example_defs)

lemma classify_routes_strip:
  "classify_routes (map (\<lambda>r. r\<lparr>vr_state := s\<rparr>) rs) t = classify_routes rs t"
  by (induction rs) auto

lemma classify_subnet_strip:
  "classify_subnet (strip_route_states d) subnet = classify_subnet d subnet"
  by (auto simp: classify_subnet_def strip_route_states_def effective_rt_id_def Let_def
      dict_contains_def dict_get_def map_of_map_values classify_routes_strip
      split: option.splits)

lemma classify_subnets_strip:
  "subnets (classify_subnets (strip_route_states d)) = subnets (classify_subnets d)"
proof -
  have "subnets (strip_route_states d) = subnets d"
    by (simp add: strip_route_states_def)
  then show ?thesis
    by (simp add: classify_subnets_def classify_subnet_strip)
qed

text \<open>
  C10. Classification never reads the state of a route: two catalogs that are equal once
  the state of every VPC route is forgotten have the same subnets, with the same classes,
  after classification.
\<close>

theorem classify_subnets_ignores_route_state:
  assumes "strip_route_states d = strip_route_states d'"
  shows "subnets (classify_subnets d) = subnets (classify_subnets d')"
  using classify_subnets_strip[of d] classify_subnets_strip[of d'] assms by simp

text \<open>A blackhole default route to an IGW classifies the subnet public, as an active one does.\<close>

theorem classify_subnets_ignores_route_state_witness:
  "subnets (classify_subnets (ex_igw_catalog BLACKHOLE)) =
     subnets (classify_subnets (ex_igw_catalog ACTIVE))
   \<and> map (\<lambda>kv. sn_subnet_type (snd kv)) (subnets (classify_subnets (ex_igw_catalog BLACKHOLE)))
       = [PUBLIC]"
proof -
  have "strip_route_states (ex_igw_catalog BLACKHOLE) = strip_route_states (ex_igw_catalog ACTIVE)"
    by (simp add: strip_route_states_def ex_igw_catalog_def example_defs)
  from classify_subnets_ignores_route_state[OF this]
  have "subnets (classify_subnets (ex_igw_catalog BLACKHOLE)) =
        subnets (classify_subnets (ex_igw_catalog ACTIVE))" .
  moreover have "map (\<lambda>kv. sn_subnet_type (snd kv))
                   (subnets (classify_subnets (ex_igw_catalog BLACKHOLE))) = [PUBLIC]"
    by (simp add: classify_subnets_def classify_subnet_def effective_rt_id_def
        ex_igw_catalog_def example_defs)
  ultimately show ?thesis by simp
qed

section \<open>CIDR matching (C2)\<close>

lemma nat_le_or: "(a::nat) \<le> a OR b"
  by (metis or_greater_eq of_nat_0_le_iff of_nat_or_eq of_nat_le_iff)

lemma net_addresses_subset:
  "net_addresses a \<subseteq> net_addresses b \<longleftrightarrow>
     net_version a = net_version b \<and> net_address b \<le> net_address a
     \<and> broadcast_address a \<le> broadcast_address b"
proof
  assume sub: "net_addresses a \<subseteq> net_addresses b"
  have lo: "(net_version a, net_address a) \<in> net_addresses a"
    by (simp add: net_addresses_def broadcast_address_def nat_le_or)
  have hi: "(net_version a, broadcast_address a) \<in> net_addresses a"
    by (simp add: net_addresses_def broadcast_address_def nat_le_or)
  from sub lo hi show "net_version a = net_version b \<and> net_address b \<le> net_address a
     \<and> broadcast_address a \<le> broadcast_address b"
    by (auto simp: net_addresses_def)
next
  assume "net_version a = net_version b \<and> net_address b \<le> net_address a
     \<and> broadcast_address a \<le> broadcast_address b"
  then show "net_addresses a \<subseteq> net_addresses b"
    by (auto simp: net_addresses_def)
qed

lemma hostmask_le: "hostmask n \<le> 2 ^ max_prefixlen (net_version n) - 1"
  by (simp add: hostmask_def diff_le_mono)

lemma net_eq_iff:
  "net_eq a b \<longleftrightarrow>
     net_version a = net_version b \<and> net_address a = net_address b \<and> hostmask a = hostmask b
     \<and> (net_version a = 6 \<longrightarrow> net_scope_id a = net_scope_id b)"
proof (cases "net_version a = net_version b")
  case True
  then have "netmask a = netmask b \<longleftrightarrow> hostmask a = hostmask b"
    using hostmask_le[of a] hostmask_le[of b] by (auto simp: netmask_def)
  then show ?thesis
    by (auto simp: net_eq_def addr_eq_def network_address_of_def)
next
  case False
  then show ?thesis by (simp add: net_eq_def)
qed

lemma subnet_of_iff:
  "subnet_of a b =
     (if net_version a \<noteq> net_version b then Inl TypeError
      else Inr ((net_address b < net_address a
                 \<or> net_address b = net_address a
                    \<and> (net_version a = 6 \<longrightarrow> net_scope_id b = net_scope_id a))
                \<and> broadcast_address a \<le> broadcast_address b))"
  by (auto simp: subnet_of_def addr_le_def addr_ge_def addr_lt_def addr_eq_def
      network_address_of_def broadcast_address_of_def)

lemma subnet_or_equal:
  assumes "net_version a = net_version b"
  shows "(subnet_of a b = Inr True \<or> net_eq b a) \<longleftrightarrow> spec_subnet_or_equal a b"
proof -
  let ?same = "net_version a = 6 \<longrightarrow> net_scope_id b = net_scope_id a"
  have s: "subnet_of a b = Inr True \<longleftrightarrow>
           (net_address b < net_address a \<or> net_address b = net_address a \<and> ?same)
           \<and> broadcast_address a \<le> broadcast_address b"
    using assms by (simp add: subnet_of_iff)
  have e: "net_eq b a \<longleftrightarrow>
           net_address b = net_address a \<and> hostmask b = hostmask a \<and> ?same"
    using assms by (simp add: net_eq_iff)
  have h: "hostmask b = hostmask a \<Longrightarrow> net_address b = net_address a \<Longrightarrow>
           broadcast_address a \<le> broadcast_address b"
    by (simp add: broadcast_address_def)
  have sp: "spec_subnet_or_equal a b \<longleftrightarrow>
            net_address b \<le> net_address a \<and> broadcast_address a \<le> broadcast_address b
            \<and> (net_address a = net_address b \<longrightarrow> ?same)"
    using assms by (auto simp: spec_subnet_or_equal_def net_addresses_subset)
  show ?thesis
    unfolding s e sp using h by (cases "net_address b = net_address a") auto
qed

lemma cidr_matches_eq: "cidr_matches P route_cidr target_cidr = spec_cidr_matches P route_cidr target_cidr"
proof (cases "route_cidr = ''0.0.0.0/0''")
  case True
  then show ?thesis by (simp add: cidr_matches_def spec_cidr_matches_def)
next
  case False
  show ?thesis
  proof (cases "P route_cidr")
    case (Inl e)
    then show ?thesis
      using False by (simp add: cidr_matches_def cidr_matches_try_def spec_cidr_matches_def)
  next
    case (Inr rn)
    note rn = this
    show ?thesis
    proof (cases "P target_cidr")
      case (Inl e)
      then show ?thesis
        using False rn by (simp add: cidr_matches_def cidr_matches_try_def spec_cidr_matches_def)
    next
      case (Inr tn)
      show ?thesis
      proof (cases "net_version tn = net_version rn")
        case True
        obtain b where b: "subnet_of tn rn = Inr b"
          using True by (simp add: subnet_of_iff)
        then have "cidr_matches_try P route_cidr target_cidr = Inr (b \<or> net_eq rn tn)"
          using rn Inr by (simp add: cidr_matches_try_def)
        then show ?thesis
          using False rn Inr b subnet_or_equal[OF True]
          by (simp add: cidr_matches_def spec_cidr_matches_def)
      next
        case ne: False
        then have "route_cidr \<noteq> target_cidr"
          using rn Inr by auto
        moreover have "\<not> spec_subnet_or_equal tn rn"
          using ne by (simp add: spec_subnet_or_equal_def net_addresses_subset)
        ultimately show ?thesis
          using False rn Inr ne
          by (simp add: cidr_matches_def cidr_matches_try_def subnet_of_iff
              spec_cidr_matches_def)
      qed
    qed
  qed
qed

text \<open>
  C2. A route destination that is exactly \<open>0.0.0.0/0\<close> matches every target. Otherwise,
  when both strings parse, the destination matches exactly when the target network is a
  subnet of, or equal to, the destination network: every address of the target is an
  address of the destination (never so for networks of different versions), and two IPv6
  networks that begin at the same address have the same scope id, which the library's
  comparison of network addresses reads. For two networks of one scope id, and so for all
  networks written without one, this is the containment of the addresses alone. When
  either string does not parse, the match is the equality of the two strings. This holds
  for every parser \<open>P\<close>.
\<close>

theorem cidr_matches_spec:
  "cidr_matches P route_cidr target_cidr =
     (if route_cidr = ''0.0.0.0/0'' then True
      else (case (P route_cidr, P target_cidr) of
              (Inr route_net, Inr target_net) \<Rightarrow>
                 net_addresses target_net \<subseteq> net_addresses route_net
                 \<and> (net_version target_net = 6 \<and> net_address target_net = net_address route_net
                      \<longrightarrow> net_scope_id target_net = net_scope_id route_net)
            | _ \<Rightarrow> route_cidr = target_cidr))
   \<and> (P route_cidr = Inr route_net \<and> P target_cidr = Inr target_net
        \<and> net_scope_id target_net = net_scope_id route_net \<and> route_cidr \<noteq> ''0.0.0.0/0'' \<longrightarrow>
        cidr_matches P route_cidr target_cidr =
          (net_addresses target_net \<subseteq> net_addresses route_net))"
  by (auto simp: cidr_matches_eq spec_cidr_matches_def spec_subnet_or_equal_def
      split: sum.splits)

lemmas ipv4_defs =
  ipv4_parser_def ipv4_network_def ip_int_from_string_def parse_octet_def is_ascii_digit_def
  int_of_digits_def make_netmask_def prefix_from_prefix_string_def prefix_from_ip_string_def
  prefix_from_ip_int_def

lemmas net_defs =
  cidr_matches_def cidr_matches_try_def subnet_of_def net_eq_def broadcast_address_def
  hostmask_def netmask_def max_prefixlen_def overlaps_def net_contains_def
  addr_le_def addr_ge_def addr_lt_def addr_eq_def network_address_of_def
  broadcast_address_of_def

lemma ipv4_parser_10_8:
  "ipv4_parser ''10.0.0.0/8'' =
     Inr \<lparr>net_version = 4, net_address = 167772160, net_scope_id = None, net_prefixlen = 8\<rparr>"
  by (simp add: ipv4_defs)

lemma ipv4_parser_10_0_16:
  "ipv4_parser ''10.0.0.0/16'' =
     Inr \<lparr>net_version = 4, net_address = 167772160, net_scope_id = None, net_prefixlen = 16\<rparr>"
  by (simp add: ipv4_defs)

lemma ipv4_parser_10_0_5_24:
  "ipv4_parser ''10.0.5.0/24'' =
     Inr \<lparr>net_version = 4, net_address = 167773440, net_scope_id = None, net_prefixlen = 24\<rparr>"
  by (simp add: ipv4_defs)

lemma ipv4_parser_10_1_16:
  "ipv4_parser ''10.1.0.0/16'' =
     Inr \<lparr>net_version = 4, net_address = 167837696, net_scope_id = None, net_prefixlen = 16\<rparr>"
  by (simp add: ipv4_defs)

lemma ipv4_parser_10_2_16:
  "ipv4_parser ''10.2.0.0/16'' =
     Inr \<lparr>net_version = 4, net_address = 167903232, net_scope_id = None, net_prefixlen = 16\<rparr>"
  by (simp add: ipv4_defs)

lemma ipv4_parser_not_a_cidr: "ipv4_parser ''not-a-cidr'' = Inl ValueError"
  by (simp add: ipv4_defs)

lemma ipv4_parser_pl: "ipv4_parser ''pl-63a5400a'' = Inl ValueError"
  by (simp add: ipv4_defs)

lemma ipv4_parser_default:
  "ipv4_parser ''0.0.0.0/0'' =
     Inr \<lparr>net_version = 4, net_address = 0, net_scope_id = None, net_prefixlen = 0\<rparr>"
  by (simp add: ipv4_defs)

lemma ex_scoped_parser_a:
  "ex_scoped_parser ''fe80::%a/64'' =
     Inr \<lparr>net_version = 6, net_address = 0xFE80 * 2 ^ 112, net_scope_id = Some ''a'',
          net_prefixlen = 64\<rparr>"
  by (simp add: ex_scoped_parser_def)

lemma ex_scoped_parser_b:
  "ex_scoped_parser ''fe80::%b/64'' =
     Inr \<lparr>net_version = 6, net_address = 0xFE80 * 2 ^ 112, net_scope_id = Some ''b'',
          net_prefixlen = 64\<rparr>"
  by (simp add: ex_scoped_parser_def)

lemma ex_scoped_parser_10_8:
  "ex_scoped_parser ''10.0.0.0/8'' =
     Inr \<lparr>net_version = 4, net_address = 167772160, net_scope_id = None, net_prefixlen = 8\<rparr>"
  by (simp add: ex_scoped_parser_def ipv4_parser_10_8)

text \<open>
  \<open>10.0.5.0/24\<close> lies in \<open>10.0.0.0/8\<close> and not the other way round; the default route
  matches a string that is no network; a prefix-list id, which is no network, matches
  itself only. The IPv6 network \<open>fe80::/64\<close> of scope \<open>a\<close> matches itself, but neither the
  same network of scope \<open>b\<close> nor an IPv4 network.
\<close>

theorem cidr_matches_spec_witness:
  "cidr_matches ipv4_parser ''10.0.0.0/8'' ''10.0.5.0/24''
   \<and> net_addresses \<lparr>net_version = 4, net_address = 167773440, net_scope_id = None, net_prefixlen = 24\<rparr>
       \<subseteq> net_addresses \<lparr>net_version = 4, net_address = 167772160, net_scope_id = None, net_prefixlen = 8\<rparr>
   \<and> \<not> cidr_matches ipv4_parser ''10.0.5.0/24'' ''10.0.0.0/8''
   \<and> \<not> net_addresses \<lparr>net_version = 4, net_address = 167772160, net_scope_id = None, net_prefixlen = 8\<rparr>
       \<subseteq> net_addresses \<lparr>net_version = 4, net_address = 167773440, net_scope_id = None, net_prefixlen = 24\<rparr>
   \<and> cidr_matches ipv4_parser ''0.0.0.0/0'' ''not-a-cidr''
   \<and> cidr_matches ipv4_parser ''pl-63a5400a'' ''pl-63a5400a''
   \<and> \<not> cidr_matches ipv4_parser ''pl-63a5400a'' ''10.0.0.0/8''
   \<and> cidr_matches ex_scoped_parser ''fe80::%a/64'' ''fe80::%a/64''
   \<and> \<not> cidr_matches ex_scoped_parser ''fe80::%a/64'' ''fe80::%b/64''
   \<and> \<not> cidr_matches ex_scoped_parser ''fe80::%a/64'' ''10.0.0.0/8''"
proof -
  have m: "cidr_matches ipv4_parser ''10.0.0.0/8'' ''10.0.5.0/24''"
    by (simp add: net_defs ipv4_parser_10_8 ipv4_parser_10_0_5_24)
  have n: "\<not> cidr_matches ipv4_parser ''10.0.5.0/24'' ''10.0.0.0/8''"
    by (simp add: net_defs ipv4_parser_10_8 ipv4_parser_10_0_5_24)
  have "net_addresses \<lparr>net_version = 4, net_address = 167773440, net_scope_id = None, net_prefixlen = 24\<rparr>
       \<subseteq> net_addresses \<lparr>net_version = 4, net_address = 167772160, net_scope_id = None, net_prefixlen = 8\<rparr>"
    using m cidr_matches_spec[of ipv4_parser "''10.0.0.0/8''" "''10.0.5.0/24''"
        "\<lparr>net_version = 4, net_address = 167772160, net_scope_id = None, net_prefixlen = 8\<rparr>"
        "\<lparr>net_version = 4, net_address = 167773440, net_scope_id = None, net_prefixlen = 24\<rparr>"]
    by (simp add: ipv4_parser_10_8 ipv4_parser_10_0_5_24)
  moreover have "\<not> net_addresses \<lparr>net_version = 4, net_address = 167772160, net_scope_id = None, net_prefixlen = 8\<rparr>
       \<subseteq> net_addresses \<lparr>net_version = 4, net_address = 167773440, net_scope_id = None, net_prefixlen = 24\<rparr>"
    using n cidr_matches_spec[of ipv4_parser "''10.0.5.0/24''" "''10.0.0.0/8''"]
    by (simp add: ipv4_parser_10_8 ipv4_parser_10_0_5_24)
  moreover have "cidr_matches ipv4_parser ''0.0.0.0/0'' ''not-a-cidr''"
    using cidr_matches_spec[of ipv4_parser "''0.0.0.0/0''" "''not-a-cidr''"] by simp
  moreover have "cidr_matches ipv4_parser ''pl-63a5400a'' ''pl-63a5400a''"
    using cidr_matches_spec[of ipv4_parser "''pl-63a5400a''" "''pl-63a5400a''"]
    by (simp add: ipv4_parser_pl)
  moreover have "\<not> cidr_matches ipv4_parser ''pl-63a5400a'' ''10.0.0.0/8''"
    using cidr_matches_spec[of ipv4_parser "''pl-63a5400a''" "''10.0.0.0/8''"]
    by (simp add: ipv4_parser_pl)
  moreover have "cidr_matches ex_scoped_parser ''fe80::%a/64'' ''fe80::%a/64''"
    using cidr_matches_spec[of ex_scoped_parser "''fe80::%a/64''" "''fe80::%a/64''"]
    by (simp add: ex_scoped_parser_a)
  moreover have "\<not> cidr_matches ex_scoped_parser ''fe80::%a/64'' ''fe80::%b/64''"
    using cidr_matches_spec[of ex_scoped_parser "''fe80::%a/64''" "''fe80::%b/64''"]
    by (simp add: ex_scoped_parser_a ex_scoped_parser_b)
  moreover have "\<not> cidr_matches ex_scoped_parser ''fe80::%a/64'' ''10.0.0.0/8''"
    using cidr_matches_spec[of ex_scoped_parser "''fe80::%a/64''" "''10.0.0.0/8''"]
    by (simp add: ex_scoped_parser_a ex_scoped_parser_10_8 net_addresses_subset)
  ultimately show ?thesis using m n by simp
qed

section \<open>Asymmetric reachability (C1)\<close>

lemma can_reach_routes_ex:
  "can_reach_routes P rs dst cidr =
     (\<exists>route \<in> set rs. tr_state route \<noteq> BLACKHOLE \<and> tr_attachment_id route = Some (att_id dst)
        \<and> spec_cidr_matches P (tr_destination_cidr route) cidr)"
  by (induction rs) (auto simp: tr_is_blackhole_def cidr_matches_eq)

lemma can_reach_cidrs_ex:
  "can_reach_cidrs P rt dst cidrs =
     (\<exists>cidr \<in> set cidrs. can_reach_routes P (trt_routes rt) dst cidr)"
  by (induction cidrs) auto

lemma can_reach_spec: "can_reach P d src dst = spec_can_reach P d src dst"
  by (auto simp: can_reach_def spec_can_reach_def truthy_def can_reach_cidrs_ex
      can_reach_routes_ex split: option.splits)

lemma asymmetric_dst_loop_eq:
  "asymmetric_dst_loop P d src dsts issues =
     issues @ [asymmetric_issue src dst. dst \<leftarrow> dsts, att_id src \<noteq> att_id dst,
               spec_can_reach P d src dst \<and> \<not> spec_can_reach P d dst src]"
  by (induction dsts arbitrary: issues) (auto simp: can_reach_spec Let_def)

lemma asymmetric_src_loop_eq:
  "asymmetric_src_loop P d tgw_atts srcs issues =
     issues @ [asymmetric_issue src dst. src \<leftarrow> srcs, dst \<leftarrow> tgw_atts,
               att_id src \<noteq> att_id dst,
               spec_can_reach P d src dst \<and> \<not> spec_can_reach P d dst src]"
  by (induction srcs arbitrary: issues) (auto simp: asymmetric_dst_loop_eq)

lemma asymmetric_tgw_loop_eq:
  "asymmetric_tgw_loop P d gws issues =
     issues @ [asymmetric_issue src dst.
               tgw \<leftarrow> gws,
               src \<leftarrow> filter (\<lambda>a. att_tgw_id a = tgw_id tgw) (dict_values (tgw_attachments d)),
               dst \<leftarrow> filter (\<lambda>a. att_tgw_id a = tgw_id tgw) (dict_values (tgw_attachments d)),
               att_id src \<noteq> att_id dst,
               spec_can_reach P d src dst \<and> \<not> spec_can_reach P d dst src]"
  by (induction gws arbitrary: issues) (auto simp: asymmetric_src_loop_eq Let_def)

text \<open>
  C1. The findings of the asymmetric-routing check are, in order: for every TGW of the
  catalog, for every attachment \<open>src\<close> of the catalog whose \<open>tgw_id\<close> is that TGW, for every
  such attachment \<open>dst\<close> with another id, one finding exactly when \<open>src\<close> reaches \<open>dst\<close> and
  \<open>dst\<close> does not reach \<open>src\<close>. The finding is of type \<open>asymmetric\<close> and severity
  \<open>warning\<close>; its location is the name of \<open>src\<close>, an arrow and the name of \<open>dst\<close>, and its
  message names \<open>src\<close> as the side that can reach \<open>dst\<close>. Reaching is \<open>spec_can_reach\<close>:
  false without an associated route table id or when the catalog lacks the table, else
  true exactly when the table has a route whose state is not blackhole, that is attributed
  to the target and whose destination CIDR matches one of the target's CIDRs.
\<close>

theorem check_asymmetric_routing_spec:
  "check_asymmetric_routing P d =
     [\<lparr>issue_type = ''asymmetric'', issue_severity = ''warning'',
       issue_location = att_name src @ '' '' @ [CHR 0xE2, CHR 0x86, CHR 0x92] @ '' ''
                        @ att_name dst,
       issue_message = ''Asymmetric routing: '' @ att_name src @ '' can reach ''
                       @ att_name dst @ '' but not vice versa''\<rparr>.
        tgw \<leftarrow> dict_values (tgws d),
        src \<leftarrow> filter (\<lambda>a. att_tgw_id a = tgw_id tgw) (dict_values (tgw_attachments d)),
        dst \<leftarrow> filter (\<lambda>a. att_tgw_id a = tgw_id tgw) (dict_values (tgw_attachments d)),
        att_id src \<noteq> att_id dst,
        spec_can_reach P d src dst \<and> \<not> spec_can_reach P d dst src]"
  using asymmetric_tgw_loop_eq[of P d "dict_values (tgws d)" "[]"]
  unfolding check_asymmetric_routing_def asymmetric_issue_def arrow_def
  by simp

lemma ex_att_ids:
  "att_id ex_att_a = ''att-a''" "att_id ex_att_b = ''att-b''" "att_id ex_att_c = ''att-c''"
  "att_tgw_id ex_att_a = ''tgw-1''" "att_tgw_id ex_att_b = ''tgw-1''"
  "att_tgw_id ex_att_c = ''tgw-1''"
  "att_name ex_att_a = ''vpc-a''" "att_name ex_att_b = ''vpc-b''" "att_name ex_att_c = ''vpn-c''"
  by (simp_all add: ex_att_a_def ex_att_b_def ex_att_c_def mk_attachment_def)

lemmas can_reach_defs =
  can_reach_def truthy_def dict_get_def ex_att_a_def ex_att_b_def ex_att_c_def
  mk_attachment_def mk_tgw_route_table_def mk_tgw_route_def tr_is_blackhole_def

lemma ex_one_way_reach:
  "spec_can_reach ipv4_parser ex_one_way_catalog ex_att_a ex_att_b"
  "\<not> spec_can_reach ipv4_parser ex_one_way_catalog ex_att_b ex_att_a"
  unfolding can_reach_spec[symmetric]
  by (simp_all add: can_reach_defs ex_one_way_catalog_def net_defs ipv4_parser_10_2_16)

lemma ex_blackhole_reach:
  "spec_can_reach ipv4_parser ex_blackhole_catalog ex_att_a ex_att_b"
  "\<not> spec_can_reach ipv4_parser ex_blackhole_catalog ex_att_b ex_att_a"
  "\<not> spec_can_reach ipv4_parser ex_blackhole_catalog ex_att_a ex_att_c"
  "\<not> spec_can_reach ipv4_parser ex_blackhole_catalog ex_att_b ex_att_c"
  "\<not> spec_can_reach ipv4_parser ex_blackhole_catalog ex_att_c ex_att_a"
  "\<not> spec_can_reach ipv4_parser ex_blackhole_catalog ex_att_c ex_att_b"
  unfolding can_reach_spec[symmetric]
  by (simp_all add: can_reach_defs ex_blackhole_catalog_def net_defs ipv4_parser_10_8
      ipv4_parser_10_1_16 ipv4_parser_10_2_16)

text \<open>
  The one-directional scenario yields exactly one finding, for \<open>(att-a, att-b)\<close>, and none
  for \<open>(att-b, att-a)\<close>. So does the second scenario, where the only route of \<open>att-a\<close> that
  counts is to a network containing the CIDR of \<open>att-b\<close>, and where \<open>att-b\<close> has a blackhole
  route back.
\<close>

theorem check_asymmetric_routing_spec_witness:
  "check_asymmetric_routing ipv4_parser ex_one_way_catalog =
     [\<lparr>issue_type = ''asymmetric'', issue_severity = ''warning'',
       issue_location = ''vpc-a '' @ [CHR 0xE2, CHR 0x86, CHR 0x92] @ '' vpc-b'',
       issue_message = ''Asymmetric routing: vpc-a can reach vpc-b but not vice versa''\<rparr>]
   \<and> check_asymmetric_routing ipv4_parser ex_blackhole_catalog =
     [\<lparr>issue_type = ''asymmetric'', issue_severity = ''warning'',
       issue_location = ''vpc-a '' @ [CHR 0xE2, CHR 0x86, CHR 0x92] @ '' vpc-b'',
       issue_message = ''Asymmetric routing: vpc-a can reach vpc-b but not vice versa''\<rparr>]
   \<and> spec_can_reach ipv4_parser ex_one_way_catalog ex_att_a ex_att_b
   \<and> \<not> spec_can_reach ipv4_parser ex_one_way_catalog ex_att_b ex_att_a
   \<and> spec_can_reach ipv4_parser ex_blackhole_catalog ex_att_a ex_att_b
   \<and> \<not> spec_can_reach ipv4_parser ex_blackhole_catalog ex_att_b ex_att_a"
proof -
  have one: "check_asymmetric_routing ipv4_parser ex_one_way_catalog =
     [\<lparr>issue_type = ''asymmetric'', issue_severity = ''warning'',
       issue_location = ''vpc-a '' @ [CHR 0xE2, CHR 0x86, CHR 0x92] @ '' vpc-b'',
       issue_message = ''Asymmetric routing: vpc-a can reach vpc-b but not vice versa''\<rparr>]"
    using check_asymmetric_routing_spec[of ipv4_parser ex_one_way_catalog]
      ex_one_way_reach ex_att_ids
    by (simp add: ex_one_way_catalog_def dict_values_def ex_tgw_def)
  have two: "check_asymmetric_routing ipv4_parser ex_blackhole_catalog =
     [\<lparr>issue_type = ''asymmetric'', issue_severity = ''warning'',
       issue_location = ''vpc-a '' @ [CHR 0xE2, CHR 0x86, CHR 0x92] @ '' vpc-b'',
       issue_message = ''Asymmetric routing: vpc-a can reach vpc-b but not vice versa''\<rparr>]"
    using check_asymmetric_routing_spec[of ipv4_parser ex_blackhole_catalog]
      ex_blackhole_reach ex_att_ids
    by (simp add: ex_blackhole_catalog_def dict_values_def ex_tgw_def)
  show ?thesis using one two ex_one_way_reach ex_blackhole_reach(1,2) by simp
qed

section \<open>VPC CIDR overlap (C9)\<close>

lemma overlaps_sym: "overlaps a b = overlaps b a"
  by (auto simp: overlaps_def)

lemma spec_cidrs_overlap_sym: "spec_cidrs_overlap P c1 c2 = spec_cidrs_overlap P c2 c1"
  by (auto simp: spec_cidrs_overlap_def overlaps_sym split: sum.splits)

lemma overlap_step:
  "(case overlap_try P vpc1 cidr1 vpc2 cidr2 issues of Inr issues' \<Rightarrow> issues' | Inl e \<Rightarrow> issues) =
     issues @ (if spec_cidrs_overlap P cidr1 cidr2 then [overlap_issue vpc1 cidr1 vpc2 cidr2]
               else [])"
  by (auto simp: overlap_try_def spec_cidrs_overlap_def split: sum.splits)

lemma overlap_cidr2_loop_eq:
  "overlap_cidr2_loop P vpc1 cidr1 vpc2 cs issues =
     issues @ [overlap_issue vpc1 cidr1 vpc2 cidr2. cidr2 \<leftarrow> cs, spec_cidrs_overlap P cidr1 cidr2]"
  by (induction cs arbitrary: issues) (simp_all add: overlap_step)

lemma overlap_cidr1_loop_eq:
  "overlap_cidr1_loop P vpc1 cs vpc2 issues =
     issues @ [overlap_issue vpc1 cidr1 vpc2 cidr2.
               cidr1 \<leftarrow> cs, cidr2 \<leftarrow> vpc_cidrs vpc2, spec_cidrs_overlap P cidr1 cidr2]"
  by (induction cs arbitrary: issues) (simp_all add: overlap_cidr2_loop_eq)

lemma overlap_vpc2_loop_eq:
  "overlap_vpc2_loop P vpc1 vs issues =
     issues @ [overlap_issue vpc1 cidr1 vpc2 cidr2.
               vpc2 \<leftarrow> vs, cidr1 \<leftarrow> vpc_cidrs vpc1, cidr2 \<leftarrow> vpc_cidrs vpc2,
               spec_cidrs_overlap P cidr1 cidr2]"
  by (induction vs arbitrary: issues) (simp_all add: overlap_cidr1_loop_eq)

lemma overlap_vpc1_loop_eq:
  "overlap_vpc1_loop P vs ivs issues =
     issues @ concat (map (\<lambda>(i, vpc1).
               [overlap_issue vpc1 cidr1 vpc2 cidr2.
                vpc2 \<leftarrow> drop (i + 1) vs, cidr1 \<leftarrow> vpc_cidrs vpc1, cidr2 \<leftarrow> vpc_cidrs vpc2,
                spec_cidrs_overlap P cidr1 cidr2]) ivs)"
  by (induction ivs arbitrary: issues) (auto simp: overlap_vpc2_loop_eq)

lemma enumerate_nth: "enumerate 0 vs = map (\<lambda>i. (i, vs ! i)) [0 ..< length vs]"
  by (simp add: enumerate_eq_zip zip_eq_conv comp_def map_nth)

lemma drop_nth: "drop k vs = map (\<lambda>j. vs ! j) [k ..< length vs]"
  by (metis drop_map drop_upt map_nth add_0)

lemma check_cidr_overlaps_index:
  "check_cidr_overlaps P d =
     (let vs = dict_values (vpcs d) in
      [overlap_issue (vs ! i) cidr1 (vs ! j) cidr2.
         i \<leftarrow> [0 ..< length vs], j \<leftarrow> [i + 1 ..< length vs],
         cidr1 \<leftarrow> vpc_cidrs (vs ! i), cidr2 \<leftarrow> vpc_cidrs (vs ! j),
         spec_cidrs_overlap P cidr1 cidr2])"
  by (simp add: check_cidr_overlaps_def overlap_vpc1_loop_eq Let_def enumerate_nth
      drop_nth[of "Suc _"] map_concat comp_def)

lemma map_overlap_step:
  "map h (if c then [x] else []) = (if c then [h x] else [])"
  by simp

lemma check_cidr_overlaps_pairs:
  "check_cidr_overlaps P d =
     map (\<lambda>((vpc1, cidr1), (vpc2, cidr2)). overlap_issue vpc1 cidr1 vpc2 cidr2)
       (spec_overlapping_pairs P (dict_values (vpcs d)))"
  by (simp add: check_cidr_overlaps_index spec_overlapping_pairs_def Let_def map_concat
      comp_def map_overlap_step cong: if_cong)

text \<open>The overlapping pairs of a list, by recursion on the list.\<close>

lemma spec_overlapping_pairs_index:
  "spec_overlapping_pairs P xs =
     concat (map (\<lambda>i. concat (map (\<lambda>j. cross_pairs P (xs ! i) (xs ! j)) [Suc i ..< length xs]))
               [0 ..< length xs])"
  by (simp add: spec_overlapping_pairs_def cross_pairs_def)

lemma spec_overlapping_pairs_Nil: "spec_overlapping_pairs P [] = []"
  by (simp add: spec_overlapping_pairs_def)

lemma pairs_index_Cons:
  "concat (map (\<lambda>i. concat (map (\<lambda>j. g ((v # vs) ! i) ((v # vs) ! j)) [Suc i ..< length (v # vs)]))
             [0 ..< length (v # vs)]) =
   concat (map (g v) vs) @
   concat (map (\<lambda>i. concat (map (\<lambda>j. g (vs ! i) (vs ! j)) [Suc i ..< length vs])) [0 ..< length vs])"
proof -
  have idx: "[0 ..< length (v # vs)] = 0 # map Suc [0 ..< length vs]"
    by (simp add: upt_conv_Cons map_Suc_upt del: upt_Suc)
  have inner: "[Suc (Suc i) ..< length (v # vs)] = map Suc [Suc i ..< length vs]" for i
    by (simp add: map_Suc_upt del: upt_Suc)
  have first: "[Suc 0 ..< length (v # vs)] = map Suc [0 ..< length vs]"
    by (simp add: map_Suc_upt del: upt_Suc)
  have head: "map (\<lambda>j. g v (vs ! j)) [0 ..< length vs] = map (g v) vs"
    by (rule nth_equalityI) simp_all
  have A: "concat (map (\<lambda>j. g ((v # vs) ! 0) ((v # vs) ! j)) [Suc 0 ..< length (v # vs)]) =
        concat (map (g v) vs)"
    unfolding first by (simp add: comp_def head del: upt_Suc)
  have B: "map (\<lambda>i. concat (map (\<lambda>j. g ((v # vs) ! i) ((v # vs) ! j)) [Suc i ..< length (v # vs)]))
                   (map Suc [0 ..< length vs]) =
        map (\<lambda>i. concat (map (\<lambda>j. g (vs ! i) (vs ! j)) [Suc i ..< length vs])) [0 ..< length vs]"
    unfolding map_map comp_def inner by (simp add: comp_def del: upt_Suc)
  show ?thesis
    by (simp only: idx list.map concat.simps A B)
qed

lemma spec_overlapping_pairs_Cons:
  "spec_overlapping_pairs P (v # vs) =
     concat (map (cross_pairs P v) vs) @ spec_overlapping_pairs P vs"
  unfolding spec_overlapping_pairs_index by (rule pairs_index_Cons)

lemma image_mset_concat:
  "image_mset g (mset (concat (map f xs))) = sum_list (map (\<lambda>x. image_mset g (mset (f x))) xs)"
  by (induction xs) auto

lemma pairs_image_mset:
  "image_mset (\<lambda>(x, y). {x, y}) (mset (spec_overlapping_pairs P vs)) =
     pairs_sum (cross_mset P) vs"
  by (induction vs)
     (simp_all add: spec_overlapping_pairs_Nil spec_overlapping_pairs_Cons image_mset_concat
        cross_mset_def[abs_def])

lemma sum_list_swap_args:
  fixes f :: "'a \<Rightarrow> 'b \<Rightarrow> 'c::comm_monoid_add"
  shows "sum_list (map (\<lambda>a. sum_list (map (f a) ys)) xs) =
         sum_list (map (\<lambda>b. sum_list (map (\<lambda>a. f a b) xs)) ys)"
proof (induction xs)
  case Nil
  show ?case by (induction ys) simp_all
next
  case (Cons x xs)
  then show ?case by (simp add: sum_list_addf)
qed

lemma cross_mset_sum:
  "cross_mset P v1 v2 =
     sum_list (map (\<lambda>c1. sum_list (map (\<lambda>c2.
        if spec_cidrs_overlap P c1 c2 then {#{(v1, c1), (v2, c2)}#} else {#}) (vpc_cidrs v2)))
       (vpc_cidrs v1))"
proof -
  have "image_mset g (mset (if c then [x] else [])) = (if c then {#g x#} else {#})"
    for g :: "(VPC \<times> string) \<times> (VPC \<times> string) \<Rightarrow> (VPC \<times> string) set" and c x
    by simp
  then show ?thesis
    by (simp add: cross_mset_def cross_pairs_def image_mset_concat cong: if_cong)
qed

lemma cross_mset_sym: "cross_mset P v1 v2 = cross_mset P v2 v1"
proof -
  have "(if spec_cidrs_overlap P c2 c1 then {#{(v2, c2), (v1, c1)}#} else {#}) =
        (if spec_cidrs_overlap P c1 c2 then {#{(v1, c1), (v2, c2)}#} else {#})" for c1 c2
    using spec_cidrs_overlap_sym[of P c1 c2] by (simp add: insert_commute)
  then show ?thesis
    unfolding cross_mset_sum
    using sum_list_swap_args[of "\<lambda>c1 c2. if spec_cidrs_overlap P c1 c2
             then {#{(v1, c1), (v2, c2)}#} else {#}" "vpc_cidrs v2" "vpc_cidrs v1"]
    by simp
qed

lemma pairs_sum_double:
  fixes f :: "'a \<Rightarrow> 'a \<Rightarrow> nat"
  assumes sym: "\<And>x y. f x y = f y x"
  shows "2 * pairs_sum f xs + sum_list (map (\<lambda>x. f x x) xs) =
         sum_list (map (\<lambda>x. sum_list (map (f x) xs)) xs)"
proof (induction xs)
  case Nil
  then show ?case by simp
next
  case (Cons a xs)
  have "sum_list (map (\<lambda>x. f x a) xs) = sum_list (map (f a) xs)"
    using sym by (simp cong: map_cong)
  then show ?case
    using Cons.IH by (simp add: sum_list_addf)
qed

lemma pairs_sum_mset:
  fixes f :: "'a \<Rightarrow> 'a \<Rightarrow> nat"
  assumes sym: "\<And>x y. f x y = f y x" and eq: "mset xs = mset ys"
  shows "pairs_sum f xs = pairs_sum f ys"
proof -
  have full: "sum_list (map (\<lambda>x. sum_list (map (f x) zs)) zs) =
        sum_mset (image_mset (\<lambda>x. sum_mset (image_mset (f x) (mset zs))) (mset zs))" for zs
    by (simp add: sum_mset_sum_list[symmetric])
  have diag: "sum_list (map (\<lambda>x. f x x) zs) = sum_mset (image_mset (\<lambda>x. f x x) (mset zs))"
    for zs
    by (simp add: sum_mset_sum_list[symmetric])
  have "2 * pairs_sum f xs + sum_list (map (\<lambda>x. f x x) xs) =
        2 * pairs_sum f ys + sum_list (map (\<lambda>x. f x x) ys)"
    using pairs_sum_double[of f xs, OF sym] pairs_sum_double[of f ys, OF sym] full eq by simp
  moreover have "sum_list (map (\<lambda>x. f x x) xs) = sum_list (map (\<lambda>x. f x x) ys)"
    using diag eq by simp
  ultimately show ?thesis by simp
qed

lemma count_sum_list:
  "count (sum_list (map f xs)) k = sum_list (map (\<lambda>x. count (f x) k) xs)"
  by (induction xs) simp_all

lemma count_pairs_sum:
  "count (pairs_sum F xs) k = pairs_sum (\<lambda>x y. count (F x y) k) xs"
  by (induction xs) (simp_all add: count_sum_list)

lemma pairs_sum_permute:
  fixes F :: "'a \<Rightarrow> 'a \<Rightarrow> 'b multiset"
  assumes sym: "\<And>x y. F x y = F y x" and eq: "mset xs = mset ys"
  shows "pairs_sum F xs = pairs_sum F ys"
proof (rule multiset_eqI)
  fix k
  have "pairs_sum (\<lambda>x y. count (F x y) k) xs = pairs_sum (\<lambda>x y. count (F x y) k) ys"
    by (rule pairs_sum_mset[OF _ eq]) (simp add: sym)
  then show "count (pairs_sum F xs) k = count (pairs_sum F ys) k"
    by (simp add: count_pairs_sum)
qed

lemma spec_overlapping_pairs_permute:
  assumes "mset vs' = mset vs"
  shows "image_mset (\<lambda>(x, y). {x, y}) (mset (spec_overlapping_pairs P vs')) =
         image_mset (\<lambda>(x, y). {x, y}) (mset (spec_overlapping_pairs P vs))"
  unfolding pairs_image_mset
  by (rule pairs_sum_permute[OF cross_mset_sym assms])

text \<open>Overlap of well-formed networks is the meeting of their address ranges.\<close>

lemma pow_diff_push:
  assumes "h \<le> m"
  shows "(2::nat) ^ m - 2 ^ h = push_bit h (mask (m - h))"
proof -
  have "(2::nat) ^ m = 2 ^ (m - h) * 2 ^ h"
    using assms by (simp flip: power_add)
  then show ?thesis
    by (simp add: push_bit_eq_mult mask_eq_exp_minus_1 diff_mult_distrib)
qed

lemma bit_pow_diff: "h \<le> m \<Longrightarrow> bit ((2::nat) ^ m - 2 ^ h) i \<longleftrightarrow> h \<le> i \<and> i < m"
  by (auto simp: pow_diff_push bit_push_bit_iff bit_mask_iff)

lemma and_netmask:
  assumes "h \<le> m" "ip < 2 ^ m"
  shows "(ip::nat) AND (2 ^ m - 2 ^ h) = push_bit h (drop_bit h ip)"
proof (rule bit_eqI)
  fix i
  have "bit ip i \<Longrightarrow> i < m"
    using assms(2) by (metis bit_take_bit_iff take_bit_nat_eq_self)
  then show "bit (ip AND (2 ^ m - 2 ^ h)) i = bit (push_bit h (drop_bit h ip)) i"
    using assms(1) by (auto simp: bit_and_iff bit_pow_diff bit_push_bit_iff bit_drop_bit_eq)
qed

lemma push_drop: "push_bit h (drop_bit h (ip::nat)) = (ip div 2 ^ h) * 2 ^ h"
  by (simp add: push_bit_eq_mult drop_bit_eq_div)

lemma or_hostmask:
  assumes "(a::nat) AND (2 ^ h - 1) = 0"
  shows "a OR (2 ^ h - 1) = a + (2 ^ h - 1)"
  using assms by (simp add: disjunctive_add_eq_or)

lemma and_hostmask_dvd: "(a::nat) AND (2 ^ h - 1) = 0 \<longleftrightarrow> 2 ^ h dvd a"
  by (metis mask_eq_exp_minus_1 take_bit_eq_mask take_bit_eq_0_iff)

lemma wf_broadcast:
  assumes "wf_net n"
  shows "broadcast_address n = net_address n + hostmask n"
  using assms unfolding wf_net_def broadcast_address_def hostmask_def
  by (metis or_hostmask)

lemma wf_netmask:
  "netmask n = 2 ^ max_prefixlen (net_version n)
               - 2 ^ (max_prefixlen (net_version n) - net_prefixlen n)"
  by (simp add: netmask_def hostmask_def)

lemma div_eq_interval:
  assumes "0 < (c::nat)"
  shows "ip div c = k \<longleftrightarrow> k * c \<le> ip \<and> ip < (k + 1) * c"
proof
  assume "ip div c = k"
  then have "ip = k * c + ip mod c" by (metis div_mult_mod_eq)
  moreover have "ip mod c < c" using assms by simp
  ultimately show "k * c \<le> ip \<and> ip < (k + 1) * c"
    by (metis add_mult_distrib le_add1 mult_1 nat_add_left_cancel_less)
next
  assume "k * c \<le> ip \<and> ip < (k + 1) * c"
  then show "ip div c = k"
    by (intro div_nat_eqI) (simp_all add: mult.commute)
qed

lemma div_interval:
  assumes "(2::nat) ^ h dvd a"
  shows "(ip div 2 ^ h) * 2 ^ h = a \<longleftrightarrow> a \<le> ip \<and> ip \<le> a + (2 ^ h - 1)"
proof -
  from assms obtain k where k: "a = k * 2 ^ h" by (metis dvd_def mult.commute)
  have "(ip div 2 ^ h) * 2 ^ h = k * 2 ^ h \<longleftrightarrow> ip div 2 ^ h = k"
    by simp
  also have "\<dots> \<longleftrightarrow> k * 2 ^ h \<le> ip \<and> ip < (k + 1) * 2 ^ h"
    by (rule div_eq_interval) simp
  also have "\<dots> \<longleftrightarrow> k * 2 ^ h \<le> ip \<and> ip \<le> k * 2 ^ h + (2 ^ h - 1)"
  proof -
    have "(0::nat) < 2 ^ h" by simp
    moreover have "(k + 1) * 2 ^ h = k * 2 ^ h + (2::nat) ^ h"
      by (simp add: add_mult_distrib)
    ultimately show ?thesis by linarith
  qed
  finally show ?thesis unfolding k .
qed

lemma wf_contains:
  assumes "wf_net n" "ip < 2 ^ max_prefixlen (net_version n)"
  shows "net_contains n (net_version n) ip \<longleftrightarrow> net_address n \<le> ip \<and> ip \<le> broadcast_address n"
proof -
  let ?m = "max_prefixlen (net_version n)"
  let ?h = "?m - net_prefixlen n"
  have "ip AND netmask n = (ip div 2 ^ ?h) * 2 ^ ?h"
    using assms(2) by (simp add: wf_netmask and_netmask push_drop)
  moreover have "2 ^ ?h dvd net_address n"
    using assms(1) unfolding wf_net_def hostmask_def by (metis and_hostmask_dvd)
  ultimately show ?thesis
    using div_interval[of ?h "net_address n" ip] wf_broadcast[OF assms(1)]
    by (simp add: net_contains_def hostmask_def)
qed

lemma wf_broadcast_bound:
  assumes "wf_net n"
  shows "broadcast_address n < 2 ^ max_prefixlen (net_version n)"
proof -
  let ?m = "max_prefixlen (net_version n)"
  let ?h = "?m - net_prefixlen n"
  have "2 ^ ?h dvd net_address n"
    using assms unfolding wf_net_def hostmask_def by (metis and_hostmask_dvd)
  then obtain k where k: "net_address n = k * 2 ^ ?h"
    by (metis dvd_def mult.commute)
  have m: "(2::nat) ^ ?m = 2 ^ (?m - ?h) * 2 ^ ?h"
    by (simp flip: power_add)
  have lt: "net_address n < 2 ^ ?m"
    using assms by (simp add: wf_net_def)
  have "k * 2 ^ ?h < 2 ^ (?m - ?h) * 2 ^ ?h"
    using lt k m by metis
  then have "k < 2 ^ (?m - ?h)" by simp
  then have "(k + 1) * 2 ^ ?h \<le> 2 ^ (?m - ?h) * (2::nat) ^ ?h"
    by (intro mult_le_mono1) simp
  moreover have "(k + 1) * 2 ^ ?h = k * 2 ^ ?h + (2::nat) ^ ?h"
    by (simp add: add_mult_distrib)
  moreover have "(0::nat) < 2 ^ ?h" by simp
  ultimately have "k * 2 ^ ?h + (2 ^ ?h - 1) < (2::nat) ^ ?m"
    unfolding m by linarith
  then show ?thesis
    using wf_broadcast[OF assms] k by (simp add: hostmask_def)
qed

lemma wf_overlaps:
  assumes "wf_net a" "wf_net b"
  shows "overlaps a b \<longleftrightarrow> net_addresses a \<inter> net_addresses b \<noteq> {}"
proof (cases "net_version a = net_version b")
  case False
  then show ?thesis
    by (auto simp: overlaps_def net_contains_def net_addresses_def)
next
  case True
  have la: "net_address a \<le> broadcast_address a" and lb: "net_address b \<le> broadcast_address b"
    using assms by (simp_all add: wf_broadcast)
  have ba: "net_address a < 2 ^ max_prefixlen (net_version b)"
    "broadcast_address a < 2 ^ max_prefixlen (net_version b)"
    using assms(1) wf_broadcast_bound[OF assms(1)] True by (simp_all add: wf_net_def)
  have bb: "net_address b < 2 ^ max_prefixlen (net_version a)"
    "broadcast_address b < 2 ^ max_prefixlen (net_version a)"
    using assms(2) wf_broadcast_bound[OF assms(2)] True by (simp_all add: wf_net_def)
  have c: "net_contains b (net_version a) ip \<longleftrightarrow> net_address b \<le> ip \<and> ip \<le> broadcast_address b"
    if "ip < 2 ^ max_prefixlen (net_version b)" for ip
    using wf_contains[OF assms(2) that] True by simp
  have d: "net_contains a (net_version b) ip \<longleftrightarrow> net_address a \<le> ip \<and> ip \<le> broadcast_address a"
    if "ip < 2 ^ max_prefixlen (net_version a)" for ip
    using wf_contains[OF assms(1) that] True by simp
  have "overlaps a b \<longleftrightarrow>
        net_address a \<le> broadcast_address b \<and> net_address b \<le> broadcast_address a"
    unfolding overlaps_def using c[OF ba(1)] c[OF ba(2)] d[OF bb(1)] d[OF bb(2)] la lb
    by auto
  also have "\<dots> \<longleftrightarrow> net_addresses a \<inter> net_addresses b \<noteq> {}"
  proof
    assume h: "net_address a \<le> broadcast_address b \<and> net_address b \<le> broadcast_address a"
    have "(net_version a, max (net_address a) (net_address b)) \<in> net_addresses a \<inter> net_addresses b"
      using h la lb True by (auto simp: net_addresses_def)
    then show "net_addresses a \<inter> net_addresses b \<noteq> {}" by blast
  next
    assume "net_addresses a \<inter> net_addresses b \<noteq> {}"
    then show "net_address a \<le> broadcast_address b \<and> net_address b \<le> broadcast_address a"
      by (auto simp: net_addresses_def)
  qed
  finally show ?thesis .
qed

text \<open>The IPv4 model of the parser yields well-formed networks only.\<close>

lemma parse_octet_bound: "parse_octet s = Some v \<Longrightarrow> v \<le> 255"
  by (auto simp: parse_octet_def split: if_splits)

lemma ip_int_from_string_bound:
  assumes "ip_int_from_string s = Some ip"
  shows "ip < 2 ^ 32"
proof -
  from assms obtain a b c d where
    m: "map parse_octet (split_on CHR ''.'' s) = [Some a, Some b, Some c, Some d]"
    and ip: "ip = ((a * 256 + b) * 256 + c) * 256 + d"
    by (auto simp: ip_int_from_string_def split: if_splits list.splits option.splits)
  from m obtain w x y z where "parse_octet w = Some a" "parse_octet x = Some b"
    "parse_octet y = Some c" "parse_octet z = Some d"
    by (auto simp: map_eq_Cons_conv)
  then have "a \<le> 255" "b \<le> 255" "c \<le> 255" "d \<le> 255"
    by (auto dest: parse_octet_bound)
  then show ?thesis unfolding ip by simp
qed

lemma make_netmask_bound: "make_netmask m = Some p \<Longrightarrow> p \<le> 32"
  by (auto simp: make_netmask_def prefix_from_prefix_string_def prefix_from_ip_string_def
      prefix_from_ip_int_def find_Some_iff split: option.splits if_splits)

lemma nat_and_le: "(a::nat) AND b \<le> a"
  by (metis AND_upper1 of_nat_0_le_iff of_nat_and_eq of_nat_le_iff)

lemma ipv4_network_wf:
  assumes "ipv4_network s = Some n"
  shows "wf_net n"
proof -
  from assms consider
    (plain) addr ip where "ip_int_from_string addr = Some ip"
      "n = \<lparr>net_version = 4, net_address = ip, net_scope_id = None, net_prefixlen = 32\<rparr>"
  | (masked) addr m ip p where "ip_int_from_string addr = Some ip" "make_netmask m = Some p"
      "n = \<lparr>net_version = 4, net_address = ip AND (2 ^ 32 - 2 ^ (32 - p)),
             net_scope_id = None, net_prefixlen = p\<rparr>"
    by (auto simp: ipv4_network_def split: list.splits option.splits)
  then show ?thesis
  proof cases
    case plain
    then show ?thesis
      using ip_int_from_string_bound[OF plain(1)]
      by (simp add: wf_net_def hostmask_def max_prefixlen_def)
  next
    case masked
    have ip: "ip < 2 ^ 32" by (rule ip_int_from_string_bound[OF masked(1)])
    have p: "p \<le> 32" by (rule make_netmask_bound[OF masked(2)])
    have "ip AND (2 ^ 32 - 2 ^ (32 - p)) = push_bit (32 - p) (drop_bit (32 - p) ip)"
      using ip by (intro and_netmask) simp_all
    then have "2 ^ (32 - p) dvd ip AND (2 ^ 32 - 2 ^ (32 - p))"
      by (simp add: push_bit_eq_mult)
    then have "(ip AND (2 ^ 32 - 2 ^ (32 - p))) AND (2 ^ (32 - p) - 1) = 0"
      by (simp only: and_hostmask_dvd)
    moreover have "ip AND (2 ^ 32 - 2 ^ (32 - p)) < 2 ^ 32"
      using ip nat_and_le[of ip "2 ^ 32 - 2 ^ (32 - p)"] by linarith
    ultimately show ?thesis
      using p masked(3) unfolding wf_net_def hostmask_def max_prefixlen_def by simp
  qed
qed

lemma ipv4_parser_wf: "ipv4_parser s = Inr n \<Longrightarrow> wf_net n"
  by (auto simp: ipv4_parser_def ipv4_network_wf split: option.splits)

text \<open>
  C9. With \<open>vs\<close> the VPCs of the catalog in order, the findings of the overlap check are,
  in order, one for each overlapping pair of \<open>vs\<close>: for every pair of positions \<open>i < j\<close>
  (every unordered pair of distinct VPCs, once, and no VPC with itself), for every CIDR of
  \<open>vs ! i\<close> and every CIDR of \<open>vs ! j\<close>, one finding exactly when both CIDRs parse and the
  networks overlap. The finding is of type \<open>overlap\<close> and severity \<open>warning\<close>; its location
  and its message name the two VPCs, the message with the two CIDRs. A CIDR that does not
  parse yields no finding, and the check always returns its list. Overlap of two CIDRs is
  symmetric, and for well-formed parsed networks it means that the two networks share an
  address. For every order of the same VPCs the overlapping pairs are the same, up to the
  order of the two sides of a pair.
\<close>

theorem check_cidr_overlaps_spec:
  "check_cidr_overlaps P d =
     map (\<lambda>((vpc1, cidr1), (vpc2, cidr2)).
            \<lparr>issue_type = ''overlap'', issue_severity = ''warning'',
             issue_location = vpc_name vpc1 @ '' / '' @ vpc_name vpc2,
             issue_message = ''CIDR overlap: '' @ vpc_name vpc1 @ '' ('' @ cidr1
                             @ '') overlaps with '' @ vpc_name vpc2 @ '' ('' @ cidr2 @ '')''\<rparr>)
       (spec_overlapping_pairs P (dict_values (vpcs d)))
   \<and> spec_cidrs_overlap P c1 c2 = spec_cidrs_overlap P c2 c1
   \<and> ((\<forall>n. P c1 = Inr n \<longrightarrow> wf_net n) \<and> (\<forall>n. P c2 = Inr n \<longrightarrow> wf_net n) \<longrightarrow>
        spec_cidrs_overlap P c1 c2 =
          (\<exists>n1 n2. P c1 = Inr n1 \<and> P c2 = Inr n2 \<and> net_addresses n1 \<inter> net_addresses n2 \<noteq> {}))
   \<and> (mset (dict_values (vpcs d')) = mset (dict_values (vpcs d)) \<longrightarrow>
        image_mset (\<lambda>(x, y). {x, y}) (mset (spec_overlapping_pairs P (dict_values (vpcs d')))) =
        image_mset (\<lambda>(x, y). {x, y}) (mset (spec_overlapping_pairs P (dict_values (vpcs d)))))"
proof -
  have "spec_cidrs_overlap P c1 c2 =
          (\<exists>n1 n2. P c1 = Inr n1 \<and> P c2 = Inr n2 \<and> net_addresses n1 \<inter> net_addresses n2 \<noteq> {})"
    if "(\<forall>n. P c1 = Inr n \<longrightarrow> wf_net n) \<and> (\<forall>n. P c2 = Inr n \<longrightarrow> wf_net n)"
    using that wf_overlaps
    by (cases "P c1"; cases "P c2") (simp_all add: spec_cidrs_overlap_def)
  moreover have "check_cidr_overlaps P d =
     map (\<lambda>((vpc1, cidr1), (vpc2, cidr2)).
            \<lparr>issue_type = ''overlap'', issue_severity = ''warning'',
             issue_location = vpc_name vpc1 @ '' / '' @ vpc_name vpc2,
             issue_message = ''CIDR overlap: '' @ vpc_name vpc1 @ '' ('' @ cidr1
                             @ '') overlaps with '' @ vpc_name vpc2 @ '' ('' @ cidr2 @ '')''\<rparr>)
       (spec_overlapping_pairs P (dict_values (vpcs d)))"
    unfolding check_cidr_overlaps_pairs overlap_issue_def by simp
  ultimately show ?thesis
    using spec_overlapping_pairs_permute[of "dict_values (vpcs d')" "dict_values (vpcs d)" P]
      spec_cidrs_overlap_sym[of P c1 c2]
    by simp
qed

lemma ex_vpc_names:
  "vpc_name ex_vpc_1 = ''one''" "vpc_name ex_vpc_2 = ''two''"
  "vpc_cidrs ex_vpc_1 = [''10.0.0.0/16'']" "vpc_cidrs ex_vpc_2 = [''10.0.5.0/24'', ''not-a-cidr'']"
  by (simp_all add: ex_vpc_1_def ex_vpc_2_def mk_vpc_def)

lemma ex_overlaps:
  "spec_cidrs_overlap ipv4_parser ''10.0.0.0/16'' ''10.0.5.0/24''"
  "spec_cidrs_overlap ipv4_parser ''10.0.5.0/24'' ''10.0.0.0/16''"
  "\<not> spec_cidrs_overlap ipv4_parser ''10.0.0.0/16'' ''not-a-cidr''"
  "\<not> spec_cidrs_overlap ipv4_parser ''not-a-cidr'' ''10.0.0.0/16''"
  by (simp_all add: spec_cidrs_overlap_def net_defs ipv4_parser_10_0_16 ipv4_parser_10_0_5_24
      ipv4_parser_not_a_cidr)

lemma ex_overlapping_pairs:
  "spec_overlapping_pairs ipv4_parser [ex_vpc_1, ex_vpc_2] =
     [((ex_vpc_1, ''10.0.0.0/16''), (ex_vpc_2, ''10.0.5.0/24''))]"
  "spec_overlapping_pairs ipv4_parser [ex_vpc_2, ex_vpc_1] =
     [((ex_vpc_2, ''10.0.5.0/24''), (ex_vpc_1, ''10.0.0.0/16''))]"
  by (simp_all add: spec_overlapping_pairs_Cons spec_overlapping_pairs_Nil cross_pairs_def
      ex_vpc_names ex_overlaps)

text \<open>
  VPC 1 (\<open>one\<close>) with \<open>10.0.0.0/16\<close> and VPC 2 (\<open>two\<close>) with \<open>10.0.5.0/24\<close> and a malformed
  CIDR: one warning naming both, whichever VPC the catalog holds first, and in both orders
  for the same pair; the two networks share an address.
\<close>

theorem check_cidr_overlaps_spec_witness:
  "check_cidr_overlaps ipv4_parser (ex_overlap_catalog [(''vpc-1'', ex_vpc_1), (''vpc-2'', ex_vpc_2)])
     = [\<lparr>issue_type = ''overlap'', issue_severity = ''warning'',
         issue_location = ''one / two'',
         issue_message = ''CIDR overlap: one (10.0.0.0/16) overlaps with two (10.0.5.0/24)''\<rparr>]
   \<and> check_cidr_overlaps ipv4_parser (ex_overlap_catalog [(''vpc-2'', ex_vpc_2), (''vpc-1'', ex_vpc_1)])
     = [\<lparr>issue_type = ''overlap'', issue_severity = ''warning'',
         issue_location = ''two / one'',
         issue_message = ''CIDR overlap: two (10.0.5.0/24) overlaps with one (10.0.0.0/16)''\<rparr>]
   \<and> image_mset (\<lambda>(x, y). {x, y}) (mset (spec_overlapping_pairs ipv4_parser [ex_vpc_2, ex_vpc_1]))
     = {#{(ex_vpc_1, ''10.0.0.0/16''), (ex_vpc_2, ''10.0.5.0/24'')}#}
   \<and> net_addresses \<lparr>net_version = 4, net_address = 167772160, net_scope_id = None, net_prefixlen = 16\<rparr>
       \<inter> net_addresses \<lparr>net_version = 4, net_address = 167773440, net_scope_id = None, net_prefixlen = 24\<rparr> \<noteq> {}"
proof -
  have vals: "dict_values (vpcs (ex_overlap_catalog [(''vpc-1'', ex_vpc_1), (''vpc-2'', ex_vpc_2)]))
                = [ex_vpc_1, ex_vpc_2]"
    "dict_values (vpcs (ex_overlap_catalog [(''vpc-2'', ex_vpc_2), (''vpc-1'', ex_vpc_1)]))
                = [ex_vpc_2, ex_vpc_1]"
    by (simp_all add: ex_overlap_catalog_def dict_values_def)
  have wf: "wf_net \<lparr>net_version = 4, net_address = 167772160, net_scope_id = None, net_prefixlen = 16\<rparr>"
    "wf_net \<lparr>net_version = 4, net_address = 167773440, net_scope_id = None, net_prefixlen = 24\<rparr>"
    by (simp_all add: wf_net_def hostmask_def max_prefixlen_def)
  note fwd = check_cidr_overlaps_spec
               [of ipv4_parser "ex_overlap_catalog [(''vpc-1'', ex_vpc_1), (''vpc-2'', ex_vpc_2)]"
                   "''10.0.0.0/16''" "''10.0.5.0/24''"
                   "ex_overlap_catalog [(''vpc-2'', ex_vpc_2), (''vpc-1'', ex_vpc_1)]"]
  note bwd = check_cidr_overlaps_spec
               [of ipv4_parser "ex_overlap_catalog [(''vpc-2'', ex_vpc_2), (''vpc-1'', ex_vpc_1)]"
                   "''10.0.5.0/24''" "''10.0.0.0/16''"
                   "ex_overlap_catalog [(''vpc-1'', ex_vpc_1), (''vpc-2'', ex_vpc_2)]"]
  have one: "check_cidr_overlaps ipv4_parser
               (ex_overlap_catalog [(''vpc-1'', ex_vpc_1), (''vpc-2'', ex_vpc_2)])
     = [\<lparr>issue_type = ''overlap'', issue_severity = ''warning'',
         issue_location = ''one / two'',
         issue_message = ''CIDR overlap: one (10.0.0.0/16) overlaps with two (10.0.5.0/24)''\<rparr>]"
    using fwd by (simp add: vals ex_overlapping_pairs ex_vpc_names)
  have two: "check_cidr_overlaps ipv4_parser
               (ex_overlap_catalog [(''vpc-2'', ex_vpc_2), (''vpc-1'', ex_vpc_1)])
     = [\<lparr>issue_type = ''overlap'', issue_severity = ''warning'',
         issue_location = ''two / one'',
         issue_message = ''CIDR overlap: two (10.0.5.0/24) overlaps with one (10.0.0.0/16)''\<rparr>]"
    using bwd by (simp add: vals ex_overlapping_pairs ex_vpc_names)
  have same: "image_mset (\<lambda>(x, y). {x, y}) (mset (spec_overlapping_pairs ipv4_parser [ex_vpc_2, ex_vpc_1]))
     = {#{(ex_vpc_1, ''10.0.0.0/16''), (ex_vpc_2, ''10.0.5.0/24'')}#}"
    using fwd by (simp add: vals ex_overlapping_pairs(1))
  have "net_addresses \<lparr>net_version = 4, net_address = 167772160, net_scope_id = None, net_prefixlen = 16\<rparr>
       \<inter> net_addresses \<lparr>net_version = 4, net_address = 167773440, net_scope_id = None, net_prefixlen = 24\<rparr> \<noteq> {}"
    using fwd ex_overlaps(1) wf by (simp add: ipv4_parser_10_0_16 ipv4_parser_10_0_5_24)
  with one two same show ?thesis by simp
qed

section \<open>Cross-account CIDR recovery (C7)\<close>

lemma cidr_set_of_upd:
  "cidr_set_of (m(k \<mapsto> insert c (case m k of None \<Rightarrow> {} | Some cs \<Rightarrow> cs))) a =
     (if a = k then insert c (cidr_set_of m a) else cidr_set_of m a)"
  by (simp add: cidr_set_of_def)

lemma route_candidates_Cons:
  "set (route_candidates (r # rs) a) =
     (if tr_route_type r = PROPAGATED \<and> tr_attachment_id r = Some a \<and> a \<noteq> []
         \<and> tr_destination_cidr r \<noteq> []
      then insert (tr_destination_cidr r) (set (route_candidates rs a))
      else set (route_candidates rs a))"
  by (auto simp: route_candidates_def)

lemma collect_routes_set:
  "cidr_set_of (collect_routes rs m) a = set (route_candidates rs a) \<union> cidr_set_of m a"
proof (induction rs arbitrary: m)
  case Nil
  then show ?case by (simp add: route_candidates_def)
next
  case (Cons r rs)
  show ?case
  proof (cases "tr_route_type r = PROPAGATED \<and> truthy (tr_attachment_id r)
                \<and> tr_destination_cidr r \<noteq> []")
    case True
    then obtain k where k: "tr_attachment_id r = Some k" "k \<noteq> []"
      by (auto simp: truthy_def split: option.splits)
    have "collect_routes (r # rs) m =
          collect_routes rs
            (m(k \<mapsto> insert (tr_destination_cidr r) (case m k of None \<Rightarrow> {} | Some cs \<Rightarrow> cs)))"
      using True k by simp
    then show ?thesis
      using True k by (simp only: Cons.IH cidr_set_of_upd route_candidates_Cons) auto
  next
    case False
    then have "collect_routes (r # rs) m = collect_routes rs m"
      by auto
    moreover have "set (route_candidates (r # rs) a) = set (route_candidates rs a)"
      using False by (auto simp: route_candidates_Cons truthy_def)
    ultimately show ?thesis by (simp only: Cons.IH)
  qed
qed

lemma collect_tables_set:
  "cidr_set_of (collect_tables rts m) a =
     set (concat (map (\<lambda>rt. route_candidates (trt_routes rt) a) rts)) \<union> cidr_set_of m a"
  by (induction rts arbitrary: m) (auto simp: collect_routes_set)

lemma spec_candidates_concat:
  "spec_candidates d a =
     concat (map (\<lambda>rt. route_candidates (trt_routes rt) a) (dict_values (tgw_route_tables d)))"
  by (simp add: spec_candidates_def route_candidates_def)

lemma fill_cidrs_eq:
  assumes "cidr_set_of m (att_id att) = S"
  shows "fill_cidrs m att =
     (if (att_type att = VPC \<or> att_type att = VPN) \<and> att_cidrs att = []
      then att\<lparr>att_cidrs := sorted_list_of_set S\<rparr> else att)"
proof (cases "m (att_id att)")
  case None
  then have "S = {}"
    using assms by (simp add: cidr_set_of_def)
  then show ?thesis
    using None by (auto simp: fill_cidrs_def Let_def)
next
  case (Some cs)
  then have "S = cs"
    using assms by (simp add: cidr_set_of_def)
  then show ?thesis
    using Some by (auto simp: fill_cidrs_def Let_def)
qed

text \<open>
  C7. Cross-account CIDR recovery changes nothing in the catalog but the CIDR lists of
  attachments. An attachment of type VPC or VPN whose CIDR list is empty receives the
  sorted list, without duplicates, of its candidates: the destination CIDRs of the
  propagated routes, over all TGW route tables, that carry a destination CIDR and the
  attachment's id. Every other attachment, in particular every one whose CIDR list is
  not empty, is left as it is.
\<close>

theorem extract_cross_account_cidrs_spec:
  "extract_cross_account_cidrs d =
     d\<lparr>tgw_attachments :=
         map (\<lambda>(k, att).
                (k, if (att_type att = VPC \<or> att_type att = VPN) \<and> att_cidrs att = []
                    then att\<lparr>att_cidrs :=
                               sorted_list_of_set (set (spec_candidates d (att_id att)))\<rparr>
                    else att))
           (tgw_attachments d)\<rparr>"
proof -
  have "cidr_set_of Map.empty a = {}" for a
    by (simp add: cidr_set_of_def)
  then have key: "cidr_set_of (collect_tables (dict_values (tgw_route_tables d)) Map.empty) a =
        set (spec_candidates d a)" for a
    by (simp only: collect_tables_set spec_candidates_concat) simp
  show ?thesis
    by (simp add: extract_cross_account_cidrs_def Let_def fill_cidrs_eq[OF key])
qed

lemma ex_recovery_correlated:
  "tgw_attachments (correlate_data ex_recovery_catalog) =
     [(''att-a'', (mk_attachment ''att-a'' VPC ''vpc-a'' [''10.0.0.0/16''] None)
                    \<lparr>att_name := ''local-app''\<rparr>),
      (''att-b'', mk_attachment ''att-b'' VPC ''vpc-b'' [] None),
      (''att-c'', mk_attachment ''att-c'' VPN ''vpn-c'' [] None),
      (''att-d'', mk_attachment ''att-d'' PEERING ''tgw-attach-peer'' [] None)]
   \<and> tgw_route_tables (correlate_data ex_recovery_catalog) = ex_recovery_tables"
  by (simp add: correlate_data_def ex_recovery_catalog_def NetworkData_init_def
      mk_attachment_def mk_vpc_def dict_get_def)

text \<open>
  After correlation \<open>att-a\<close> has the CIDR of its local VPC and keeps it, although a route
  propagates \<open>10.99.0.0/16\<close> for it; \<open>att-b\<close> and \<open>att-c\<close> receive their candidates, sorted
  and without the duplicate, the static and the prefix-list route left out; the peering
  attachment \<open>att-d\<close> stays without CIDRs.
\<close>

theorem extract_cross_account_cidrs_spec_witness:
  "map (\<lambda>kv. (fst kv, att_cidrs (snd kv)))
     (tgw_attachments (extract_cross_account_cidrs (correlate_data ex_recovery_catalog))) =
   [(''att-a'', [''10.0.0.0/16'']),
    (''att-b'', [''10.1.0.0/16'', ''10.2.0.0/16'']),
    (''att-c'', [''192.168.0.0/24'']),
    (''att-d'', [])]"
proof -
  have c: "spec_candidates (correlate_data ex_recovery_catalog) ''att-b'' =
             [''10.2.0.0/16'', ''10.1.0.0/16'', ''10.2.0.0/16'']"
          "spec_candidates (correlate_data ex_recovery_catalog) ''att-c'' = [''192.168.0.0/24'']"
    by (simp_all add: spec_candidates_def ex_recovery_correlated ex_recovery_tables_def
        dict_values_def mk_tgw_route_table_def mk_tgw_route_def)
  show ?thesis
    using extract_cross_account_cidrs_spec
            [of "correlate_data ex_recovery_catalog", unfolded sorted_list_of_set_sort_remdups]
    by (simp add: ex_recovery_correlated c mk_attachment_def)
qed

section \<open>Association round trip (C6)\<close>

lemma dict_get_modify:
  "dict_get (dict_modify d k f) k' = (if k' = k then map_option f (dict_get d k) else dict_get d k')"
  by (induction d) (auto simp: dict_get_def)

lemma dict_get_set:
  "dict_get (dict_set d k v) k' = (if k' = k then Some v else dict_get d k')"
  by (induction d) (auto simp: dict_get_def)

lemma dict_get_map_values:
  "dict_get (map (\<lambda>(k, v). (k, f v)) d) k = map_option f (dict_get d k)"
  by (simp add: dict_get_def map_of_map_values)

lemmas view_defs = table_assocs_def att_assoc_def table_view_def att_view_def

lemma assoc_step_table:
  "table_assocs (assoc_step t a d) t' =
     (if t' = t then map_option (\<lambda>as. as @ [a]) (table_assocs d t) else table_assocs d t')"
  by (auto simp: assoc_step_def view_defs Let_def dict_get_modify option.map_comp comp_def)

lemma assoc_step_att:
  "att_assoc (assoc_step t a d) a' =
     (if a' = a \<and> att_assoc d a \<noteq> None then Some (Some t) else att_assoc d a')"
  by (auto simp: assoc_step_def view_defs Let_def dict_get_modify dict_contains_get
      option.map_comp comp_def)

lemma assoc_step_forward:
  assumes j1: "assoc_forward d" and t: "table_assocs d t \<noteq> None"
  shows "assoc_forward (assoc_step t a d)"
  unfolding assoc_forward_def
proof (intro allI impI)
  fix a' t'
  assume h: "att_assoc (assoc_step t a d) a' = Some (Some t')"
  from t obtain as0 where as0: "table_assocs d t = Some as0" by auto
  show "\<exists>as. table_assocs (assoc_step t a d) t' = Some as \<and> a' \<in> set as"
  proof (cases "a' = a \<and> att_assoc d a \<noteq> None")
    case True
    with h have "t' = t" by (simp add: assoc_step_att)
    then show ?thesis using True as0 by (simp add: assoc_step_table)
  next
    case False
    with h have "att_assoc d a' = Some (Some t')"
      by (auto simp: assoc_step_att split: if_splits)
    with j1 obtain as where "table_assocs d t' = Some as" "a' \<in> set as"
      unfolding assoc_forward_def by blast
    then show ?thesis by (auto simp: assoc_step_table)
  qed
qed

lemma assoc_step_backward:
  assumes j2: "assoc_backward d"
  shows "assoc_backward (assoc_step t a d)"
  unfolding assoc_backward_def
proof (intro allI impI, elim conjE)
  fix t' as' x
  assume tb: "table_assocs (assoc_step t a d) t' = Some as'" and x: "x \<in> set as'"
    and nn: "att_assoc (assoc_step t a d) x \<noteq> None"
  show "att_assoc (assoc_step t a d) x \<noteq> Some None"
  proof (cases "x = a \<and> att_assoc d a \<noteq> None")
    case True
    then show ?thesis by (simp add: assoc_step_att)
  next
    case False
    then have same: "att_assoc (assoc_step t a d) x = att_assoc d x"
      by (simp add: assoc_step_att)
    with nn False have xa: "x \<noteq> a" by auto
    from tb obtain as where "table_assocs d t' = Some as" "x \<in> set as"
      using x xa by (auto simp: assoc_step_table split: if_splits)
    with j2 nn same show ?thesis unfolding assoc_backward_def by metis
  qed
qed

lemma assoc_step_table_view:
  "table_view (assoc_step t a d) t' =
     (if t' = t then map_option (\<lambda>p. (fst p, snd p @ [a])) (table_view d t)
      else table_view d t')"
  by (simp add: assoc_step_def table_view_def Let_def dict_get_modify option.map_comp comp_def)

lemma assoc_step_att_view:
  "att_view (assoc_step t a d) a' =
     (if a' = a then map_option (\<lambda>p. (fst p, Some t)) (att_view d a) else att_view d a')"
  by (simp add: assoc_step_def att_view_def Let_def dict_get_modify dict_contains_get
      option.map_comp comp_def)

lemma assoc_step_keyed:
  assumes "keyed_by_id d"
  shows "keyed_by_id (assoc_step t a d)"
  unfolding keyed_by_id_def
proof (intro conjI allI impI)
  fix t' i as
  assume "table_view (assoc_step t a d) t' = Some (i, as)"
  then show "i = t'"
    using assms by (auto simp: keyed_by_id_def assoc_step_table_view split: if_splits)
next
  fix a' i r
  assume "att_view (assoc_step t a d) a' = Some (i, r)"
  then show "i = a'"
    using assms by (auto simp: keyed_by_id_def assoc_step_att_view split: if_splits)
qed

lemma load_association_records_step:
  "load_association_records rt_id (assoc # rest) d =
     load_association_records rt_id rest
       (if ras_State assoc = Some ''associated'' \<and> truthy (ras_TransitGatewayAttachmentId assoc)
        then assoc_step rt_id (the (ras_TransitGatewayAttachmentId assoc)) d else d)"
  by (simp add: assoc_step_def Let_def)

lemma load_association_records_inv:
  assumes "assoc_forward d" "assoc_backward d" "keyed_by_id d" "table_assocs d rt_id \<noteq> None"
  shows "assoc_forward (load_association_records rt_id records d)
       \<and> assoc_backward (load_association_records rt_id records d)
       \<and> keyed_by_id (load_association_records rt_id records d)"
  using assms
proof (induction records arbitrary: d)
  case Nil
  then show ?case by simp
next
  case (Cons assoc rest)
  let ?d' = "if ras_State assoc = Some ''associated'' \<and> truthy (ras_TransitGatewayAttachmentId assoc)
        then assoc_step rt_id (the (ras_TransitGatewayAttachmentId assoc)) d else d"
  have "assoc_forward ?d'" "assoc_backward ?d'" "keyed_by_id ?d'" "table_assocs ?d' rt_id \<noteq> None"
    using Cons.prems
    by (auto simp: assoc_step_forward assoc_step_backward assoc_step_keyed assoc_step_table)
  from Cons.IH[OF this] show ?case
    unfolding load_association_records_step .
qed

lemma load_associations_inv:
  assumes "assoc_forward d" "assoc_backward d" "keyed_by_id d"
  shows "assoc_forward (load_associations files d) \<and> assoc_backward (load_associations files d)
       \<and> keyed_by_id (load_associations files d)"
  using assms
proof (induction files arbitrary: d)
  case Nil
  then show ?case by simp
next
  case (Cons f files)
  obtain rt_id records where f: "f = (rt_id, records)" by (cases f)
  show ?case
  proof (cases "dict_contains (tgw_route_tables d) rt_id")
    case True
    then have "table_assocs d rt_id \<noteq> None"
      by (simp add: view_defs dict_contains_get)
    from load_association_records_inv[OF Cons.prems this, of records]
    show ?thesis using True f Cons.IH by simp
  next
    case False
    then show ?thesis using f Cons.IH Cons.prems by simp
  qed
qed

text \<open>The later steps of the load keep the association side of the catalog.\<close>

lemma load_propagation_records_view:
  "table_view (load_propagation_records rt_id records d) = table_view d
   \<and> att_view (load_propagation_records rt_id records d) = att_view d"
proof (induction records arbitrary: d)
  case Nil
  then show ?case by simp
next
  case (Cons r rest)
  show ?case
    by (auto simp: Cons.IH Let_def table_view_def att_view_def dict_get_modify
        option.map_comp comp_def fun_eq_iff)
qed

lemma load_propagations_view:
  "table_view (load_propagations files d) = table_view d
   \<and> att_view (load_propagations files d) = att_view d"
  by (induction files arbitrary: d) (auto simp: load_propagation_records_view)

lemma load_route_records_view:
  "table_view (load_route_records rt_id records d) = table_view d
   \<and> att_view (load_route_records rt_id records d) = att_view d"
proof (induction records arbitrary: d)
  case Nil
  then show ?case by simp
next
  case (Cons r rest)
  show ?case
    by (auto simp: Cons.IH table_view_def att_view_def dict_get_modify
        option.map_comp comp_def fun_eq_iff)
qed

lemma load_routes_view:
  "table_view (load_routes files d) = table_view d
   \<and> att_view (load_routes files d) = att_view d"
  by (induction files arbitrary: d) (auto simp: load_route_records_view)

lemma correlate_loop_view:
  "map (\<lambda>p. (fst p, att_id (snd p), att_associated_route_table_id (snd p)))
     (fst (correlate_loop atts vs)) =
   map (\<lambda>p. (fst p, att_id (snd p), att_associated_route_table_id (snd p))) atts"
proof (induction atts arbitrary: vs)
  case Nil
  then show ?case by simp
next
  case (Cons p atts)
  obtain k att where p: "p = (k, att)" by (cases p)
  show ?case
    unfolding p
    by (simp add: Let_def split_beta Cons.IH split: option.splits)
qed

lemma map_of_view:
  assumes "map (\<lambda>p. (fst p, h (snd p))) xs = map (\<lambda>p. (fst p, h (snd p))) ys"
  shows "map_option h (map_of xs a) = map_option h (map_of ys a)"
  using assms map_of_map_values[of h xs a] map_of_map_values[of h ys a]
  by (simp add: case_prod_unfold)

lemma correlate_data_view:
  "table_view (correlate_data d) = table_view d \<and> att_view (correlate_data d) = att_view d"
proof -
  have "tgw_attachments (correlate_data d) = fst (correlate_loop (tgw_attachments d) (vpcs d))"
    by (simp add: correlate_data_def split_beta)
  moreover have "tgw_route_tables (correlate_data d) = tgw_route_tables d"
    by (simp add: correlate_data_def split_beta)
  ultimately show ?thesis
    using map_of_view[of "\<lambda>x. (att_id x, att_associated_route_table_id x)",
                      OF correlate_loop_view[of "tgw_attachments d" "vpcs d"]]
    by (simp add: table_view_def att_view_def fun_eq_iff dict_get_def)
qed

lemma fill_cidrs_view:
  "att_id (fill_cidrs m att) = att_id att
   \<and> att_associated_route_table_id (fill_cidrs m att) = att_associated_route_table_id att"
  by (auto simp: fill_cidrs_def Let_def split: option.splits)

lemma extract_view:
  "table_view (extract_cross_account_cidrs d) = table_view d
   \<and> att_view (extract_cross_account_cidrs d) = att_view d"
  by (simp add: extract_cross_account_cidrs_def Let_def table_view_def att_view_def fun_eq_iff
      dict_get_map_values option.map_comp comp_def fill_cidrs_view)

lemma classify_view:
  "table_view (classify_subnets d) = table_view d \<and> att_view (classify_subnets d) = att_view d"
  by (simp add: classify_subnets_def table_view_def att_view_def fun_eq_iff)

lemma view_invariants:
  assumes "table_view d' = table_view d" "att_view d' = att_view d"
  shows "assoc_forward d' = assoc_forward d" "assoc_backward d' = assoc_backward d"
    "keyed_by_id d' = keyed_by_id d"
  using assms
  by (simp_all add: assoc_forward_def assoc_backward_def keyed_by_id_def table_assocs_def
      att_assoc_def)


lemma load_tgw_attachments_get:
  "dict_get (tgw_attachments (load_tgw_attachments raws d)) a = Some att \<Longrightarrow>
   dict_get (tgw_attachments d) a = Some att
   \<or> (\<exists>raw \<in> set raws. rat_TransitGatewayAttachmentId raw = a
         \<and> att = make_attachment (local_account_id d) raw)"
proof (induction raws arbitrary: d)
  case Nil
  then show ?case by simp
next
  case (Cons raw raws)
  from Cons.IH[OF Cons.prems[simplified]] show ?case
    by (auto simp: dict_get_set split: if_splits)
qed

lemma load_tgw_attachments_tables:
  "tgw_route_tables (load_tgw_attachments raws d) = tgw_route_tables d"
  by (induction raws arbitrary: d) auto

lemma load_tgw_route_tables_get:
  "dict_get (tgw_route_tables (load_tgw_route_tables raws d)) t = Some rt \<Longrightarrow>
   dict_get (tgw_route_tables d) t = Some rt
   \<or> (\<exists>raw \<in> set raws. rrt_TransitGatewayRouteTableId raw = t \<and> rt = make_tgw_route_table raw)"
proof (induction raws arbitrary: d)
  case Nil
  then show ?case by simp
next
  case (Cons raw raws)
  from Cons.IH[OF Cons.prems[simplified]] show ?case
    by (auto simp: dict_get_set split: if_splits)
qed

lemma load_tgw_route_tables_atts:
  "tgw_attachments (load_tgw_route_tables raws d) = tgw_attachments d"
  by (induction raws arbitrary: d) auto

lemma load_tgws_frame:
  "tgw_attachments (load_tgws raws d) = tgw_attachments d
   \<and> tgw_route_tables (load_tgws raws d) = tgw_route_tables d"
  by (induction raws arbitrary: d) auto

lemma fresh_invariants:
  fixes acct gws atts rts
  defines "d0 \<equiv> load_tgw_route_tables rts (load_tgw_attachments atts
                   (load_tgws gws (load_metadata acct NetworkData_init)))"
  shows "assoc_forward d0 \<and> assoc_backward d0 \<and> keyed_by_id d0"
proof -
  have a: "i = a \<and> r = None" if "att_view d0 a = Some (i, r)" for a i r
  proof -
    from that obtain att where att: "dict_get (tgw_attachments d0) a = Some att"
      and ir: "i = att_id att" "r = att_associated_route_table_id att"
      by (auto simp: att_view_def)
    from att have "dict_get (tgw_attachments (load_tgw_attachments atts
                   (load_tgws gws (load_metadata acct NetworkData_init)))) a = Some att"
      by (simp add: d0_def load_tgw_route_tables_atts)
    from load_tgw_attachments_get[OF this]
    obtain raw where "rat_TransitGatewayAttachmentId raw = a"
      "att = make_attachment (local_account_id (load_tgws gws (load_metadata acct NetworkData_init))) raw"
      by (auto simp: load_tgws_frame load_metadata_def NetworkData_init_def dict_get_def)
    then show ?thesis using ir by (simp add: make_attachment_def Let_def)
  qed
  have t: "i = t \<and> as = []" if "table_view d0 t = Some (i, as)" for t i as
  proof -
    from that obtain rt where rt: "dict_get (tgw_route_tables d0) t = Some rt"
      and ir: "i = trt_id rt" "as = trt_associations rt"
      by (auto simp: table_view_def)
    from load_tgw_route_tables_get[OF rt[unfolded d0_def]]
    obtain raw where "rrt_TransitGatewayRouteTableId raw = t" "rt = make_tgw_route_table raw"
      by (auto simp: load_tgw_attachments_tables load_tgws_frame load_metadata_def
          NetworkData_init_def dict_get_def)
    then show ?thesis using ir by (simp add: make_tgw_route_table_def)
  qed
  have "assoc_forward d0"
    unfolding assoc_forward_def using a by (auto simp: att_assoc_def)
  moreover have "assoc_backward d0"
    unfolding assoc_backward_def using t by (fastforce simp: table_assocs_def)
  moreover have "keyed_by_id d0"
    unfolding keyed_by_id_def using a t by blast
  ultimately show ?thesis by simp
qed

lemma vpc_side_view:
  "table_view (d\<lparr>vpcs := vs, vpc_route_tables := vrts, subnets := sns\<rparr>) = table_view d
   \<and> att_view (d\<lparr>vpcs := vs, vpc_route_tables := vrts, subnets := sns\<rparr>) = att_view d"
  by (simp add: table_view_def att_view_def fun_eq_iff)

lemma loaded_invariants:
  assumes "d = finish_load vs vrts sns
                 (load_tgw_data acct gws atts rts association_files propagation_files route_files)"
  shows "assoc_forward d \<and> assoc_backward d \<and> keyed_by_id d"
proof -
  let ?d0 = "load_tgw_route_tables rts (load_tgw_attachments atts
                   (load_tgws gws (load_metadata acct NetworkData_init)))"
  let ?d1 = "load_associations association_files ?d0"
  have inv1: "assoc_forward ?d1 \<and> assoc_backward ?d1 \<and> keyed_by_id ?d1"
    using fresh_invariants[of rts atts gws acct] load_associations_inv by blast
  have "table_view d = table_view ?d1 \<and> att_view d = att_view ?d1"
    unfolding assms finish_load_def load_tgw_data_def load_tgw_route_details_def
    by (simp add: classify_view extract_view correlate_data_view vpc_side_view
        load_routes_view load_propagations_view)
  then show ?thesis
    using inv1 view_invariants[of d ?d1] by simp
qed

text \<open>
  C6, as the code has it. Let the catalog be the result of the load, and take a TGW route
  table stored under \<open>t\<close> and an attachment stored under \<open>a\<close>. Both are stored under
  their ids. If the attachment names a table as its associated route table, the catalog
  has that table and \<open>a\<close> is among its associations. If moreover \<open>a\<close> is among the
  associations of no table other than \<open>t\<close>, then \<open>a\<close> is among the associations of \<open>t\<close>
  exactly when the attachment's associated route table id is \<open>t\<close>. (An id that names no
  attachment of the catalog is recorded in the associations all the same, and an
  attachment associated with several tables keeps the id of the last one written.)
\<close>

theorem association_round_trip:
  assumes "d = finish_load vs vrts sns
                 (load_tgw_data acct gws atts rts association_files propagation_files route_files)"
    and rt: "dict_get (tgw_route_tables d) t = Some rt"
    and att: "dict_get (tgw_attachments d) a = Some att"
  shows "trt_id rt = t \<and> att_id att = a
    \<and> (\<forall>t'. att_associated_route_table_id att = Some t' \<longrightarrow>
          (\<exists>rt'. dict_get (tgw_route_tables d) t' = Some rt' \<and> a \<in> set (trt_associations rt')))
    \<and> ((\<forall>t' rt'. dict_get (tgw_route_tables d) t' = Some rt' \<and> a \<in> set (trt_associations rt')
                  \<longrightarrow> t' = t)
        \<longrightarrow> (a \<in> set (trt_associations rt) \<longleftrightarrow> att_associated_route_table_id att = Some t))"
proof -
  from loaded_invariants[OF assms(1)]
  have f: "assoc_forward d" and b: "assoc_backward d" and k: "keyed_by_id d" by auto
  have tv: "table_view d t = Some (trt_id rt, trt_associations rt)"
    using rt by (simp add: table_view_def)
  have av: "att_view d a = Some (att_id att, att_associated_route_table_id att)"
    using att by (simp add: att_view_def)
  have ids: "trt_id rt = t \<and> att_id att = a"
    using k tv av unfolding keyed_by_id_def by blast
  have fwd: "\<exists>rt'. dict_get (tgw_route_tables d) t' = Some rt' \<and> a \<in> set (trt_associations rt')"
    if "att_associated_route_table_id att = Some t'" for t'
  proof -
    have "att_assoc d a = Some (Some t')"
      using av that by (simp add: att_assoc_def)
    with f obtain as where "table_assocs d t' = Some as" "a \<in> set as"
      unfolding assoc_forward_def by blast
    then show ?thesis by (auto simp: table_assocs_def table_view_def)
  qed
  have bwd: "att_associated_route_table_id att = Some t"
    if u: "\<forall>t' rt'. dict_get (tgw_route_tables d) t' = Some rt' \<and> a \<in> set (trt_associations rt')
                  \<longrightarrow> t' = t"
      and m: "a \<in> set (trt_associations rt)"
  proof -
    have "table_assocs d t = Some (trt_associations rt)"
      using tv by (simp add: table_assocs_def)
    moreover have "att_assoc d a \<noteq> None"
      using av by (simp add: att_assoc_def)
    ultimately have "att_assoc d a \<noteq> Some None"
      using b m unfolding assoc_backward_def by blast
    then obtain t' where t': "att_associated_route_table_id att = Some t'"
      using av by (auto simp: att_assoc_def)
    from fwd[OF this] u have "t' = t" by blast
    with t' show ?thesis by simp
  qed
  have "a \<in> set (trt_associations rt)" if "att_associated_route_table_id att = Some t"
    using fwd[OF that] rt by auto
  with ids fwd bwd show ?thesis by blast
qed


lemmas loader_defs =
  finish_load_def load_tgw_data_def load_tgw_route_details_def load_metadata_def
  NetworkData_init_def make_attachment_def make_tgw_route_table_def mk_raw_attachment_def
  mk_raw_route_table_def mk_raw_association_def correlate_data_def
  extract_cross_account_cidrs_def classify_subnets_def fill_cidrs_def Let_def
  dict_contains_def dict_get_def dict_values_def truthy_def get_default_def get_name_def
  attachment_type_of_def is_cross_account_def

lemma ex_double_tables:
  "tgw_route_tables (ex_assoc_catalog ex_double_association) =
     [(''rtb-1'', (make_tgw_route_table (mk_raw_route_table ''rtb-1''))
                    \<lparr>trt_associations := [''att-1'']\<rparr>),
      (''rtb-2'', (make_tgw_route_table (mk_raw_route_table ''rtb-2''))
                    \<lparr>trt_associations := [''att-1'', ''att-9'']\<rparr>)]"
  by (simp add: ex_assoc_catalog_def ex_double_association_def loader_defs)

lemma ex_double_attachments:
  "tgw_attachments (ex_assoc_catalog ex_double_association) =
     [(''att-1'', (make_attachment ''111111111111''
                    (mk_raw_attachment ''att-1'' ''vpc'' ''vpc-1'' (Some ''111111111111'')
                       (Some ''111111111111'')))
                    \<lparr>att_associated_route_table_id := Some ''rtb-2''\<rparr>)]"
  by (simp add: ex_assoc_catalog_def ex_double_association_def loader_defs)

lemma ex_single_tables:
  "tgw_route_tables (ex_assoc_catalog ex_single_association) =
     [(''rtb-1'', (make_tgw_route_table (mk_raw_route_table ''rtb-1''))
                    \<lparr>trt_associations := [''att-1'']\<rparr>),
      (''rtb-2'', make_tgw_route_table (mk_raw_route_table ''rtb-2''))]"
  by (simp add: ex_assoc_catalog_def ex_single_association_def loader_defs)

lemma ex_single_attachments:
  "tgw_attachments (ex_assoc_catalog ex_single_association) =
     [(''att-1'', (make_attachment ''111111111111''
                    (mk_raw_attachment ''att-1'' ''vpc'' ''vpc-1'' (Some ''111111111111'')
                       (Some ''111111111111'')))
                    \<lparr>att_associated_route_table_id := Some ''rtb-1''\<rparr>)]"
  by (simp add: ex_assoc_catalog_def ex_single_association_def loader_defs)

text \<open>
  C6 as stated fails. With \<open>att-1\<close> associated in the files of both \<open>rtb-1\<close> and \<open>rtb-2\<close>,
  \<open>att-1\<close> is among the associations of \<open>rtb-1\<close> while its associated route table id is
  \<open>rtb-2\<close>; and \<open>att-9\<close>, which the catalog does not have, is among the associations of
  \<open>rtb-2\<close>.
\<close>

theorem association_round_trip_counterexample:
  "table_assocs (ex_assoc_catalog ex_double_association) ''rtb-1'' = Some [''att-1'']
   \<and> att_assoc (ex_assoc_catalog ex_double_association) ''att-1'' = Some (Some ''rtb-2'')
   \<and> table_assocs (ex_assoc_catalog ex_double_association) ''rtb-2'' = Some [''att-1'', ''att-9'']
   \<and> att_assoc (ex_assoc_catalog ex_double_association) ''att-9'' = None"
  by (simp add: table_assocs_def att_assoc_def table_view_def att_view_def dict_get_def
      ex_double_tables ex_double_attachments)

text \<open>With \<open>att-1\<close> associated with \<open>rtb-1\<close> alone, the two sides agree.\<close>

theorem association_round_trip_witness:
  "table_assocs (ex_assoc_catalog ex_single_association) ''rtb-1'' = Some [''att-1'']
   \<and> att_assoc (ex_assoc_catalog ex_single_association) ''att-1'' = Some (Some ''rtb-1'')"
proof -
  let ?d = "ex_assoc_catalog ex_single_association"
  let ?rt = "(make_tgw_route_table (mk_raw_route_table ''rtb-1''))\<lparr>trt_associations := [''att-1'']\<rparr>"
  let ?att = "(make_attachment ''111111111111''
                    (mk_raw_attachment ''att-1'' ''vpc'' ''vpc-1'' (Some ''111111111111'')
                       (Some ''111111111111'')))
                    \<lparr>att_associated_route_table_id := Some ''rtb-1''\<rparr>"
  have rt: "dict_get (tgw_route_tables ?d) ''rtb-1'' = Some ?rt"
    by (simp add: ex_single_tables dict_get_def)
  have att: "dict_get (tgw_attachments ?d) ''att-1'' = Some ?att"
    by (simp add: ex_single_attachments dict_get_def)
  have u: "\<forall>t' rt'. dict_get (tgw_route_tables ?d) t' = Some rt' \<and> ''att-1'' \<in> set (trt_associations rt')
             \<longrightarrow> t' = ''rtb-1''"
    by (auto simp: ex_single_tables dict_get_def make_tgw_route_table_def split: if_splits)
  have m: "''att-1'' \<in> set (trt_associations ?rt)"
    by simp
  from association_round_trip[OF ex_assoc_catalog_def rt att] u m
  have "att_associated_route_table_id ?att = Some ''rtb-1''"
    by blast
  then show ?thesis
    using rt att by (simp add: table_assocs_def att_assoc_def table_view_def att_view_def)
qed

section \<open>The cross-account flag (C5)\<close>

lemma stable_assoc_records:
  assumes "loader_stable h"
  shows "map_option h (dict_get (tgw_attachments (load_association_records t rs d)) a) =
         map_option h (dict_get (tgw_attachments d) a)
       \<and> local_account_id (load_association_records t rs d) = local_account_id d"
proof (induction rs arbitrary: d)
  case Nil
  then show ?case by simp
next
  case (Cons r rs)
  have "map_option h (dict_get (tgw_attachments (assoc_step t x d)) a) =
        map_option h (dict_get (tgw_attachments d) a)
        \<and> local_account_id (assoc_step t x d) = local_account_id d" for x
    using assms
    by (simp add: assoc_step_def Let_def dict_get_modify option.map_comp comp_def
        loader_stable_def)
  then show ?case
    unfolding load_association_records_step by (simp add: Cons.IH)
qed

lemma stable_associations:
  assumes "loader_stable h"
  shows "map_option h (dict_get (tgw_attachments (load_associations files d)) a) =
         map_option h (dict_get (tgw_attachments d) a)
       \<and> local_account_id (load_associations files d) = local_account_id d"
  by (induction files arbitrary: d) (auto simp: stable_assoc_records[OF assms])

lemma stable_propagation_records:
  assumes "loader_stable h"
  shows "map_option h (dict_get (tgw_attachments (load_propagation_records t rs d)) a) =
         map_option h (dict_get (tgw_attachments d) a)
       \<and> local_account_id (load_propagation_records t rs d) = local_account_id d"
proof (induction rs arbitrary: d)
  case Nil
  then show ?case by simp
next
  case (Cons r rs)
  show ?case
    using assms
    by (simp add: Cons.IH Let_def dict_get_modify option.map_comp comp_def loader_stable_def)
qed

lemma stable_propagations:
  assumes "loader_stable h"
  shows "map_option h (dict_get (tgw_attachments (load_propagations files d)) a) =
         map_option h (dict_get (tgw_attachments d) a)
       \<and> local_account_id (load_propagations files d) = local_account_id d"
  by (induction files arbitrary: d) (auto simp: stable_propagation_records[OF assms])

lemma load_route_records_frame:
  "tgw_attachments (load_route_records t rs d) = tgw_attachments d
   \<and> local_account_id (load_route_records t rs d) = local_account_id d"
  by (induction rs arbitrary: d) auto

lemma load_routes_frame:
  "tgw_attachments (load_routes files d) = tgw_attachments d
   \<and> local_account_id (load_routes files d) = local_account_id d"
  by (induction files arbitrary: d) (auto simp: load_route_records_frame)

lemma stable_correlate_loop:
  assumes "loader_stable h"
  shows "map (\<lambda>p. (fst p, h (snd p))) (fst (correlate_loop atts vs)) =
         map (\<lambda>p. (fst p, h (snd p))) atts"
proof (induction atts arbitrary: vs)
  case Nil
  then show ?case by simp
next
  case (Cons p atts)
  obtain k att where p: "p = (k, att)" by (cases p)
  have "h (att\<lparr>att_cidrs := c, att_name := n\<rparr>) = h att" for c n
    using assms unfolding loader_stable_def by metis
  then show ?case
    unfolding p
    by (simp add: Let_def split_beta Cons.IH split: option.splits)
qed

lemma stable_correlate_data:
  assumes "loader_stable h"
  shows "map_option h (dict_get (tgw_attachments (correlate_data d)) a) =
         map_option h (dict_get (tgw_attachments d) a)
       \<and> local_account_id (correlate_data d) = local_account_id d"
proof -
  have "tgw_attachments (correlate_data d) = fst (correlate_loop (tgw_attachments d) (vpcs d))"
    by (simp add: correlate_data_def split_beta)
  moreover have "local_account_id (correlate_data d) = local_account_id d"
    by (simp add: correlate_data_def split_beta)
  ultimately show ?thesis
    using map_of_view[of h, OF stable_correlate_loop[OF assms, of "tgw_attachments d" "vpcs d"]]
    by (simp add: dict_get_def)
qed

lemma stable_extract:
  assumes "loader_stable h"
  shows "map_option h (dict_get (tgw_attachments (extract_cross_account_cidrs d)) a) =
         map_option h (dict_get (tgw_attachments d) a)
       \<and> local_account_id (extract_cross_account_cidrs d) = local_account_id d"
proof -
  have "h (fill_cidrs m x) = h x" for m x
    using assms by (auto simp: fill_cidrs_def Let_def loader_stable_def split: option.splits)
  then show ?thesis
    by (simp add: extract_cross_account_cidrs_def Let_def dict_get_map_values
        option.map_comp comp_def)
qed

lemma stable_load:
  assumes "loader_stable h"
  shows "map_option h (dict_get (tgw_attachments (finish_load vs vrts sns
             (load_tgw_data acct gws atts rts association_files propagation_files route_files))) a) =
         map_option h (dict_get (tgw_attachments
             (load_tgw_attachments atts (load_tgws gws (load_metadata acct NetworkData_init)))) a)
       \<and> local_account_id (finish_load vs vrts sns
             (load_tgw_data acct gws atts rts association_files propagation_files route_files)) =
         local_account_id (load_tgw_attachments atts (load_tgws gws (load_metadata acct NetworkData_init)))"
proof -
  have c: "tgw_attachments (classify_subnets d) = tgw_attachments d
        \<and> local_account_id (classify_subnets d) = local_account_id d" for d
    by (simp add: classify_subnets_def)
  have t: "local_account_id (load_tgw_route_tables rts d) = local_account_id d" for d
    by (induction rts arbitrary: d) auto
  show ?thesis
    unfolding finish_load_def load_tgw_data_def load_tgw_route_details_def
    by (simp add: c stable_extract[OF assms] stable_correlate_data[OF assms] load_routes_frame
        stable_propagations[OF assms] stable_associations[OF assms] load_tgw_route_tables_atts t)
qed

lemma load_tgws_local: "local_account_id (load_tgws gws d) = local_account_id d"
  by (induction gws arbitrary: d) auto

text \<open>
  C5, as the code has it. For every attachment of the catalog after the load, the
  cross-account flag is set exactly when the resource-owner id is not empty, the effective
  owner id (the TGW owner when known, else the local account) is not empty, and the two
  differ. An attachment with an unknown resource owner, or with no owner to compare with,
  is not flagged.
\<close>

theorem cross_account_flag:
  assumes d: "d = finish_load vs vrts sns
                 (load_tgw_data acct gws atts rts association_files propagation_files route_files)"
    and a: "dict_get (tgw_attachments d) k = Some a"
  shows "att_is_cross_account a =
           (att_resource_owner_id a \<noteq> [] \<and> spec_effective_owner d a \<noteq> []
            \<and> att_resource_owner_id a \<noteq> spec_effective_owner d a)"
proof -
  let ?d0 = "load_tgws gws (load_metadata acct NetworkData_init)"
  have st: "loader_stable owner_view"
    by (simp add: loader_stable_def owner_view_def)
  note sl = stable_load[OF st, of vs vrts sns acct gws atts rts association_files
                        propagation_files route_files k]
  have la: "local_account_id d = local_account_id ?d0"
    unfolding d using sl by (simp add: load_tgw_attachments_frame)
  have "map_option owner_view (dict_get (tgw_attachments (load_tgw_attachments atts ?d0)) k) =
        Some (owner_view a)"
    using sl a unfolding d by simp
  then obtain a0 where a0: "dict_get (tgw_attachments (load_tgw_attachments atts ?d0)) k = Some a0"
    and ov: "owner_view a0 = owner_view a"
    by (cases "dict_get (tgw_attachments (load_tgw_attachments atts ?d0)) k") auto
  from load_tgw_attachments_get[OF a0]
  obtain raw where "a0 = make_attachment (local_account_id ?d0) raw"
    by (auto simp: load_tgws_frame load_metadata_def NetworkData_init_def dict_get_def)
  then have f: "att_is_cross_account a0 =
           (att_resource_owner_id a0 \<noteq> []
            \<and> (if att_tgw_owner_id a0 \<noteq> [] then att_tgw_owner_id a0 else local_account_id ?d0) \<noteq> []
            \<and> att_resource_owner_id a0 \<noteq>
                (if att_tgw_owner_id a0 \<noteq> [] then att_tgw_owner_id a0 else local_account_id ?d0))"
    by (auto simp: make_attachment_def Let_def is_cross_account_def)
  have eqs: "att_is_cross_account a0 = att_is_cross_account a"
    "att_resource_owner_id a0 = att_resource_owner_id a"
    "att_tgw_owner_id a0 = att_tgw_owner_id a"
    using ov by (simp_all add: owner_view_def)
  from f show ?thesis
    unfolding eqs la[symmetric] spec_effective_owner_def .
qed

lemma ex_owner_catalog_attachments:
  "tgw_attachments ex_owner_catalog =
     [(''tgw-attach-1'',
       make_attachment ''111111111111''
         (mk_raw_attachment ''tgw-attach-1'' ''vpc'' ''vpc-1'' (Some ''222222222222'')
            (Some ''111111111111''))),
      (''tgw-attach-2'',
       make_attachment ''111111111111''
         (mk_raw_attachment ''tgw-attach-2'' ''vpc'' ''vpc-2'' None (Some ''111111111111'')))]"
  by (simp add: ex_owner_catalog_def loader_defs)

lemma ex_owner_catalog_local: "local_account_id ex_owner_catalog = ''111111111111''"
  by (simp add: ex_owner_catalog_def loader_defs)

text \<open>The attachment of a VPC owned by account \<open>222222222222\<close> on a TGW of \<open>111111111111\<close> is flagged.\<close>

theorem cross_account_flag_witness:
  "att_is_cross_account
     (make_attachment ''111111111111''
        (mk_raw_attachment ''tgw-attach-1'' ''vpc'' ''vpc-1'' (Some ''222222222222'')
           (Some ''111111111111'')))"
proof -
  have "dict_get (tgw_attachments ex_owner_catalog) ''tgw-attach-1'' =
          Some (make_attachment ''111111111111''
                  (mk_raw_attachment ''tgw-attach-1'' ''vpc'' ''vpc-1'' (Some ''222222222222'')
                     (Some ''111111111111'')))"
    by (simp add: ex_owner_catalog_attachments dict_get_def)
  from cross_account_flag[OF ex_owner_catalog_def this] show ?thesis
    by (simp add: spec_effective_owner_def ex_owner_catalog_local make_attachment_def
        mk_raw_attachment_def get_default_def Let_def)
qed

text \<open>
  C5 as stated fails when the resource-owner id is empty: the second attachment has no
  resource owner, its effective owner is \<open>111111111111\<close>, the two differ, and the flag is
  not set.
\<close>

theorem cross_account_flag_counterexample:
  "dict_get (tgw_attachments ex_owner_catalog) ''tgw-attach-2'' =
     Some (make_attachment ''111111111111''
             (mk_raw_attachment ''tgw-attach-2'' ''vpc'' ''vpc-2'' None (Some ''111111111111'')))
   \<and> \<not> att_is_cross_account
         (make_attachment ''111111111111''
            (mk_raw_attachment ''tgw-attach-2'' ''vpc'' ''vpc-2'' None (Some ''111111111111'')))
   \<and> att_resource_owner_id
         (make_attachment ''111111111111''
            (mk_raw_attachment ''tgw-attach-2'' ''vpc'' ''vpc-2'' None (Some ''111111111111'')))
       \<noteq> spec_effective_owner ex_owner_catalog
           (make_attachment ''111111111111''
              (mk_raw_attachment ''tgw-attach-2'' ''vpc'' ''vpc-2'' None (Some ''111111111111'')))"
  by (simp add: ex_owner_catalog_attachments ex_owner_catalog_local dict_get_def
      spec_effective_owner_def make_attachment_def mk_raw_attachment_def get_default_def
      is_cross_account_def Let_def get_name_def)


end
